theory Spec2Isabelle
  imports Complex_Main "HOL-Library.List_Lexorder" "HOL-Library.Log_Nat"
begin

section \<open>Data model and geometry (types.ts, geometry.ts)\<close>

text \<open>
  A JavaScript number is an IEEE 754 double, and a finite double is a rational: pixel
  coordinates, sizes and the overlap threshold are \<^typ>\<open>rat\<close>, and \<open>NaN\<close> and the
  infinities do not occur.  Comparisons of doubles are exact.  The product and the sum or
  difference that \<open>partition\<close> compares a candidate's edge with are rounded as the
  machine rounds them, by \<open>fl\<close> below; the centre that \<open>getRect\<close> computes and the
  differences of the distance functions are taken exactly, as they are for coordinates
  whose sums and differences are doubles (whole pixels, for one).  DOM elements are opaque
  identities.
\<close>

type_synonym elem = nat

subsection \<open>Rounding to double precision\<close>

text \<open>
  \<open>fl x\<close> is the double nearest to \<open>x\<close>, ties going to the even significand: with
  \<open>e\<close> the exponent that puts \<open>|x| / 2^e\<close> in \<open>[2^52, 2^53)\<close>, and not below the
  exponent \<open>-1074\<close> of the subnormal numbers, it is \<open>|x| / 2^e\<close> rounded to an integer,
  times \<open>2^e\<close>, with the sign of \<open>x\<close>.  Overflow to infinity, at magnitudes of \<open>2^1024\<close>
  and beyond, is not modelled.  An arithmetic operation of the machine on two doubles
  gives \<open>fl\<close> of the exact result.
\<close>

definition pow2 :: "int \<Rightarrow> rat" where
  "pow2 e = (if 0 \<le> e then 2 ^ nat e else 1 / 2 ^ nat (- e))"

definition round_half_even :: "rat \<Rightarrow> int" where
  "round_half_even q =
     (let f = \<lfloor>q\<rfloor>; r = q - of_int f
      in if r < 1 / 2 then f else if 1 / 2 < r then f + 1 else if even f then f else f + 1)"

definition exponent_of :: "rat \<Rightarrow> int" where
  "exponent_of q =
     (let (n, d) = quotient_of q;
          e = bitlen n - bitlen d - 53
      in max (if q / pow2 e < 2 ^ 53 then e else e + 1) (- 1074))"

definition fl :: "rat \<Rightarrow> rat" where
  "fl x =
     (if x = 0 then 0
      else (let q = \<bar>x\<bar>; e = exponent_of q; m = round_half_even (q / pow2 e)
            in (if x < 0 then - 1 else 1) * of_int m * pow2 e))"

text \<open>The \<open>DOMRect\<close> returned by \<open>getBoundingClientRect\<close>.\<close>

record client_rect =
  cr_left :: rat
  cr_top :: rat
  cr_right :: rat
  cr_bottom :: rat
  cr_width :: rat
  cr_height :: rat

text \<open>\<open>Rect.center\<close>: the centre point, with \<open>left = right = x\<close> and \<open>top = bottom = y\<close>.\<close>

record center =
  c_x :: rat
  c_y :: rat
  c_left :: rat
  c_right :: rat
  c_top :: rat
  c_bottom :: rat

text \<open>The \<open>Rect\<close> interface of types.ts.\<close>

record rect =
  r_left :: rat
  r_top :: rat
  r_right :: rat
  r_bottom :: rat
  r_width :: rat
  r_height :: rat
  r_element :: elem
  r_center :: center

subsection \<open>Configuration and DOM interface (types.ts)\<close>

datatype direction = Left | Up | Right | Down

text \<open>\<open>PreviousFocus\<close>: the record kept for \<open>rememberSource\<close>.\<close>

record previous_focus =
  pf_target :: elem
  pf_destination :: elem
  pf_reverse :: direction

text \<open>A value of type \<open>string | HTMLElement\<close> (a \<open>leaveFor\<close> entry, \<open>defaultElement\<close>).\<close>

datatype selector = Sel string | El elem

datatype enter_to = EnterNone | LastFocused | DefaultElement

datatype restrict_mode = SelfFirst | SelfOnly | RestrictNone

record leave_for =
  lf_up :: "selector option"
  lf_down :: "selector option"
  lf_left :: "selector option"
  lf_right :: "selector option"

text \<open>
  \<open>SectionConfig\<close> as stored: every property is optional, \<open>None\<close> standing for an absent
  property (\<open>undefined\<close>, and \<open>null\<close> for \<open>leaveFor\<close> and \<open>navigableFilter\<close>, which every
  read treats like \<open>undefined\<close>).  The global configuration has the same shape.
\<close>

record section_config =
  sc_selector :: "string option"
  sc_straightOnly :: "bool option"
  sc_straightOverlapThreshold :: "rat option"
  sc_rememberSource :: "bool option"
  sc_disabled :: "bool option"
  sc_defaultElement :: "selector option"
  sc_enterTo :: "enter_to option"
  sc_leaveFor :: "leave_for option"
  sc_restrict :: "restrict_mode option"
  sc_tabIndexIgnoreList :: "string option"
  sc_navigableFilter :: "(elem \<Rightarrow> string \<Rightarrow> bool) option"
  sc_sectionPrefix :: "string option"
  sc_eventPrefix :: "string option"
  sc_lastFocusedElement :: "elem option"
  sc_previous :: "previous_focus option"

text \<open>The names of the custom events, and the detail object they carry.\<close>

datatype event_name = WillMove | WillUnfocus | Unfocused | WillFocus | Focused
  | NavigateFailed | EnterDown | EnterUp

datatype cause = Keydown | Api

record event_detail =
  ed_direction :: "direction option"
  ed_id :: "string option"
  ed_nextId :: "string option"
  ed_nextElement :: "elem option"
  ed_previousElement :: "elem option"
  ed_native :: "bool option"
  ed_cause :: "cause option"

text \<open>
  The document the engine runs against: the external collaborators of the specification
  (geometry query, selector resolution, visibility, attributes) and the listeners of the
  page, of which only the veto matters: \<open>prevented e n d\<close> holds when a listener calls
  \<open>preventDefault\<close> on the event \<open>n\<close> with detail \<open>d\<close> dispatched at \<open>e\<close>.  Listeners
  do not call back into the engine.  \<open>invalidSelector s\<close> holds of the non-empty strings
  that are not valid selectors: \<open>querySelectorAll\<close> and \<open>matches\<close> throw a
  \<open>SyntaxError\<close> for them, as they do for the empty string.
\<close>

record dom =
  getBoundingClientRect :: "elem \<Rightarrow> client_rect option"
  querySelectorAll :: "string \<Rightarrow> elem list"
  invalidSelector :: "string \<Rightarrow> bool"
  offsetWidth :: "elem \<Rightarrow> int"
  offsetHeight :: "elem \<Rightarrow> int"
  hasAttribute_disabled :: "elem \<Rightarrow> bool"
  getAttribute_data_sn :: "elem \<Rightarrow> direction \<Rightarrow> string option"
  prevented :: "elem \<Rightarrow> event_name \<Rightarrow> event_detail \<Rightarrow> bool"

subsection \<open>getRect\<close>

text \<open>
  \<open>getRect\<close>: \<open>None\<close> when the element has no bounding box; the centre is
  \<open>left + floor (width / 2)\<close>, \<open>top + floor (height / 2)\<close>.
\<close>

definition getRect :: "dom \<Rightarrow> elem \<Rightarrow> rect option" where
  "getRect d elem =
     (case getBoundingClientRect d elem of
        None \<Rightarrow> None
      | Some cr \<Rightarrow>
          (let x = cr_left cr + of_int \<lfloor>cr_width cr / 2\<rfloor>;
               y = cr_top cr + of_int \<lfloor>cr_height cr / 2\<rfloor>
           in Some \<lparr> r_left = cr_left cr, r_top = cr_top cr, r_right = cr_right cr,
                     r_bottom = cr_bottom cr, r_width = cr_width cr, r_height = cr_height cr,
                     r_element = elem,
                     r_center = \<lparr> c_x = x, c_y = y, c_left = x, c_right = x,
                                  c_top = y, c_bottom = y \<rparr> \<rparr>))"

subsection \<open>Grid constants (constants.ts)\<close>

definition Grid_SIZE :: nat where "Grid_SIZE = 3"
definition TOP_LEFT :: nat where "TOP_LEFT = 0"
definition TOP_CENTER :: nat where "TOP_CENTER = 1"
definition TOP_RIGHT :: nat where "TOP_RIGHT = 2"
definition MIDDLE_LEFT :: nat where "MIDDLE_LEFT = 3"
definition MIDDLE_CENTER :: nat where "MIDDLE_CENTER = 4"
definition MIDDLE_RIGHT :: nat where "MIDDLE_RIGHT = 5"
definition BOTTOM_LEFT :: nat where "BOTTOM_LEFT = 6"
definition BOTTOM_CENTER :: nat where "BOTTOM_CENTER = 7"
definition BOTTOM_RIGHT :: nat where "BOTTOM_RIGHT = 8"
definition CORNERS :: "nat list" where "CORNERS = [0, 2, 6, 8]"

lemmas Grid_defs = Grid_SIZE_def TOP_LEFT_def TOP_CENTER_def TOP_RIGHT_def MIDDLE_LEFT_def
  MIDDLE_CENTER_def MIDDLE_RIGHT_def BOTTOM_LEFT_def BOTTOM_CENTER_def BOTTOM_RIGHT_def
  CORNERS_def

subsection \<open>partition\<close>

text \<open>\<open>groups[k].push(rect)\<close> on the array of nine buckets.\<close>

definition push :: "nat \<Rightarrow> 'a \<Rightarrow> 'a list list \<Rightarrow> 'a list list" where
  "push k v groups = groups[k := groups ! k @ [v]]"

text \<open>
  The four overlap checks made for a corner rectangle, in source order: the two horizontal
  checks (for the top/bottom edge buckets) and the two vertical checks (for the left/right
  edge buckets).  Each is one \<open>if\<close> statement of the loop body; the product and the sum
  or difference on its right-hand side are machine operations.
\<close>

definition check_left_edge :: "rect \<Rightarrow> rat \<Rightarrow> nat \<Rightarrow> rect \<Rightarrow> rect list list \<Rightarrow> rect list list" where
  "check_left_edge targetRect straightOverlapThreshold groupId rect groups =
     (if r_left rect \<le> fl (r_right targetRect - fl (r_width targetRect * straightOverlapThreshold))
      then (if groupId = TOP_RIGHT then push TOP_CENTER rect groups
            else if groupId = BOTTOM_RIGHT then push BOTTOM_CENTER rect groups
            else groups)
      else groups)"

definition check_right_edge :: "rect \<Rightarrow> rat \<Rightarrow> nat \<Rightarrow> rect \<Rightarrow> rect list list \<Rightarrow> rect list list" where
  "check_right_edge targetRect straightOverlapThreshold groupId rect groups =
     (if r_right rect \<ge> fl (r_left targetRect + fl (r_width targetRect * straightOverlapThreshold))
      then (if groupId = TOP_LEFT then push TOP_CENTER rect groups
            else if groupId = BOTTOM_LEFT then push BOTTOM_CENTER rect groups
            else groups)
      else groups)"

definition check_top_edge :: "rect \<Rightarrow> rat \<Rightarrow> nat \<Rightarrow> rect \<Rightarrow> rect list list \<Rightarrow> rect list list" where
  "check_top_edge targetRect straightOverlapThreshold groupId rect groups =
     (if r_top rect \<le> fl (r_bottom targetRect - fl (r_height targetRect * straightOverlapThreshold))
      then (if groupId = BOTTOM_LEFT then push MIDDLE_LEFT rect groups
            else if groupId = BOTTOM_RIGHT then push MIDDLE_RIGHT rect groups
            else groups)
      else groups)"

definition check_bottom_edge :: "rect \<Rightarrow> rat \<Rightarrow> nat \<Rightarrow> rect \<Rightarrow> rect list list \<Rightarrow> rect list list" where
  "check_bottom_edge targetRect straightOverlapThreshold groupId rect groups =
     (if r_bottom rect \<ge> fl (r_top targetRect + fl (r_height targetRect * straightOverlapThreshold))
      then (if groupId = TOP_LEFT then push MIDDLE_LEFT rect groups
            else if groupId = TOP_RIGHT then push MIDDLE_RIGHT rect groups
            else groups)
      else groups)"

text \<open>The body of the \<open>for\<close> loop of \<open>partition\<close> for one rectangle.\<close>

definition partition_step :: "rect \<Rightarrow> rat \<Rightarrow> rect list list \<Rightarrow> rect \<Rightarrow> rect list list" where
  "partition_step targetRect straightOverlapThreshold groups rect =
     (let x = (if c_x (r_center rect) < r_left targetRect then 0
               else if c_x (r_center rect) \<le> r_right targetRect then 1 else 2 :: nat);
          y = (if c_y (r_center rect) < r_top targetRect then 0
               else if c_y (r_center rect) \<le> r_bottom targetRect then 1 else 2 :: nat);
          groupId = y * Grid_SIZE + x;
          g0 = push groupId rect groups
      in if groupId \<in> set CORNERS then
           check_bottom_edge targetRect straightOverlapThreshold groupId rect
             (check_top_edge targetRect straightOverlapThreshold groupId rect
               (check_right_edge targetRect straightOverlapThreshold groupId rect
                 (check_left_edge targetRect straightOverlapThreshold groupId rect g0)))
         else g0)"

text \<open>\<open>partition\<close> (named \<open>partition_grid\<close> here, \<open>partition\<close> being a list function of HOL).\<close>

definition partition_grid :: "rect list \<Rightarrow> rect \<Rightarrow> rat \<Rightarrow> rect list list" where
  "partition_grid rects targetRect straightOverlapThreshold =
     foldl (partition_step targetRect straightOverlapThreshold) (replicate 9 []) rects"

subsection \<open>distanceBuilder\<close>

definition nearPlumbLineIsBetter :: "rect \<Rightarrow> rect \<Rightarrow> rat" where
  "nearPlumbLineIsBetter targetRect rect =
     (let d = (if c_x (r_center rect) < c_x (r_center targetRect)
               then c_x (r_center targetRect) - r_right rect
               else r_left rect - c_x (r_center targetRect))
      in if d < 0 then 0 else d)"

definition nearHorizonIsBetter :: "rect \<Rightarrow> rect \<Rightarrow> rat" where
  "nearHorizonIsBetter targetRect rect =
     (let d = (if c_y (r_center rect) < c_y (r_center targetRect)
               then c_y (r_center targetRect) - r_bottom rect
               else r_top rect - c_y (r_center targetRect))
      in if d < 0 then 0 else d)"

definition nearTargetLeftIsBetter :: "rect \<Rightarrow> rect \<Rightarrow> rat" where
  "nearTargetLeftIsBetter targetRect rect =
     (let d = (if c_x (r_center rect) < c_x (r_center targetRect)
               then r_left targetRect - r_right rect
               else r_left rect - r_left targetRect)
      in if d < 0 then 0 else d)"

definition nearTargetTopIsBetter :: "rect \<Rightarrow> rect \<Rightarrow> rat" where
  "nearTargetTopIsBetter targetRect rect =
     (let d = (if c_y (r_center rect) < c_y (r_center targetRect)
               then r_top targetRect - r_bottom rect
               else r_top rect - r_top targetRect)
      in if d < 0 then 0 else d)"

definition topIsBetter :: "rect \<Rightarrow> rect \<Rightarrow> rat" where
  "topIsBetter targetRect rect = r_top rect"

definition bottomIsBetter :: "rect \<Rightarrow> rect \<Rightarrow> rat" where
  "bottomIsBetter targetRect rect = -1 * r_bottom rect"

definition leftIsBetter :: "rect \<Rightarrow> rect \<Rightarrow> rat" where
  "leftIsBetter targetRect rect = r_left rect"

definition rightIsBetter :: "rect \<Rightarrow> rect \<Rightarrow> rat" where
  "rightIsBetter targetRect rect = -1 * r_right rect"


section \<open>Candidate resolver (core.ts, strategies.ts)\<close>

text \<open>A \<open>Priority\<close>: a group of rectangles and the distance functions that rank it.\<close>

record priority =
  p_group :: "rect list"
  p_distance :: "(rect \<Rightarrow> rat) list"

text \<open>
  The comparator passed to \<open>sort\<close> in \<open>prioritize\<close>: the first non-zero difference of
  the distance functions, or \<open>0\<close>.
\<close>

fun compare_rects :: "(rect \<Rightarrow> rat) list \<Rightarrow> rect \<Rightarrow> rect \<Rightarrow> rat" where
  "compare_rects [] a b = 0"
| "compare_rects (distance # ds) a b =
     (let delta = distance a - distance b
      in if delta \<noteq> 0 then delta else compare_rects ds a b)"

text \<open>
  \<open>Array.prototype.sort\<close> is a stable sort; with a consistent comparator its result is
  the one of this insertion sort, whatever algorithm the engine runs.
\<close>

fun insert_sorted :: "('a \<Rightarrow> 'a \<Rightarrow> rat) \<Rightarrow> 'a \<Rightarrow> 'a list \<Rightarrow> 'a list" where
  "insert_sorted cmp x [] = [x]"
| "insert_sorted cmp x (y # ys) =
     (if cmp x y \<le> 0 then x # y # ys else y # insert_sorted cmp x ys)"

definition js_sort :: "('a \<Rightarrow> 'a \<Rightarrow> rat) \<Rightarrow> 'a list \<Rightarrow> 'a list" where
  "js_sort cmp xs = foldr (insert_sorted cmp) xs []"

definition prioritize :: "priority list \<Rightarrow> rect list option" where
  "prioritize priorities =
     (case find (\<lambda>p. p_group p \<noteq> []) priorities of
        None \<Rightarrow> None
      | Some destPriority \<Rightarrow>
          Some (js_sort (compare_rects (p_distance destPriority)) (p_group destPriority)))"

subsection \<open>The per-direction strategies (strategies.ts)\<close>

definition leftStrategy :: "rect list list \<Rightarrow> rect list list \<Rightarrow> rect \<Rightarrow> priority list" where
  "leftStrategy groups internalGroups targetRect =
     [\<lparr> p_group = internalGroups ! TOP_LEFT @ internalGroups ! MIDDLE_LEFT
                    @ internalGroups ! BOTTOM_LEFT,
         p_distance = [nearPlumbLineIsBetter targetRect, topIsBetter targetRect] \<rparr>,
      \<lparr> p_group = groups ! MIDDLE_LEFT,
         p_distance = [nearPlumbLineIsBetter targetRect, topIsBetter targetRect] \<rparr>,
      \<lparr> p_group = groups ! TOP_LEFT @ groups ! BOTTOM_LEFT,
         p_distance = [nearHorizonIsBetter targetRect, rightIsBetter targetRect,
                       nearTargetTopIsBetter targetRect] \<rparr>]"

definition rightStrategy :: "rect list list \<Rightarrow> rect list list \<Rightarrow> rect \<Rightarrow> priority list" where
  "rightStrategy groups internalGroups targetRect =
     [\<lparr> p_group = internalGroups ! TOP_RIGHT @ internalGroups ! MIDDLE_RIGHT
                    @ internalGroups ! BOTTOM_RIGHT,
         p_distance = [nearPlumbLineIsBetter targetRect, topIsBetter targetRect] \<rparr>,
      \<lparr> p_group = groups ! MIDDLE_RIGHT,
         p_distance = [nearPlumbLineIsBetter targetRect, topIsBetter targetRect] \<rparr>,
      \<lparr> p_group = groups ! TOP_RIGHT @ groups ! BOTTOM_RIGHT,
         p_distance = [nearHorizonIsBetter targetRect, leftIsBetter targetRect,
                       nearTargetTopIsBetter targetRect] \<rparr>]"

definition upStrategy :: "rect list list \<Rightarrow> rect list list \<Rightarrow> rect \<Rightarrow> priority list" where
  "upStrategy groups internalGroups targetRect =
     [\<lparr> p_group = internalGroups ! TOP_LEFT @ internalGroups ! TOP_CENTER
                    @ internalGroups ! TOP_RIGHT,
         p_distance = [nearHorizonIsBetter targetRect, leftIsBetter targetRect] \<rparr>,
      \<lparr> p_group = groups ! TOP_CENTER,
         p_distance = [nearHorizonIsBetter targetRect, leftIsBetter targetRect] \<rparr>,
      \<lparr> p_group = groups ! TOP_LEFT @ groups ! TOP_RIGHT,
         p_distance = [nearPlumbLineIsBetter targetRect, bottomIsBetter targetRect,
                       nearTargetLeftIsBetter targetRect] \<rparr>]"

definition downStrategy :: "rect list list \<Rightarrow> rect list list \<Rightarrow> rect \<Rightarrow> priority list" where
  "downStrategy groups internalGroups targetRect =
     [\<lparr> p_group = internalGroups ! BOTTOM_LEFT @ internalGroups ! BOTTOM_CENTER
                    @ internalGroups ! BOTTOM_RIGHT,
         p_distance = [nearHorizonIsBetter targetRect, leftIsBetter targetRect] \<rparr>,
      \<lparr> p_group = groups ! BOTTOM_CENTER,
         p_distance = [nearHorizonIsBetter targetRect, leftIsBetter targetRect] \<rparr>,
      \<lparr> p_group = groups ! BOTTOM_LEFT @ groups ! BOTTOM_RIGHT,
         p_distance = [nearPlumbLineIsBetter targetRect, topIsBetter targetRect,
                       nearTargetLeftIsBetter targetRect] \<rparr>]"

fun navigationStrategies ::
  "direction \<Rightarrow> rect list list \<Rightarrow> rect list list \<Rightarrow> rect \<Rightarrow> priority list" where
  "navigationStrategies Left = leftStrategy"
| "navigationStrategies Right = rightStrategy"
| "navigationStrategies Up = upStrategy"
| "navigationStrategies Down = downStrategy"

subsection \<open>navigate (core.ts)\<close>

text \<open>The \<open>switch (direction)\<close> of \<open>navigate\<close>, which spells the four strategies out.\<close>

fun navigate_priorities ::
  "direction \<Rightarrow> rect list list \<Rightarrow> rect list list \<Rightarrow> rect \<Rightarrow> priority list" where
  "navigate_priorities Left groups internalGroups targetRect =
     [\<lparr> p_group = internalGroups ! 0 @ internalGroups ! 3 @ internalGroups ! 6,
         p_distance = [nearPlumbLineIsBetter targetRect, topIsBetter targetRect] \<rparr>,
      \<lparr> p_group = groups ! 3,
         p_distance = [nearPlumbLineIsBetter targetRect, topIsBetter targetRect] \<rparr>,
      \<lparr> p_group = groups ! 0 @ groups ! 6,
         p_distance = [nearHorizonIsBetter targetRect, rightIsBetter targetRect,
                       nearTargetTopIsBetter targetRect] \<rparr>]"
| "navigate_priorities Right groups internalGroups targetRect =
     [\<lparr> p_group = internalGroups ! 2 @ internalGroups ! 5 @ internalGroups ! 8,
         p_distance = [nearPlumbLineIsBetter targetRect, topIsBetter targetRect] \<rparr>,
      \<lparr> p_group = groups ! 5,
         p_distance = [nearPlumbLineIsBetter targetRect, topIsBetter targetRect] \<rparr>,
      \<lparr> p_group = groups ! 2 @ groups ! 8,
         p_distance = [nearHorizonIsBetter targetRect, leftIsBetter targetRect,
                       nearTargetTopIsBetter targetRect] \<rparr>]"
| "navigate_priorities Up groups internalGroups targetRect =
     [\<lparr> p_group = internalGroups ! 0 @ internalGroups ! 1 @ internalGroups ! 2,
         p_distance = [nearHorizonIsBetter targetRect, leftIsBetter targetRect] \<rparr>,
      \<lparr> p_group = groups ! 1,
         p_distance = [nearHorizonIsBetter targetRect, leftIsBetter targetRect] \<rparr>,
      \<lparr> p_group = groups ! 0 @ groups ! 2,
         p_distance = [nearPlumbLineIsBetter targetRect, bottomIsBetter targetRect,
                       nearTargetLeftIsBetter targetRect] \<rparr>]"
| "navigate_priorities Down groups internalGroups targetRect =
     [\<lparr> p_group = internalGroups ! 6 @ internalGroups ! 7 @ internalGroups ! 8,
         p_distance = [nearHorizonIsBetter targetRect, leftIsBetter targetRect] \<rparr>,
      \<lparr> p_group = groups ! 7,
         p_distance = [nearHorizonIsBetter targetRect, leftIsBetter targetRect] \<rparr>,
      \<lparr> p_group = groups ! 6 @ groups ! 8,
         p_distance = [nearPlumbLineIsBetter targetRect, topIsBetter targetRect,
                       nearTargetLeftIsBetter targetRect] \<rparr>]"

text \<open>The loop that measures the candidates, skipping those without a rectangle.\<close>

fun measure_candidates :: "dom \<Rightarrow> elem list \<Rightarrow> rect list" where
  "measure_candidates d [] = []"
| "measure_candidates d (c # cs) =
     (case getRect d c of
        None \<Rightarrow> measure_candidates d cs
      | Some rect \<Rightarrow> rect # measure_candidates d cs)"

text \<open>\<open>config.straightOverlapThreshold || 0.5\<close>: an absent threshold and \<open>0\<close> both give \<open>0.5\<close>.\<close>

definition overlap_threshold :: "section_config \<Rightarrow> rat" where
  "overlap_threshold config =
     (case sc_straightOverlapThreshold config of
        None \<Rightarrow> 1 / 2
      | Some v \<Rightarrow> if v = 0 then 1 / 2 else v)"

text \<open>The tiers handed to \<open>prioritize\<close>: \<open>priorities.pop()\<close> when \<open>straightOnly\<close> is set.\<close>

definition tiers :: "direction \<Rightarrow> rect list \<Rightarrow> rect \<Rightarrow> section_config \<Rightarrow> priority list" where
  "tiers direction rects targetRect config =
     (let groups = partition_grid rects targetRect (overlap_threshold config);
          internalGroups = partition_grid (groups ! 4) targetRect (overlap_threshold config);
          priorities = navigate_priorities direction groups internalGroups targetRect
      in if sc_straightOnly config = Some True then butlast priorities else priorities)"

text \<open>The remembered source, looked up in the winning group.\<close>

definition remembered_dest ::
  "elem \<Rightarrow> direction \<Rightarrow> section_config \<Rightarrow> rect list \<Rightarrow> elem option" where
  "remembered_dest target direction config destGroup =
     (if sc_rememberSource config = Some True then
        (case sc_previous config of
           None \<Rightarrow> None
         | Some previous \<Rightarrow>
             if pf_destination previous = target \<and> pf_reverse previous = direction
             then map_option r_element
                    (find (\<lambda>r. r_element r = pf_target previous) destGroup)
             else None)
      else None)"

definition navigate ::
  "dom \<Rightarrow> elem \<Rightarrow> direction \<Rightarrow> elem list \<Rightarrow> section_config \<Rightarrow> elem option" where
  "navigate d target direction candidates config =
     (if candidates = [] then None
      else case getRect d target of
        None \<Rightarrow> None
      | Some targetRect \<Rightarrow>
          (let rects = measure_candidates d candidates
           in if rects = [] then None
              else case prioritize (tiers direction rects targetRect config) of
                None \<Rightarrow> None
              | Some destGroup \<Rightarrow>
                  (case remembered_dest target direction config destGroup of
                     Some dest \<Rightarrow> Some dest
                   | None \<Rightarrow>
                       (case destGroup of [] \<Rightarrow> None | r # _ \<Rightarrow> Some (r_element r)))))"


section \<open>Section registry and focus state machine (spatial-navigation.ts)\<close>

subsection \<open>JavaScript objects as ordered association lists\<close>

text \<open>
  \<open>_sections\<close> is a plain object used as a dictionary and enumerated with \<open>for ... in\<close>
  and \<open>Object.keys\<close>.  Its own keys enumerate with the canonical array indices first, in
  ascending numeric order, followed by the other string keys in creation order.  The
  registry is the list of its entries in that order.  A read \<open>_sections[id]\<close> of a key the
  object does not own goes on to \<open>Object.prototype\<close>; see \<open>section_at\<close> below.
\<close>

definition digit_of :: "char \<Rightarrow> int" where
  "digit_of c = of_char c - 48"

definition is_digit :: "char \<Rightarrow> bool" where
  "is_digit c = (48 \<le> (of_char c :: int) \<and> (of_char c :: int) \<le> 57)"

definition parse_int :: "string \<Rightarrow> int" where
  "parse_int s = foldl (\<lambda>acc c. acc * 10 + digit_of c) 0 s"

text \<open>The array index a key denotes, if it is a canonical numeric string below \<open>2^32 - 1\<close>.\<close>

definition array_index :: "string \<Rightarrow> int option" where
  "array_index s =
     (if s \<noteq> [] \<and> list_all is_digit s \<and> (s = ''0'' \<or> hd s \<noteq> CHR ''0'')
         \<and> parse_int s \<le> 4294967294
      then Some (parse_int s) else None)"

type_synonym 'v js_object = "(string \<times> 'v) list"

definition obj_get :: "'v js_object \<Rightarrow> string \<Rightarrow> 'v option" where
  "obj_get obj k = map_of obj k"

definition obj_keys :: "'v js_object \<Rightarrow> string list" where
  "obj_keys obj = map fst obj"

fun insert_index :: "int \<Rightarrow> string \<times> 'v \<Rightarrow> 'v js_object \<Rightarrow> 'v js_object" where
  "insert_index n kv [] = [kv]"
| "insert_index n kv ((k', v') # rest) =
     (case array_index k' of
        Some m \<Rightarrow> if m < n then (k', v') # insert_index n kv rest else kv # (k', v') # rest
      | None \<Rightarrow> kv # (k', v') # rest)"

text \<open>\<open>obj[k] = v\<close>: an existing key keeps its place, a new key takes its place in the order.\<close>

definition obj_put :: "string \<Rightarrow> 'v \<Rightarrow> 'v js_object \<Rightarrow> 'v js_object" where
  "obj_put k v obj =
     (if k \<in> set (obj_keys obj)
      then map (\<lambda>(k', v'). if k' = k then (k', v) else (k', v')) obj
      else case array_index k of
             None \<Rightarrow> obj @ [(k, v)]
           | Some n \<Rightarrow> insert_index n (k, v) obj)"

text \<open>\<open>obj[k] = undefined; obj = extend({}, obj)\<close>: the entry is dropped, the order kept.\<close>

definition obj_delete :: "string \<Rightarrow> 'v js_object \<Rightarrow> 'v js_object" where
  "obj_delete k obj = filter (\<lambda>(k', v'). k' \<noteq> k) obj"

text \<open>The decimal rendering of a number in a template string.\<close>

fun dec :: "nat \<Rightarrow> string" where
  "dec n = (if n < 10 then [char_of (48 + n)] else dec (n div 10) @ [char_of (48 + n mod 10)])"

declare dec.simps [simp del]

subsection \<open>Exceptions\<close>

text \<open>
  The errors the code throws.  A function that may throw returns \<open>Inl\<close> of the error or
  \<open>Inr\<close> of its value, and one that also changes the state returns with it the state at
  the throw or at the return.  Nothing in the module catches an exception of its own, so
  an error ends the public call it occurs in.
\<close>

datatype js_error = SectionExists string | MissingId | NoSuchSection string | TypeError
  | SyntaxError

definition obind :: "js_error + 'a \<Rightarrow> ('a \<Rightarrow> js_error + 'b) \<Rightarrow> js_error + 'b" where
  "obind r f = (case r of Inl e \<Rightarrow> Inl e | Inr v \<Rightarrow> f v)"

definition attempt ::
  "js_error + 'a \<Rightarrow> 's \<Rightarrow> ('a \<Rightarrow> (js_error + 'b) \<times> 's) \<Rightarrow> (js_error + 'b) \<times> 's" where
  "attempt r w f = (case r of Inl e \<Rightarrow> (Inl e, w) | Inr v \<Rightarrow> f v)"

definition and_then ::
  "(js_error + 'a) \<times> 's \<Rightarrow> ('a \<Rightarrow> 's \<Rightarrow> (js_error + 'b) \<times> 's) \<Rightarrow> (js_error + 'b) \<times> 's" where
  "and_then r f = (case r of (Inl e, w) \<Rightarrow> (Inl e, w) | (Inr v, w) \<Rightarrow> f v w)"

text \<open>\<open>Array.prototype.forEach\<close> with a callback that may throw.\<close>

fun forEach :: "('a \<Rightarrow> 's \<Rightarrow> (js_error + unit) \<times> 's) \<Rightarrow> 'a list \<Rightarrow> 's \<Rightarrow> (js_error + unit) \<times> 's" where
  "forEach f [] w = (Inr (), w)"
| "forEach f (x # xs) w = and_then (f x w) (\<lambda>u w'. forEach f xs w')"

text \<open>\<open>Array.prototype.find\<close> with a predicate that may throw.\<close>

fun find_first :: "('a \<Rightarrow> js_error + bool) \<Rightarrow> 'a list \<Rightarrow> js_error + 'a option" where
  "find_first p [] = Inr None"
| "find_first p (x # xs) = obind (p x) (\<lambda>b. if b then Inr (Some x) else find_first p xs)"

subsection \<open>Engine state\<close>

text \<open>
  The module-level variables.  \<open>activeElement\<close> is the document's focused element
  (\<open>None\<close> for the body) and \<open>dispatched\<close> the events dispatched so far; both belong to
  the page, not to the engine.  \<open>inherited\<close> belongs to the JavaScript realm: it holds,
  for each member of \<open>Object.prototype\<close>, the engine properties that have been written on
  that member (none at the start).
\<close>

record nav_state =
  globalConfig :: section_config
  ID_POOL_PREFIX :: string
  EVENT_PREFIX :: string
  idPool :: nat
  ready :: bool
  pause :: bool
  sections :: "section_config js_object"
  sectionCount :: int
  defaultSectionId :: string
  lastSectionId :: string
  duringFocusChange :: bool

record world = nav_state +
  activeElement :: "elem option"
  dispatched :: "(elem \<times> event_name \<times> event_detail) list"
  inherited :: "section_config js_object"

definition empty_section :: section_config where
  "empty_section = \<lparr> sc_selector = None, sc_straightOnly = None,
     sc_straightOverlapThreshold = None, sc_rememberSource = None, sc_disabled = None,
     sc_defaultElement = None, sc_enterTo = None, sc_leaveFor = None, sc_restrict = None,
     sc_tabIndexIgnoreList = None, sc_navigableFilter = None, sc_sectionPrefix = None,
     sc_eventPrefix = None, sc_lastFocusedElement = None, sc_previous = None \<rparr>"

text \<open>The initial \<open>globalConfig\<close>.\<close>

definition default_globalConfig :: section_config where
  "default_globalConfig = empty_section \<lparr>
     sc_selector := Some '''', sc_straightOnly := Some False,
     sc_straightOverlapThreshold := Some (1 / 2), sc_rememberSource := Some False,
     sc_disabled := Some False, sc_defaultElement := Some (Sel ''''),
     sc_enterTo := Some EnterNone, sc_restrict := Some SelfFirst,
     sc_tabIndexIgnoreList :=
       Some ''a, input, select, textarea, button, iframe, [contentEditable=true]'',
     sc_sectionPrefix := Some ''section-'', sc_eventPrefix := Some ''sn:'' \<rparr>"

text \<open>The names of the members of \<open>Object.prototype\<close>.\<close>

definition Object_prototype_names :: "string list" where
  "Object_prototype_names =
     [''constructor'', ''__defineGetter__'', ''__defineSetter__'', ''hasOwnProperty'',
      ''__lookupGetter__'', ''__lookupSetter__'', ''isPrototypeOf'', ''propertyIsEnumerable'',
      ''toString'', ''valueOf'', ''__proto__'', ''toLocaleString'']"

definition initial_world :: world where
  "initial_world = \<lparr> globalConfig = default_globalConfig, ID_POOL_PREFIX = ''section-'',
     EVENT_PREFIX = ''sn:'', idPool = 0, ready = False, pause = False, sections = [],
     sectionCount = 0, defaultSectionId = '''', lastSectionId = '''',
     duringFocusChange = False, activeElement = None, dispatched = [],
     inherited = map (\<lambda>n. (n, empty_section)) Object_prototype_names \<rparr>"

definition REVERSE :: "direction \<Rightarrow> direction" where
  "REVERSE direction =
     (case direction of Left \<Rightarrow> Right | Up \<Rightarrow> Down | Right \<Rightarrow> Left | Down \<Rightarrow> Up)"

text \<open>
  \<open>_sections[id]\<close> as the code reads it: the section the registry owns under \<open>id\<close>, or
  else the member of \<open>Object.prototype\<close> of that name, which is an object (so truthy) and
  carries the engine properties written on it; \<open>undefined\<close> otherwise.  Engine properties
  written on \<open>Object.prototype\<close> itself, under the name \<open>__proto__\<close>, are kept with it;
  that every other object would then inherit them is not modelled.
\<close>

definition section_at :: "world \<Rightarrow> string \<Rightarrow> section_config option" where
  "section_at w ident =
     (case obj_get (sections w) ident of
        Some sec \<Rightarrow> Some sec
      | None \<Rightarrow> obj_get (inherited w) ident)"

text \<open>\<open>_sections[id].property = value\<close>: a \<open>TypeError\<close> when \<open>_sections[id]\<close> is undefined.\<close>

definition write_section ::
  "string \<Rightarrow> (section_config \<Rightarrow> section_config) \<Rightarrow> world \<Rightarrow> js_error + world" where
  "write_section ident f w =
     (case obj_get (sections w) ident of
        Some sec \<Rightarrow> Inr (w \<lparr> sections := obj_put ident (f sec) (sections w) \<rparr>)
      | None \<Rightarrow>
          (case obj_get (inherited w) ident of
             Some m \<Rightarrow> Inr (w \<lparr> inherited := obj_put ident (f m) (inherited w) \<rparr>)
           | None \<Rightarrow> Inl TypeError))"

text \<open>
  \<open>_sections[id] = object\<close>: the registry owns the key from then on, except for
  \<open>__proto__\<close>, where the assignment sets the prototype and creates no key.
\<close>

definition store_section :: "string \<Rightarrow> section_config \<Rightarrow> world \<Rightarrow> world" where
  "store_section ident sec w =
     (if ident = ''__proto__'' then w
      else w \<lparr> sections := obj_put ident sec (sections w) \<rparr>)"

subsection \<open>Arguments of the public functions, and the state of the state manager\<close>

text \<open>
  A configuration object passed to \<open>add\<close> and \<open>set\<close>.  A property is absent, or given
  with a value or with \<open>undefined\<close> (\<open>Given None\<close>).  Only the properties that \<open>set\<close>
  recognises, the keys of \<open>globalConfig\<close>, are listed besides \<open>id\<close>; \<open>set\<close> skips
  every other key of a configuration (keys named like members of \<open>Object.prototype\<close>,
  which \<open>globalConfig[key] !== undefined\<close> would let through, are not part of a
  configuration).
\<close>
datatype 'a field = Absent | Given "'a option"

record config =
  cf_id :: "string option"
  cf_selector :: "string field"
  cf_straightOnly :: "bool field"
  cf_straightOverlapThreshold :: "rat field"
  cf_rememberSource :: "bool field"
  cf_disabled :: "bool field"
  cf_defaultElement :: "selector field"
  cf_enterTo :: "enter_to field"
  cf_leaveFor :: "leave_for field"
  cf_restrict :: "restrict_mode field"
  cf_tabIndexIgnoreList :: "string field"
  cf_navigableFilter :: "(elem \<Rightarrow> string \<Rightarrow> bool) field"
  cf_sectionPrefix :: "string field"
  cf_eventPrefix :: "string field"

text \<open>
  \<open>StateManager\<close> keeps the sections in a \<open>Map\<close>, which enumerates in insertion order,
  and counts them in \<open>sectionCount\<close>.
\<close>

record state_manager =
  sm_sections :: "(string \<times> section_config) list"
  sm_sectionCount :: int
  sm_defaultSectionId :: string
  sm_lastSectionId :: string

subsection \<open>Helpers of core.ts\<close>

definition or_else :: "'a option \<Rightarrow> 'a option \<Rightarrow> 'a option" where
  "or_else a b = (case a of Some v \<Rightarrow> Some v | None \<Rightarrow> b)"

text \<open>\<open>extend({}, globalConfig, section)\<close>: the section's defined properties win.\<close>

definition extend :: "section_config \<Rightarrow> section_config \<Rightarrow> section_config" where
  "extend g s =
     \<lparr> sc_selector = or_else (sc_selector s) (sc_selector g),
       sc_straightOnly = or_else (sc_straightOnly s) (sc_straightOnly g),
       sc_straightOverlapThreshold =
         or_else (sc_straightOverlapThreshold s) (sc_straightOverlapThreshold g),
       sc_rememberSource = or_else (sc_rememberSource s) (sc_rememberSource g),
       sc_disabled = or_else (sc_disabled s) (sc_disabled g),
       sc_defaultElement = or_else (sc_defaultElement s) (sc_defaultElement g),
       sc_enterTo = or_else (sc_enterTo s) (sc_enterTo g),
       sc_leaveFor = or_else (sc_leaveFor s) (sc_leaveFor g),
       sc_restrict = or_else (sc_restrict s) (sc_restrict g),
       sc_tabIndexIgnoreList = or_else (sc_tabIndexIgnoreList s) (sc_tabIndexIgnoreList g),
       sc_navigableFilter = or_else (sc_navigableFilter s) (sc_navigableFilter g),
       sc_sectionPrefix = or_else (sc_sectionPrefix s) (sc_sectionPrefix g),
       sc_eventPrefix = or_else (sc_eventPrefix s) (sc_eventPrefix g),
       sc_lastFocusedElement = or_else (sc_lastFocusedElement s) (sc_lastFocusedElement g),
       sc_previous = or_else (sc_previous s) (sc_previous g) \<rparr>"

definition exclude :: "'a list \<Rightarrow> 'a list \<Rightarrow> 'a list" where
  "exclude elemList excludedElem = filter (\<lambda>elem. elem \<notin> set excludedElem) elemList"

text \<open>
  \<open>elem.matches(selector)\<close>: membership in the selector's result; a \<open>SyntaxError\<close> for
  the empty string and for an invalid selector.
\<close>

definition matches :: "dom \<Rightarrow> elem \<Rightarrow> string \<Rightarrow> js_error + bool" where
  "matches d e s =
     (if s = [] \<or> invalidSelector d s then Inl SyntaxError
      else Inr (e \<in> set (querySelectorAll d s)))"

text \<open>
  \<open>parseSelector\<close> on a \<open>string | HTMLElement\<close>: an empty or absent selector gives \<open>[]\<close>,
  and so does an invalid one, whose \<open>SyntaxError\<close> is caught.
\<close>

definition parseSelector :: "dom \<Rightarrow> selector option \<Rightarrow> elem list" where
  "parseSelector d selector =
     (case selector of
        None \<Rightarrow> []
      | Some (Sel s) \<Rightarrow> if s = [] \<or> invalidSelector d s then [] else querySelectorAll d s
      | Some (El e) \<Rightarrow> [e])"

text \<open>
  \<open>matchSelector\<close> against a section's (string) selector; the \<open>SyntaxError\<close> of
  \<open>matches\<close> is not caught.
\<close>

definition matchSelector :: "dom \<Rightarrow> elem option \<Rightarrow> string option \<Rightarrow> js_error + bool" where
  "matchSelector d elem selector =
     (case elem of
        None \<Rightarrow> Inr False
      | Some e \<Rightarrow> (case selector of None \<Rightarrow> Inr False | Some s \<Rightarrow> matches d e s))"

text \<open>
  \<open>dispatch\<close>: \<open>dispatchEvent\<close> returns false exactly when the event is cancelable and a
  listener prevented it.
\<close>

definition dispatch ::
  "dom \<Rightarrow> world \<Rightarrow> elem \<Rightarrow> event_name \<Rightarrow> event_detail \<Rightarrow> bool \<Rightarrow> bool \<times> world" where
  "dispatch d w elem name details cancelable =
     (\<not> (cancelable \<and> prevented d elem name details),
      w \<lparr> dispatched := dispatched w @ [(elem, name, details)] \<rparr>)"

definition no_detail :: event_detail where
  "no_detail = \<lparr> ed_direction = None, ed_id = None, ed_nextId = None, ed_nextElement = None,
     ed_previousElement = None, ed_native = None, ed_cause = None \<rparr>"

subsection \<open>Private functions\<close>

definition obj_has :: "'v js_object \<Rightarrow> string \<Rightarrow> bool" where
  "obj_has obj k = (k \<in> set (obj_keys obj))"

text \<open>
  \<open>generateId\<close>: the \<open>while (true)\<close> loop that increments \<open>_idPool\<close> until
  \<open>_sections[id]\<close> is undefined, that is until the id is none of the keys \<open>taken\<close> by the
  registry and by \<open>Object.prototype\<close>.  It returns the id and the new \<open>_idPool\<close>.
\<close>

function generateId_loop :: "string \<Rightarrow> string list \<Rightarrow> nat \<Rightarrow> string \<times> nat" where
  "generateId_loop prefix taken pool =
     (let pool' = pool + 1; ident = prefix @ dec pool'
      in if ident \<in> set taken then generateId_loop prefix taken pool' else (ident, pool'))"
  by pat_completeness auto

lemma digit_of_char_of: "k < 10 \<Longrightarrow> digit_of (char_of (48 + k)) = int k"
proof -
  assume k: "k < 10"
  have "(of_char (char_of (48 + k)) :: int) = int (of_char (char_of (48 + k)))"
    by (simp only: of_nat_of_char)
  also have "\<dots> = int (48 + k)" using k by (simp add: of_char_of)
  finally show ?thesis by (simp add: digit_of_def)
qed

lemma parse_int_snoc: "parse_int (xs @ [c]) = parse_int xs * 10 + digit_of c"
  by (simp add: parse_int_def)

lemma parse_int_dec: "parse_int (dec n) = int n"
proof (induction n rule: dec.induct)
  case (1 n)
  show ?case
  proof (cases "n < 10")
    case True
    then show ?thesis
      by (subst dec.simps) (simp add: parse_int_def digit_of_char_of)
  next
    case False
    then have "parse_int (dec n) = parse_int (dec (n div 10)) * 10 + digit_of (char_of (48 + n mod 10))"
      by (subst dec.simps) (simp add: parse_int_snoc)
    also have "\<dots> = int (n div 10) * 10 + int (n mod 10)"
      using "1.IH" [OF False] by (simp add: digit_of_char_of)
    also have "\<dots> = int n" by (simp add: zdiv_int zmod_int)
    finally show ?thesis .
  qed
qed

lemma inj_dec: "inj dec"
  by (rule inj_on_inverseI [of _ "\<lambda>s. nat (parse_int s)"]) (simp add: parse_int_dec)

lemma finite_generated_ids: "finite {n. P n \<and> prefix @ dec n \<in> set ks}"
proof -
  have "inj (\<lambda>n. prefix @ dec n)"
    using inj_dec by (auto simp: inj_on_def)
  then have "finite ((\<lambda>n. prefix @ dec n) -` set ks)"
    by (intro finite_vimageI) simp_all
  then show ?thesis
    by (rule rev_finite_subset) auto
qed

termination generateId_loop
proof (relation "measure (\<lambda>(prefix, taken, pool).
    card {n. pool < n \<and> prefix @ dec n \<in> set taken})")
  show "wf (measure (\<lambda>(prefix, taken, pool).
    card {n. pool < n \<and> prefix @ dec n \<in> set taken}))" by simp
next
  fix prefix :: string and taken :: "string list" and pool x :: nat and xa :: string
  assume x: "x = pool + 1" and "xa = prefix @ dec x" and "xa \<in> set taken"
  then have mem: "prefix @ dec (pool + 1) \<in> set taken" by simp
  have "{n. pool + 1 < n \<and> prefix @ dec n \<in> set taken}
          \<subset> {n. pool < n \<and> prefix @ dec n \<in> set taken}"
    using mem by auto
  then have "card {n. pool + 1 < n \<and> prefix @ dec n \<in> set taken}
          < card {n. pool < n \<and> prefix @ dec n \<in> set taken}"
    by (intro psubset_card_mono finite_generated_ids)
  then show "((prefix, taken, x), (prefix, taken, pool)) \<in> measure (\<lambda>(prefix, taken, pool).
    card {n. pool < n \<and> prefix @ dec n \<in> set taken})"
    using x by simp
qed

declare generateId_loop.simps [simp del]

text \<open>\<open>!sectionId\<close> holds for \<open>undefined\<close> and for the empty string.\<close>

definition truthy_id :: "string option \<Rightarrow> string option" where
  "truthy_id sectionId =
     (case sectionId of None \<Rightarrow> None | Some s \<Rightarrow> if s = [] then None else Some s)"

text \<open>The property key that an id denotes: \<open>undefined\<close> is the key \<open>"undefined"\<close>.\<close>

definition key_of :: "string option \<Rightarrow> string" where
  "key_of sectionId = (case sectionId of None \<Rightarrow> ''undefined'' | Some s \<Rightarrow> s)"

text \<open>
  \<open>isNavigable\<close>.  Only the check of the section's selector, made when
  \<open>verifySectionSelector\<close> is set, can throw.
\<close>

definition isNavigable ::
  "dom \<Rightarrow> world \<Rightarrow> elem option \<Rightarrow> string option \<Rightarrow> bool \<Rightarrow> js_error + bool" where
  "isNavigable d w elem sectionId verifySectionSelector =
     (case elem of
        None \<Rightarrow> Inr False
      | Some e \<Rightarrow>
          (case truthy_id sectionId of
             None \<Rightarrow> Inr False
           | Some sid \<Rightarrow>
               (case section_at w sid of
                  None \<Rightarrow> Inr False
                | Some sec \<Rightarrow>
                    if sc_disabled sec = Some True then Inr False
                    else if (offsetWidth d e \<le> 0 \<and> offsetHeight d e \<le> 0)
                            \<or> hasAttribute_disabled d e then Inr False
                    else obind (if verifySectionSelector
                                then matchSelector d (Some e) (sc_selector sec)
                                else Inr True)
                           (\<lambda>matched.
                              if \<not> matched then Inr False
                              else (case sc_navigableFilter sec of
                                      Some navigableFilter \<Rightarrow> Inr (navigableFilter e sid)
                                    | None \<Rightarrow>
                                        (case sc_navigableFilter (globalConfig w) of
                                           Some navigableFilter \<Rightarrow> Inr (navigableFilter e sid)
                                         | None \<Rightarrow> Inr True))))))"

text \<open>
  \<open>getSectionId\<close>: the \<open>for ... in\<close> loop over the registry's own keys, returning at the
  first hit, or throwing at the first section that is not disabled and whose selector
  \<open>matches\<close> rejects.
\<close>

fun getSectionId_loop ::
  "dom \<Rightarrow> elem \<Rightarrow> section_config js_object \<Rightarrow> js_error + string option" where
  "getSectionId_loop d elem [] = Inr None"
| "getSectionId_loop d elem ((ident, sec) # rest) =
     (if sc_disabled sec = Some True then getSectionId_loop d elem rest
      else obind (matchSelector d (Some elem) (sc_selector sec))
             (\<lambda>matched. if matched then Inr (Some ident) else getSectionId_loop d elem rest))"

definition getSectionId :: "dom \<Rightarrow> world \<Rightarrow> elem \<Rightarrow> js_error + string option" where
  "getSectionId d w elem = getSectionId_loop d elem (sections w)"

text \<open>
  The navigable elements of a section \<open>sec\<close> known as \<open>sectionId\<close>:
  \<open>parseSelector(selector).filter(elem => isNavigable(elem, sectionId))\<close>, which does not
  verify the selector and so does not throw.
\<close>

definition navigableElements :: "dom \<Rightarrow> world \<Rightarrow> string \<Rightarrow> section_config \<Rightarrow> elem list" where
  "navigableElements d w sectionId sec =
     filter (\<lambda>elem. isNavigable d w (Some elem) (Some sectionId) False = Inr True)
       (parseSelector d (map_option Sel (sc_selector sec)))"

definition getSectionNavigableElements :: "dom \<Rightarrow> world \<Rightarrow> string \<Rightarrow> js_error + elem list" where
  "getSectionNavigableElements d w sectionId =
     (case section_at w sectionId of
        None \<Rightarrow> Inl TypeError
      | Some sec \<Rightarrow> Inr (navigableElements d w sectionId sec))"

definition getSectionDefaultElement :: "dom \<Rightarrow> world \<Rightarrow> string \<Rightarrow> js_error + elem option" where
  "getSectionDefaultElement d w sectionId =
     (case section_at w sectionId of
        None \<Rightarrow> Inl TypeError
      | Some sec \<Rightarrow>
          find_first (\<lambda>elem. isNavigable d w (Some elem) (Some sectionId) True)
            (parseSelector d (sc_defaultElement sec)))"

definition getSectionLastFocusedElement ::
  "dom \<Rightarrow> world \<Rightarrow> string \<Rightarrow> js_error + elem option" where
  "getSectionLastFocusedElement d w sectionId =
     (case section_at w sectionId of
        None \<Rightarrow> Inl TypeError
      | Some sec \<Rightarrow>
          obind (isNavigable d w (sc_lastFocusedElement sec) (Some sectionId) True)
            (\<lambda>navigable. Inr (if navigable then sc_lastFocusedElement sec else None)))"

text \<open>
  \<open>focusChanged\<close>: with no section id the element's section is looked up, which may
  throw; the write to \<open>_sections[sectionId]\<close> is a \<open>TypeError\<close> when no such section
  exists.
\<close>

definition focusChanged ::
  "dom \<Rightarrow> elem \<Rightarrow> string option \<Rightarrow> world \<Rightarrow> (js_error + unit) \<times> world" where
  "focusChanged d elem sectionId w =
     attempt (case truthy_id sectionId of
                None \<Rightarrow> getSectionId d w elem
              | Some s \<Rightarrow> Inr (Some s)) w
       (\<lambda>sectionId'.
          case truthy_id sectionId' of
            None \<Rightarrow> (Inr (), w)
          | Some sid \<Rightarrow>
              attempt (write_section sid (\<lambda>sec. sec \<lparr> sc_lastFocusedElement := Some elem \<rparr>) w) w
                (\<lambda>w'. (Inr (), w' \<lparr> lastSectionId := sid \<rparr>)))"

text \<open>
  \<open>silentFocus\<close> inside \<open>focusElement\<close>: blur the focused element, focus \<open>elem\<close>, update
  the bookkeeping.  \<open>blur()\<close> leaves the body focused and \<open>focus()\<close> focuses the element.
\<close>

definition silentFocus ::
  "dom \<Rightarrow> elem \<Rightarrow> string option \<Rightarrow> world \<Rightarrow> (js_error + unit) \<times> world" where
  "silentFocus d elem sectionId w = focusChanged d elem sectionId (w \<lparr> activeElement := Some elem \<rparr>)"

text \<open>The details of the two cancelable events of \<open>focusElement\<close>.\<close>

definition willUnfocusDetail ::
  "elem \<Rightarrow> string option \<Rightarrow> direction option \<Rightarrow> event_detail" where
  "willUnfocusDetail elem sectionId direction =
     no_detail \<lparr> ed_nextElement := Some elem, ed_nextId := sectionId,
                 ed_direction := direction, ed_native := Some False \<rparr>"

definition focusDetail ::
  "elem option \<Rightarrow> string option \<Rightarrow> direction option \<Rightarrow> event_detail" where
  "focusDetail currentFocusedElement sectionId direction =
     no_detail \<lparr> ed_previousElement := currentFocusedElement, ed_id := sectionId,
                 ed_direction := direction, ed_native := Some False \<rparr>"

text \<open>The second stage of \<open>focusElement\<close>: \<open>willfocus\<close>, then the focus and its bookkeeping.\<close>

definition focusElement_willfocus ::
  "dom \<Rightarrow> elem \<Rightarrow> string option \<Rightarrow> direction option \<Rightarrow> elem option \<Rightarrow> world \<Rightarrow>
     (js_error + bool) \<times> world" where
  "focusElement_willfocus d elem sectionId direction currentFocusedElement w =
     (let (ok, w1) = dispatch d w elem WillFocus
                       (focusDetail currentFocusedElement sectionId direction) True
      in if \<not> ok then (Inr False, w1 \<lparr> duringFocusChange := False \<rparr>)
         else (let w2 = w1 \<lparr> activeElement := Some elem \<rparr>;
                   (u, w3) = dispatch d w2 elem Focused
                               (focusDetail currentFocusedElement sectionId direction) False;
                   w4 = w3 \<lparr> duringFocusChange := False \<rparr>
               in and_then (focusChanged d elem sectionId w4) (\<lambda>u w5. (Inr True, w5))))"

text \<open>
  \<open>focusElement\<close>.  An exception of \<open>focusChanged\<close> in the silent branches leaves
  \<open>_duringFocusChange\<close> set.
\<close>

definition focusElement ::
  "dom \<Rightarrow> elem option \<Rightarrow> string option \<Rightarrow> direction option \<Rightarrow> world \<Rightarrow>
     (js_error + bool) \<times> world" where
  "focusElement d elem' sectionId direction w =
     (case elem' of
        None \<Rightarrow> (Inr False, w)
      | Some elem \<Rightarrow>
          (let currentFocusedElement = activeElement w
           in if duringFocusChange w
              then and_then (silentFocus d elem sectionId w) (\<lambda>u w'. (Inr True, w'))
              else (let w1 = w \<lparr> duringFocusChange := True \<rparr>
                    in if pause w1
                       then and_then (silentFocus d elem sectionId w1)
                              (\<lambda>u w'. (Inr True, w' \<lparr> duringFocusChange := False \<rparr>))
                       else (case currentFocusedElement of
                               None \<Rightarrow>
                                 focusElement_willfocus d elem sectionId direction
                                   currentFocusedElement w1
                             | Some cur \<Rightarrow>
                                 (let (ok, w2) = dispatch d w1 cur WillUnfocus
                                                   (willUnfocusDetail elem sectionId direction) True
                                  in if \<not> ok then (Inr False, w2 \<lparr> duringFocusChange := False \<rparr>)
                                     else (let w3 = w2 \<lparr> activeElement := None \<rparr>;
                                               (u, w4) = dispatch d w3 cur Unfocused
                                                           (willUnfocusDetail elem sectionId direction)
                                                           False
                                           in focusElement_willfocus d elem sectionId direction
                                                currentFocusedElement w4))))))"

text \<open>\<open>addRange\<close> inside \<open>focusSection\<close>.\<close>

definition addRange :: "world \<Rightarrow> string list \<Rightarrow> string \<Rightarrow> string list" where
  "addRange w rng ident =
     (if ident \<noteq> [] \<and> ident \<notin> set rng \<and>
         (case section_at w ident of
            None \<Rightarrow> False
          | Some sec \<Rightarrow> sc_disabled sec \<noteq> Some True)
      then rng @ [ident] else rng)"

text \<open>\<open>a || b\<close> for two lookups that may throw: \<open>b\<close> is evaluated only when \<open>a\<close> is null.\<close>

definition or_try :: "js_error + 'a option \<Rightarrow> js_error + 'a option \<Rightarrow> js_error + 'a option" where
  "or_try a b = obind a (\<lambda>v. case v of Some x \<Rightarrow> Inr (Some x) | None \<Rightarrow> b)"

text \<open>The element that \<open>focusSection\<close> picks for a section: \<open>next\<close> in the callback.\<close>

definition section_entry :: "dom \<Rightarrow> world \<Rightarrow> string \<Rightarrow> js_error + elem option" where
  "section_entry d w ident =
     (case section_at w ident of
        None \<Rightarrow> Inl TypeError
      | Some sec \<Rightarrow>
          (let first = obind (getSectionNavigableElements d w ident)
                         (\<lambda>l. Inr (case l of [] \<Rightarrow> None | e # _ \<Rightarrow> Some e))
           in if sc_enterTo sec = Some LastFocused
              then or_try (getSectionLastFocusedElement d w ident)
                     (or_try (getSectionDefaultElement d w ident) first)
              else or_try (getSectionDefaultElement d w ident)
                     (or_try (getSectionLastFocusedElement d w ident) first)))"

text \<open>
  The callback of \<open>range.forEach\<close> in \<open>focusSection\<close>.  Its \<open>return focusElement(next, id)\<close>
  returns from the callback only: \<open>forEach\<close> drops the value and goes on to the next id.
\<close>

definition focusSection_each :: "dom \<Rightarrow> string \<Rightarrow> world \<Rightarrow> (js_error + unit) \<times> world" where
  "focusSection_each d ident w =
     attempt (section_entry d w ident) w
       (\<lambda>next. case next of
                 None \<Rightarrow> (Inr (), w)
               | Some n \<Rightarrow> and_then (focusElement d (Some n) (Some ident) None w)
                             (\<lambda>r w'. (Inr (), w')))"

definition focusSection :: "dom \<Rightarrow> string option \<Rightarrow> world \<Rightarrow> (js_error + bool) \<times> world" where
  "focusSection d sectionId w =
     (let rng =
            (case truthy_id sectionId of
               Some sid \<Rightarrow> addRange w [] sid
             | None \<Rightarrow>
                 foldl (addRange w)
                   (addRange w (addRange w [] (defaultSectionId w)) (lastSectionId w))
                   (obj_keys (sections w)))
      in and_then (forEach (focusSection_each d) rng w) (\<lambda>u w'. (Inr False, w')))"

definition focusExtendedSelector ::
  "dom \<Rightarrow> string \<Rightarrow> direction option \<Rightarrow> world \<Rightarrow> (js_error + bool) \<times> world" where
  "focusExtendedSelector d selector direction w =
     (if selector \<noteq> [] \<and> hd selector = CHR ''@'' then
        (if length selector = 1 then focusSection d None w
         else focusSection d (Some (tl selector)) w)
      else (case parseSelector d (Some (Sel selector)) of
              [] \<Rightarrow> (Inr False, w)
            | next # _ \<Rightarrow>
                attempt (getSectionId d w next) w
                  (\<lambda>nextSectionId.
                     attempt (isNavigable d w (Some next) nextSectionId False) w
                       (\<lambda>navigable.
                          if navigable then focusElement d (Some next) nextSectionId direction w
                          else (Inr False, w)))))"

definition fireNavigateFailed :: "dom \<Rightarrow> elem \<Rightarrow> direction \<Rightarrow> world \<Rightarrow> world" where
  "fireNavigateFailed d elem direction w =
     snd (dispatch d w elem NavigateFailed (no_detail \<lparr> ed_direction := Some direction \<rparr>) False)"

definition leaveFor_entry :: "leave_for \<Rightarrow> direction \<Rightarrow> selector option" where
  "leaveFor_entry lf direction =
     (case direction of Left \<Rightarrow> lf_left lf | Up \<Rightarrow> lf_up lf
                      | Right \<Rightarrow> lf_right lf | Down \<Rightarrow> lf_down lf)"

text \<open>The result of \<open>gotoLeaveFor\<close>: \<open>null\<close>, or a boolean.\<close>

datatype leave_result = LNull | LBool bool

text \<open>
  \<open>gotoLeaveFor\<close>.  The guard \<open>if (leaveFor)\<close> is a truthiness test, which the empty
  string fails, so the branch \<open>leaveFor === ''\<close> under it is written out but never taken.
\<close>

definition gotoLeaveFor ::
  "dom \<Rightarrow> string \<Rightarrow> direction \<Rightarrow> world \<Rightarrow> (js_error + leave_result) \<times> world" where
  "gotoLeaveFor d sectionId direction w =
     (let leaveFor = (case section_at w sectionId of
                        None \<Rightarrow> None
                      | Some sec \<Rightarrow>
                          (case sc_leaveFor sec of
                             None \<Rightarrow> None
                           | Some lf \<Rightarrow> leaveFor_entry lf direction))
      in case leaveFor of
           None \<Rightarrow> (Inr (LBool False), w)
         | Some (Sel s) \<Rightarrow>
             if s \<noteq> [] then
               (if s = [] then (Inr LNull, w)
                else and_then (focusExtendedSelector d s (Some direction) w)
                       (\<lambda>r w'. (Inr (LBool r), w')))
             else (Inr (LBool False), w)
         | Some (El e) \<Rightarrow>
             attempt (getSectionId d w e) w
               (\<lambda>nextSectionId.
                  attempt (isNavigable d w (Some e) nextSectionId False) w
                    (\<lambda>navigable.
                       if navigable
                       then and_then (focusElement d (Some e) nextSectionId (Some direction) w)
                              (\<lambda>r w'. (Inr (LBool r), w'))
                       else (Inr (LBool False), w))))"

text \<open>
  The candidate search of \<open>focusNext\<close> by restrict mode, given the navigable elements of
  the current section and of all sections.  The current section's elements are read from
  the object that \<open>focusNext\<close> fills for the registry's own keys; for any other id the
  read is not an array and \<open>exclude\<close> throws a \<open>TypeError\<close>.
\<close>

definition restricted_navigate ::
  "dom \<Rightarrow> direction \<Rightarrow> elem \<Rightarrow> elem list option \<Rightarrow> elem list \<Rightarrow> section_config \<Rightarrow>
     js_error + elem option" where
  "restricted_navigate d direction currentFocusedElement currentSectionNavigableElements
       allNavigableElements config =
     (if sc_restrict config = Some SelfOnly \<or> sc_restrict config = Some SelfFirst then
        (case currentSectionNavigableElements of
           None \<Rightarrow> Inl TypeError
         | Some own \<Rightarrow>
             (let next = navigate d currentFocusedElement direction
                           (exclude own [currentFocusedElement]) config
              in if next = None \<and> sc_restrict config = Some SelfFirst
                 then Inr (navigate d currentFocusedElement direction
                             (exclude allNavigableElements own) config)
                 else Inr next))
      else Inr (navigate d currentFocusedElement direction
                  (exclude allNavigableElements [currentFocusedElement]) config))"

text \<open>
  The \<open>switch\<close> on the destination section's \<open>enterTo\<close>.  With no destination section the
  key read is \<open>"undefined"\<close>, and neither lookup finds an element navigable in no section.
\<close>

definition enterToElement :: "dom \<Rightarrow> world \<Rightarrow> string option \<Rightarrow> js_error + elem option" where
  "enterToElement d w nextSectionId =
     (case section_at w (key_of nextSectionId) of
        None \<Rightarrow> Inl TypeError
      | Some sec \<Rightarrow>
          (case nextSectionId of
             None \<Rightarrow> Inr None
           | Some nsid \<Rightarrow>
               if sc_enterTo sec = Some LastFocused
               then or_try (getSectionLastFocusedElement d w nsid)
                      (getSectionDefaultElement d w nsid)
               else if sc_enterTo sec = Some DefaultElement
               then getSectionDefaultElement d w nsid
               else Inr None))"

text \<open>
  The part of \<open>focusNext\<close> under \<open>if (next)\<close>: record the move in the current section's
  \<open>previous\<close>, find the winner's section, try \<open>leaveFor\<close> when it is another section, and
  focus the winner or the element its section is entered at.
\<close>

definition focusNext_found ::
  "dom \<Rightarrow> direction \<Rightarrow> elem \<Rightarrow> string \<Rightarrow> elem \<Rightarrow> world \<Rightarrow> (js_error + bool) \<times> world" where
  "focusNext_found d direction currentFocusedElement currentSectionId next w =
     attempt (write_section currentSectionId
                (\<lambda>sec. sec \<lparr> sc_previous := Some
                               \<lparr> pf_target = currentFocusedElement, pf_destination = next,
                                 pf_reverse = REVERSE direction \<rparr> \<rparr>) w) w
       (\<lambda>w1.
          attempt (getSectionId d w1 next) w1
            (\<lambda>nextSectionId.
               if Some currentSectionId \<noteq> nextSectionId then
                 and_then (gotoLeaveFor d currentSectionId direction w1)
                   (\<lambda>result w2.
                      case result of
                        LBool True \<Rightarrow> (Inr True, w2)
                      | LNull \<Rightarrow>
                          (Inr False, fireNavigateFailed d currentFocusedElement direction w2)
                      | LBool False \<Rightarrow>
                          attempt (enterToElement d w2 nextSectionId) w2
                            (\<lambda>enterTo.
                               focusElement d
                                 (Some (case enterTo of Some e \<Rightarrow> e | None \<Rightarrow> next))
                                 nextSectionId (Some direction) w2))
               else focusElement d (Some next) nextSectionId (Some direction) w1))"

text \<open>\<open>focusNext\<close>.\<close>

definition focusNext ::
  "dom \<Rightarrow> direction \<Rightarrow> elem \<Rightarrow> string \<Rightarrow> world \<Rightarrow> (js_error + bool) \<times> world" where
  "focusNext d direction currentFocusedElement currentSectionId w =
     (case getAttribute_data_sn d currentFocusedElement direction of
        Some extSelector \<Rightarrow>
          if extSelector = [] then
            (Inr False, fireNavigateFailed d currentFocusedElement direction w)
          else and_then (focusExtendedSelector d extSelector (Some direction) w)
                 (\<lambda>r w'. if \<not> r
                          then (Inr False, fireNavigateFailed d currentFocusedElement direction w')
                          else (Inr True, w'))
      | None \<Rightarrow>
          (let allNavigableElements =
                 concat (map (\<lambda>(ident, sec). navigableElements d w ident sec) (sections w));
               config = extend (globalConfig w)
                          (case section_at w currentSectionId of
                             None \<Rightarrow> empty_section
                           | Some sec \<Rightarrow> sec)
           in attempt (restricted_navigate d direction currentFocusedElement
                         (map_option (navigableElements d w currentSectionId)
                            (obj_get (sections w) currentSectionId))
                         allNavigableElements config) w
                (\<lambda>next.
                   case next of
                     Some n \<Rightarrow> focusNext_found d direction currentFocusedElement
                                 currentSectionId n w
                   | None \<Rightarrow>
                       and_then (gotoLeaveFor d currentSectionId direction w)
                         (\<lambda>result w1.
                            if result = LBool True then (Inr True, w1)
                            else (Inr False,
                                  fireNavigateFailed d currentFocusedElement direction w1)))))"

subsection \<open>Public functions\<close>

definition is_given :: "'a field \<Rightarrow> bool" where
  "is_given f = (case f of Absent \<Rightarrow> False | Given v \<Rightarrow> True)"

definition has_recognized_key :: "config \<Rightarrow> bool" where
  "has_recognized_key c =
     (is_given (cf_selector c) \<or> is_given (cf_straightOnly c) \<or>
      is_given (cf_straightOverlapThreshold c) \<or> is_given (cf_rememberSource c) \<or>
      is_given (cf_disabled c) \<or> is_given (cf_defaultElement c) \<or> is_given (cf_enterTo c) \<or>
      is_given (cf_leaveFor c) \<or> is_given (cf_restrict c) \<or>
      is_given (cf_tabIndexIgnoreList c) \<or> is_given (cf_navigableFilter c) \<or>
      is_given (cf_sectionPrefix c) \<or> is_given (cf_eventPrefix c))"

text \<open>\<open>_sections[id][key] = value\<close> followed by the removal of the undefined items.\<close>

definition assign :: "'a field \<Rightarrow> 'a option \<Rightarrow> 'a option" where
  "assign f old = (case f of Absent \<Rightarrow> old | Given v \<Rightarrow> v)"

text \<open>\<open>globalConfig[key] = value\<close>, made only for a value other than \<open>undefined\<close>.\<close>

definition assign_global :: "'a field \<Rightarrow> 'a option \<Rightarrow> 'a option" where
  "assign_global f old =
     (case f of Absent \<Rightarrow> old | Given None \<Rightarrow> old | Given (Some v) \<Rightarrow> Some v)"

definition set_section_props :: "config \<Rightarrow> section_config \<Rightarrow> section_config" where
  "set_section_props c sec = sec \<lparr>
     sc_selector := assign (cf_selector c) (sc_selector sec),
     sc_straightOnly := assign (cf_straightOnly c) (sc_straightOnly sec),
     sc_straightOverlapThreshold :=
       assign (cf_straightOverlapThreshold c) (sc_straightOverlapThreshold sec),
     sc_rememberSource := assign (cf_rememberSource c) (sc_rememberSource sec),
     sc_disabled := assign (cf_disabled c) (sc_disabled sec),
     sc_defaultElement := assign (cf_defaultElement c) (sc_defaultElement sec),
     sc_enterTo := assign (cf_enterTo c) (sc_enterTo sec),
     sc_leaveFor := assign (cf_leaveFor c) (sc_leaveFor sec),
     sc_restrict := assign (cf_restrict c) (sc_restrict sec),
     sc_tabIndexIgnoreList := assign (cf_tabIndexIgnoreList c) (sc_tabIndexIgnoreList sec),
     sc_navigableFilter := assign (cf_navigableFilter c) (sc_navigableFilter sec),
     sc_sectionPrefix := assign (cf_sectionPrefix c) (sc_sectionPrefix sec),
     sc_eventPrefix := assign (cf_eventPrefix c) (sc_eventPrefix sec) \<rparr>"

definition set_global_props :: "config \<Rightarrow> section_config \<Rightarrow> section_config" where
  "set_global_props c g = g \<lparr>
     sc_selector := assign_global (cf_selector c) (sc_selector g),
     sc_straightOnly := assign_global (cf_straightOnly c) (sc_straightOnly g),
     sc_straightOverlapThreshold :=
       assign_global (cf_straightOverlapThreshold c) (sc_straightOverlapThreshold g),
     sc_rememberSource := assign_global (cf_rememberSource c) (sc_rememberSource g),
     sc_disabled := assign_global (cf_disabled c) (sc_disabled g),
     sc_defaultElement := assign_global (cf_defaultElement c) (sc_defaultElement g),
     sc_enterTo := assign_global (cf_enterTo c) (sc_enterTo g),
     sc_leaveFor := assign_global (cf_leaveFor c) (sc_leaveFor g),
     sc_restrict := assign_global (cf_restrict c) (sc_restrict g),
     sc_tabIndexIgnoreList := assign_global (cf_tabIndexIgnoreList c) (sc_tabIndexIgnoreList g),
     sc_navigableFilter := assign_global (cf_navigableFilter c) (sc_navigableFilter g),
     sc_sectionPrefix := assign_global (cf_sectionPrefix c) (sc_sectionPrefix g),
     sc_eventPrefix := assign_global (cf_eventPrefix c) (sc_eventPrefix g) \<rparr>"

definition SN_init :: "world \<Rightarrow> world" where
  "SN_init w = (if \<not> ready w then w \<lparr> ready := True \<rparr> else w)"

definition SN_clear :: "world \<Rightarrow> world" where
  "SN_clear w = w \<lparr> sections := [], sectionCount := 0, defaultSectionId := [],
                    lastSectionId := [], duringFocusChange := False \<rparr>"

definition SN_uninit :: "world \<Rightarrow> world" where
  "SN_uninit w = (SN_clear w) \<lparr> idPool := 0, ready := False \<rparr>"

text \<open>
  \<open>set\<close>.  With an id, the first recognised key writes to \<open>_sections[config.id]\<close>, a
  \<open>TypeError\<close> when that is undefined; with no recognised key the loop writes nothing.
  The closing \<open>_sections[config.id] = extend({}, _sections[config.id])\<close> stores a copy of
  what \<open>_sections[config.id]\<close> reads, or an empty object when that is undefined.
\<close>

definition SN_set :: "config \<Rightarrow> world \<Rightarrow> (js_error + unit) \<times> world" where
  "SN_set c w =
     (case truthy_id (cf_id c) of
        Some ident \<Rightarrow>
          attempt (if has_recognized_key c then write_section ident (set_section_props c) w
                   else Inr w) w
            (\<lambda>w1. (Inr (),
                    store_section ident
                      (case section_at w1 ident of None \<Rightarrow> empty_section | Some sec \<Rightarrow> sec) w1))
      | None \<Rightarrow>
          (Inr (),
           w \<lparr> globalConfig := set_global_props c (globalConfig w),
               ID_POOL_PREFIX := (case cf_sectionPrefix c of
                                    Given (Some v) \<Rightarrow> v | _ \<Rightarrow> ID_POOL_PREFIX w),
               EVENT_PREFIX := (case cf_eventPrefix c of
                                  Given (Some v) \<Rightarrow> v | _ \<Rightarrow> EVENT_PREFIX w) \<rparr>))"

definition generateId :: "world \<Rightarrow> string \<times> world" where
  "generateId w =
     (let (ident, pool) = generateId_loop (ID_POOL_PREFIX w)
                            (obj_keys (sections w) @ obj_keys (inherited w)) (idPool w)
      in (ident, w \<lparr> idPool := pool \<rparr>))"

definition SN_add :: "config \<Rightarrow> world \<Rightarrow> (js_error + string) \<times> world" where
  "SN_add c w =
     (let (ident, w1) = (case truthy_id (cf_id c) of
                           None \<Rightarrow> generateId w
                         | Some i \<Rightarrow> (i, w))
      in if section_at w1 ident \<noteq> None then (Inl (SectionExists ident), w1)
         else and_then (SN_set (c \<lparr> cf_id := Some ident \<rparr>)
                          ((store_section ident empty_section w1)
                             \<lparr> sectionCount := sectionCount w1 + 1 \<rparr>))
                (\<lambda>u w2. (Inr ident, w2)))"

text \<open>
  \<open>remove\<close>: \<open>_sections[id] = undefined; _sections = extend({}, _sections)\<close> drops the key
  if the registry owns it, and the count is decremented whenever \<open>_sections[id]\<close> was
  truthy.
\<close>

definition SN_remove :: "string \<Rightarrow> world \<Rightarrow> (js_error + bool) \<times> world" where
  "SN_remove ident w =
     (if ident = [] then (Inl MissingId, w)
      else if section_at w ident \<noteq> None then
        (Inr True, w \<lparr> sections := obj_delete ident (sections w),
                       sectionCount := sectionCount w - 1,
                       lastSectionId := (if lastSectionId w = ident then []
                                         else lastSectionId w) \<rparr>)
      else (Inr False, w))"

definition SN_disable :: "string \<Rightarrow> world \<Rightarrow> bool \<times> world" where
  "SN_disable ident w =
     (case write_section ident (\<lambda>sec. sec \<lparr> sc_disabled := Some True \<rparr>) w of
        Inr w' \<Rightarrow> (True, w')
      | Inl e \<Rightarrow> (False, w))"

definition SN_enable :: "string \<Rightarrow> world \<Rightarrow> bool \<times> world" where
  "SN_enable ident w =
     (case write_section ident (\<lambda>sec. sec \<lparr> sc_disabled := Some False \<rparr>) w of
        Inr w' \<Rightarrow> (True, w')
      | Inl e \<Rightarrow> (False, w))"

definition SN_pause :: "world \<Rightarrow> world" where
  "SN_pause w = w \<lparr> pause := True \<rparr>"

definition SN_resume :: "world \<Rightarrow> world" where
  "SN_resume w = w \<lparr> pause := False \<rparr>"

text \<open>The first argument of \<open>focus\<close>: omitted, a string, or an element.\<close>

datatype focus_target = NoTarget | TargetString string | TargetElement elem

text \<open>\<open>focus\<close>.  An exception skips the closing \<open>resume()\<close>.\<close>

definition SN_focus ::
  "dom \<Rightarrow> focus_target \<Rightarrow> bool \<Rightarrow> world \<Rightarrow> (js_error + bool) \<times> world" where
  "SN_focus d elem silent w =
     (let autoPause = (\<not> pause w \<and> silent);
          w1 = (if autoPause then SN_pause w else w)
      in and_then
           (case elem of
              NoTarget \<Rightarrow> focusSection d None w1
            | TargetString s \<Rightarrow>
                if s = [] then focusSection d None w1
                else if section_at w1 s \<noteq> None then focusSection d (Some s) w1
                else focusExtendedSelector d s None w1
            | TargetElement e \<Rightarrow>
                attempt (getSectionId d w1 e) w1
                  (\<lambda>nextSectionId.
                     attempt (isNavigable d w1 (Some e) nextSectionId False) w1
                       (\<lambda>navigable.
                          if navigable then focusElement d (Some e) nextSectionId None w1
                          else (Inr False, w1))))
           (\<lambda>result w2. (Inr result, if autoPause then SN_resume w2 else w2)))"

definition SN_move ::
  "dom \<Rightarrow> direction \<Rightarrow> string option \<Rightarrow> world \<Rightarrow> (js_error + bool) \<times> world" where
  "SN_move d direction selector w =
     (let elem = (case truthy_id selector of
                    Some s \<Rightarrow> (case parseSelector d (Some (Sel s)) of
                                 [] \<Rightarrow> None | e # _ \<Rightarrow> Some e)
                  | None \<Rightarrow> activeElement w)
      in case elem of
           None \<Rightarrow> (Inr False, w)
         | Some e \<Rightarrow>
             attempt (getSectionId d w e) w
               (\<lambda>sectionId'.
                  case truthy_id sectionId' of
                    None \<Rightarrow> (Inr False, w)
                  | Some sectionId \<Rightarrow>
                      (let (ok, w1) = dispatch d w e WillMove
                                        (no_detail \<lparr> ed_direction := Some direction,
                                           ed_id := Some sectionId, ed_cause := Some Api \<rparr>) True
                       in if \<not> ok then (Inr False, w1)
                          else focusNext d direction e sectionId w1)))"

definition SN_setDefaultSection :: "string \<Rightarrow> world \<Rightarrow> (js_error + unit) \<times> world" where
  "SN_setDefaultSection ident w =
     (if ident = [] then (Inr (), w \<lparr> defaultSectionId := [] \<rparr>)
      else if section_at w ident = None then (Inl (NoSuchSection ident), w)
      else (Inr (), w \<lparr> defaultSectionId := ident \<rparr>))"

subsection \<open>The state manager (state.ts)\<close>

definition map_has :: "(string \<times> 'v) list \<Rightarrow> string \<Rightarrow> bool" where
  "map_has m k = (k \<in> set (map fst m))"

definition map_set :: "string \<Rightarrow> 'v \<Rightarrow> (string \<times> 'v) list \<Rightarrow> (string \<times> 'v) list" where
  "map_set k v m =
     (if map_has m k then map (\<lambda>(k', v'). if k' = k then (k', v) else (k', v')) m
      else m @ [(k, v)])"

definition setSection :: "string \<Rightarrow> section_config \<Rightarrow> state_manager \<Rightarrow> state_manager" where
  "setSection ident c s =
     (let isNew = \<not> map_has (sm_sections s) ident;
          s1 = s \<lparr> sm_sections := map_set ident c (sm_sections s) \<rparr>
      in if isNew then s1 \<lparr> sm_sectionCount := sm_sectionCount s1 + 1 \<rparr> else s1)"

definition removeSection :: "string \<Rightarrow> state_manager \<Rightarrow> bool \<times> state_manager" where
  "removeSection ident s =
     (let existed = map_has (sm_sections s) ident;
          s1 = s \<lparr> sm_sections := filter (\<lambda>(k, v). k \<noteq> ident) (sm_sections s) \<rparr>
      in if existed then (existed, s1 \<lparr> sm_sectionCount := sm_sectionCount s1 - 1 \<rparr>)
         else (existed, s1))"

definition clearSections :: "state_manager \<Rightarrow> state_manager" where
  "clearSections s = s \<lparr> sm_sections := [], sm_sectionCount := 0, sm_defaultSectionId := [],
                         sm_lastSectionId := [] \<rparr>"


section \<open>Properties of the geometry\<close>

subsection \<open>The grid in the words of the specification\<close>

text \<open>
  The column (left / within / right) and row (above / within / below) of a candidate's
  centre relative to the target's spans, the home bucket \<open>row * 3 + col\<close>, and the
  corner-overlap rule that duplicates a corner candidate into an adjacent edge bucket.
\<close>

definition col_of :: "rect \<Rightarrow> rect \<Rightarrow> nat" where
  "col_of T r = (if c_x (r_center r) < r_left T then 0
                 else if c_x (r_center r) \<le> r_right T then 1 else 2)"

definition row_of :: "rect \<Rightarrow> rect \<Rightarrow> nat" where
  "row_of T r = (if c_y (r_center r) < r_top T then 0
                 else if c_y (r_center r) \<le> r_bottom T then 1 else 2)"

definition home_bucket :: "rect \<Rightarrow> rect \<Rightarrow> nat" where
  "home_bucket T r = row_of T r * 3 + col_of T r"

text \<open>
  The threshold lines of a target: the line a left-column corner candidate's right edge
  must reach to be duplicated, \<open>left + width * t\<close> in machine arithmetic, and likewise
  for the other three sides.
\<close>

definition left_line :: "rect \<Rightarrow> rat \<Rightarrow> rat" where
  "left_line T t = fl (r_left T + fl (r_width T * t))"

definition right_line :: "rect \<Rightarrow> rat \<Rightarrow> rat" where
  "right_line T t = fl (r_right T - fl (r_width T * t))"

definition top_line :: "rect \<Rightarrow> rat \<Rightarrow> rat" where
  "top_line T t = fl (r_top T + fl (r_height T * t))"

definition bottom_line :: "rect \<Rightarrow> rat \<Rightarrow> rat" where
  "bottom_line T t = fl (r_bottom T - fl (r_height T * t))"

lemmas line_defs = left_line_def right_line_def top_line_def bottom_line_def

definition duplicated_into :: "rect \<Rightarrow> rat \<Rightarrow> rect \<Rightarrow> nat \<Rightarrow> bool" where
  "duplicated_into T t r k =
     ((home_bucket T r = 0 \<and> k = 1 \<and> r_right r \<ge> left_line T t) \<or>
      (home_bucket T r = 0 \<and> k = 3 \<and> r_bottom r \<ge> top_line T t) \<or>
      (home_bucket T r = 2 \<and> k = 1 \<and> r_left r \<le> right_line T t) \<or>
      (home_bucket T r = 2 \<and> k = 5 \<and> r_bottom r \<ge> top_line T t) \<or>
      (home_bucket T r = 6 \<and> k = 7 \<and> r_right r \<ge> left_line T t) \<or>
      (home_bucket T r = 6 \<and> k = 3 \<and> r_top r \<le> bottom_line T t) \<or>
      (home_bucket T r = 8 \<and> k = 7 \<and> r_left r \<le> right_line T t) \<or>
      (home_bucket T r = 8 \<and> k = 5 \<and> r_top r \<le> bottom_line T t))"

definition placed_in :: "rect \<Rightarrow> rat \<Rightarrow> nat \<Rightarrow> rect \<Rightarrow> bool" where
  "placed_in T t k r = (home_bucket T r = k \<or> duplicated_into T t r k)"

subsection \<open>Each bucket is the candidates placed in it, in discovery order\<close>

lemma push_nth:
  "k < length gs \<Longrightarrow> push j v gs ! k = (if j = k then gs ! k @ [v] else gs ! k)"
  by (auto simp: push_def)

lemma length_push [simp]: "length (push j v gs) = length gs"
  by (simp add: push_def)

lemma length_checks [simp]:
  "length (check_left_edge T t g r gs) = length gs"
  "length (check_right_edge T t g r gs) = length gs"
  "length (check_top_edge T t g r gs) = length gs"
  "length (check_bottom_edge T t g r gs) = length gs"
  by (simp_all add: check_left_edge_def check_right_edge_def check_top_edge_def
      check_bottom_edge_def)

lemma length_partition_step [simp]: "length (partition_step T t gs r) = length gs"
  by (simp add: partition_step_def Let_def)

lemma home_bucket_range: "home_bucket T r \<in> {0, 1, 2, 3, 4, 5, 6, 7, 8}"
  by (simp add: home_bucket_def row_of_def col_of_def)

lemma partition_step_home:
  "partition_step T t gs r =
     (let h = home_bucket T r; g0 = push h r gs in
      if h \<in> {0, 2, 6, 8} then
        check_bottom_edge T t h r (check_top_edge T t h r
          (check_right_edge T t h r (check_left_edge T t h r g0)))
      else g0)"
  unfolding partition_step_def home_bucket_def row_of_def col_of_def Grid_defs Let_def
  by simp

lemma checks_nth:
  assumes "k < length gs"
  shows
  "check_left_edge T t g r gs ! k = gs ! k @
     (if r_left r \<le> right_line T t \<and> ((g = 2 \<and> k = 1) \<or> (g = 8 \<and> k = 7))
      then [r] else [])"
  "check_right_edge T t g r gs ! k = gs ! k @
     (if r_right r \<ge> left_line T t \<and> ((g = 0 \<and> k = 1) \<or> (g = 6 \<and> k = 7))
      then [r] else [])"
  "check_top_edge T t g r gs ! k = gs ! k @
     (if r_top r \<le> bottom_line T t \<and> ((g = 6 \<and> k = 3) \<or> (g = 8 \<and> k = 5))
      then [r] else [])"
  "check_bottom_edge T t g r gs ! k = gs ! k @
     (if r_bottom r \<ge> top_line T t \<and> ((g = 0 \<and> k = 3) \<or> (g = 2 \<and> k = 5))
      then [r] else [])"
  using assms
  by (simp_all add: check_left_edge_def check_right_edge_def check_top_edge_def
      check_bottom_edge_def push_nth Grid_defs line_defs)

lemma partition_step_nth:
  assumes "length gs = 9" "k < 9"
  shows "partition_step T t gs r ! k = gs ! k @ (if placed_in T t k r then [r] else [])"
proof -
  have k: "k < length gs" using assms by simp
  consider "home_bucket T r = 0" | "home_bucket T r = 2" | "home_bucket T r = 6"
    | "home_bucket T r = 8" | "home_bucket T r \<notin> {0, 2, 6, 8}" by auto
  then show ?thesis
  proof cases
    case 1 then show ?thesis using k
      by (simp add: partition_step_home Let_def checks_nth push_nth placed_in_def
          duplicated_into_def)
  next
    case 2 then show ?thesis using k
      by (simp add: partition_step_home Let_def checks_nth push_nth placed_in_def
          duplicated_into_def)
  next
    case 3 then show ?thesis using k
      by (simp add: partition_step_home Let_def checks_nth push_nth placed_in_def
          duplicated_into_def)
  next
    case 4 then show ?thesis using k
      by (simp add: partition_step_home Let_def checks_nth push_nth placed_in_def
          duplicated_into_def)
  next
    case 5 then show ?thesis using k
      by (auto simp add: partition_step_home Let_def push_nth placed_in_def
          duplicated_into_def)
  qed
qed

lemma foldl_partition_step_nth:
  "length gs = 9 \<Longrightarrow> k < 9 \<Longrightarrow>
   foldl (partition_step T t) gs rects ! k = gs ! k @ filter (placed_in T t k) rects"
  by (induction rects arbitrary: gs) (simp_all add: partition_step_nth)

lemma length_foldl_partition_step:
  "length (foldl (partition_step T t) gs rects) = length gs"
  by (induction rects arbitrary: gs) simp_all

lemma partition_grid_nth:
  "k < 9 \<Longrightarrow> partition_grid rects T t ! k = filter (placed_in T t k) rects"
  by (simp add: partition_grid_def foldl_partition_step_nth)

lemma length_partition_grid: "length (partition_grid rects T t) = 9"
  by (simp add: partition_grid_def length_foldl_partition_step)

lemma count_list_filter:
  "count_list (filter P xs) x = (if P x then count_list xs x else 0)"
  by (induction xs) auto

lemma duplicated_into_adjacent:
  "duplicated_into T t r k \<Longrightarrow>
   (home_bucket T r, k) \<in> {(0, 1), (0, 3), (2, 1), (2, 5), (6, 7), (6, 3), (8, 7), (8, 5)}"
  unfolding duplicated_into_def by auto

lemma home_bucket_center_only:
  "c_x (r_center r) = c_x (r_center r') \<Longrightarrow> c_y (r_center r) = c_y (r_center r') \<Longrightarrow>
   home_bucket T r = home_bucket T r'"
  by (simp add: home_bucket_def row_of_def col_of_def)

lemma boundary_ties_within:
  "r_left T \<le> r_right T \<Longrightarrow>
   c_x (r_center r) = r_left T \<or> c_x (r_center r) = r_right T \<Longrightarrow> col_of T r = 1"
  "r_top T \<le> r_bottom T \<Longrightarrow>
   c_y (r_center r) = r_top T \<or> c_y (r_center r) = r_bottom T \<Longrightarrow> row_of T r = 1"
  by (auto simp: col_of_def row_of_def)

lemma corner_duplicate_right:
  assumes "r \<in> set rects" "home_bucket T r = 2 \<or> home_bucket T r = 8"
  shows "(r \<in> set (partition_grid rects T t ! (home_bucket T r - 1))) = (r_left r \<le> right_line T t)"
proof -
  from assms(2) show ?thesis
  proof
    assume h: "home_bucket T r = 2"
    show ?thesis using assms(1)
      by (simp add: h partition_grid_nth placed_in_def duplicated_into_def)
  next
    assume h: "home_bucket T r = 8"
    show ?thesis using assms(1)
      by (simp add: h partition_grid_nth placed_in_def duplicated_into_def)
  qed
qed

lemma home_bucket_lt: "home_bucket T r < 9"
  using home_bucket_range [of T r] by auto

lemma home_bucket_count:
  "count_list (partition_grid rects T t ! home_bucket T r) r = count_list rects r"
  by (simp add: partition_grid_nth home_bucket_lt count_list_filter placed_in_def)

lemma other_bucket_is_duplicate:
  assumes "k < 9" "k \<noteq> home_bucket T r" "r \<in> set (partition_grid rects T t ! k)"
  shows "(home_bucket T r, k) \<in> {(0, 1), (0, 3), (2, 1), (2, 5), (6, 7), (6, 3), (8, 7), (8, 5)}"
proof -
  have "placed_in T t k r" using assms(1,3) by (simp add: partition_grid_nth)
  then have "duplicated_into T t r k" using assms(2) by (auto simp: placed_in_def)
  then show ?thesis by (rule duplicated_into_adjacent)
qed

lemma corner_duplicate_left:
  assumes "r \<in> set rects" "home_bucket T r = 0 \<or> home_bucket T r = 6"
  shows "(r \<in> set (partition_grid rects T t ! (home_bucket T r + 1))) = (left_line T t \<le> r_right r)"
proof -
  from assms(2) show ?thesis
  proof
    assume h: "home_bucket T r = 0"
    show ?thesis using assms(1)
      by (simp add: h partition_grid_nth placed_in_def duplicated_into_def)
  next
    assume h: "home_bucket T r = 6"
    show ?thesis using assms(1)
      by (simp add: h partition_grid_nth placed_in_def duplicated_into_def)
  qed
qed

lemma corner_duplicate_bottom:
  assumes "r \<in> set rects" "home_bucket T r = 6 \<or> home_bucket T r = 8"
  shows "(r \<in> set (partition_grid rects T t ! (home_bucket T r - 3))) = (r_top r \<le> bottom_line T t)"
proof -
  from assms(2) show ?thesis
  proof
    assume h: "home_bucket T r = 6"
    show ?thesis using assms(1)
      by (simp add: h partition_grid_nth placed_in_def duplicated_into_def)
  next
    assume h: "home_bucket T r = 8"
    show ?thesis using assms(1)
      by (simp add: h partition_grid_nth placed_in_def duplicated_into_def)
  qed
qed

lemma corner_duplicate_top:
  assumes "r \<in> set rects" "home_bucket T r = 0 \<or> home_bucket T r = 2"
  shows "(r \<in> set (partition_grid rects T t ! (home_bucket T r + 3))) = (top_line T t \<le> r_bottom r)"
proof -
  from assms(2) show ?thesis
  proof
    assume h: "home_bucket T r = 0"
    show ?thesis using assms(1)
      by (simp add: h partition_grid_nth placed_in_def duplicated_into_def)
  next
    assume h: "home_bucket T r = 2"
    show ?thesis using assms(1)
      by (simp add: h partition_grid_nth placed_in_def duplicated_into_def)
  qed
qed

lemma lines_exact:
  "fl (r_width T * t) = r_width T * t \<Longrightarrow>
   fl (r_left T + r_width T * t) = r_left T + r_width T * t \<Longrightarrow>
   (left_line T t \<le> r_right r) = (r_width T * t \<le> r_right r - r_left T)"
  "fl (r_width T * t) = r_width T * t \<Longrightarrow>
   fl (r_right T - r_width T * t) = r_right T - r_width T * t \<Longrightarrow>
   (r_left r \<le> right_line T t) = (r_width T * t \<le> r_right T - r_left r)"
  "fl (r_height T * t) = r_height T * t \<Longrightarrow>
   fl (r_top T + r_height T * t) = r_top T + r_height T * t \<Longrightarrow>
   (top_line T t \<le> r_bottom r) = (r_height T * t \<le> r_bottom r - r_top T)"
  "fl (r_height T * t) = r_height T * t \<Longrightarrow>
   fl (r_bottom T - r_height T * t) = r_bottom T - r_height T * t \<Longrightarrow>
   (r_top r \<le> bottom_line T t) = (r_height T * t \<le> r_bottom T - r_top r)"
  by (auto simp: line_defs)

text \<open>
  A rectangle as \<open>getRect\<close> builds it from a bounding box with origin \<open>(x, y)\<close>, width
  \<open>w\<close> and height \<open>h\<close>; used for the concrete layouts below.
\<close>

definition box :: "rat \<Rightarrow> rat \<Rightarrow> rat \<Rightarrow> rat \<Rightarrow> client_rect" where
  "box x y w h = \<lparr> cr_left = x, cr_top = y, cr_right = x + w, cr_bottom = y + h,
                   cr_width = w, cr_height = h \<rparr>"

definition rect_at :: "elem \<Rightarrow> rat \<Rightarrow> rat \<Rightarrow> rat \<Rightarrow> rat \<Rightarrow> rect" where
  "rect_at e x y w h =
     \<lparr> r_left = x, r_top = y, r_right = x + w, r_bottom = y + h, r_width = w, r_height = h,
       r_element = e,
       r_center = \<lparr> c_x = x + of_int \<lfloor>w / 2\<rfloor>, c_y = y + of_int \<lfloor>h / 2\<rfloor>,
                    c_left = x + of_int \<lfloor>w / 2\<rfloor>, c_right = x + of_int \<lfloor>w / 2\<rfloor>,
                    c_top = y + of_int \<lfloor>h / 2\<rfloor>, c_bottom = y + of_int \<lfloor>h / 2\<rfloor> \<rparr> \<rparr>"

lemma getRect_box:
  "getBoundingClientRect d e = Some (box x y w h) \<Longrightarrow> getRect d e = Some (rect_at e x y w h)"
  by (simp add: getRect_def box_def rect_at_def Let_def)

text \<open>
  A 3 by 3 target at \<open>(0, 10)\<close>, the threshold \<open>0.7\<close> (the double nearest to \<open>7/10\<close>), and
  a top-left candidate whose right edge is the double \<open>2.0999999999999996\<close> (its
  coordinates and sizes are doubles).
\<close>

definition tgt_small :: rect where "tgt_small = rect_at 0 0 10 3 3"

definition cand_rounded :: rect where
  "cand_rounded = rect_at 1 (- 3) 0 (3 + 4728779608739020 / 2 ^ 51) 4"

text \<open>
  C4, as stated, fails at the boundary: the candidate's home bucket is the top-left corner
  and its overlap with the target, \<open>2.0999999999999996\<close>, is below the threshold fraction
  \<open>3 * 0.7\<close> of the target's width; yet \<open>partition\<close> duplicates it into the top-centre
  bucket, because the product \<open>3 * 0.7\<close> rounds down to \<open>2.0999999999999996\<close>.
\<close>

theorem partition_duplicates_below_threshold:
  "home_bucket tgt_small cand_rounded = 0 \<and>
   fl (r_right cand_rounded) = r_right cand_rounded \<and>
   fl (r_width cand_rounded) = r_width cand_rounded \<and>
   r_right cand_rounded = 4728779608739020 / 2 ^ 51 \<and>
   r_right cand_rounded - r_left tgt_small < r_width tgt_small * fl (7 / 10) \<and>
   partition_grid [cand_rounded] tgt_small (fl (7 / 10)) ! 1 = [cand_rounded]"
  by code_simp

text \<open>
  C4, amended.  For every target \<open>T\<close>, candidate list and threshold \<open>t\<close>: \<open>partition\<close>
  returns nine buckets; bucket \<open>k\<close> holds, in discovery order, exactly the candidates whose
  home bucket is \<open>k\<close> or that the corner-overlap rule duplicates into \<open>k\<close>; every candidate
  occurs in its home bucket as often as in the input; the home bucket depends on the centre
  and the target's spans only, with a centre on the boundary of a span counting as within;
  any placement outside the home bucket is a corner candidate in an adjacent edge bucket; a
  corner candidate is duplicated exactly when its edge reaches the target's threshold line,
  the target's side moved inwards by the threshold fraction of its width (height) as the
  machine computes it, with one rounding of the product and one of the sum or difference;
  where neither rounds, that is exactly when the overlap is at least the threshold fraction,
  so at the exact fraction the candidate is duplicated and just below it is not; and no
  candidates give nine empty buckets.
\<close>

theorem partition_grid_buckets:
  "length (partition_grid rects T t) = 9 \<and>
   (\<forall>k<9. partition_grid rects T t ! k = filter (placed_in T t k) rects) \<and>
   (\<forall>r. home_bucket T r < 9 \<and>
        count_list (partition_grid rects T t ! home_bucket T r) r = count_list rects r) \<and>
   (\<forall>r k. k < 9 \<and> k \<noteq> home_bucket T r \<and> r \<in> set (partition_grid rects T t ! k) \<longrightarrow>
        (home_bucket T r, k) \<in> {(0, 1), (0, 3), (2, 1), (2, 5), (6, 7), (6, 3), (8, 7), (8, 5)}) \<and>
   (\<forall>r r'. c_x (r_center r) = c_x (r_center r') \<and> c_y (r_center r) = c_y (r_center r') \<longrightarrow>
        home_bucket T r = home_bucket T r') \<and>
   (\<forall>r. r_left T \<le> r_right T \<and> (c_x (r_center r) = r_left T \<or> c_x (r_center r) = r_right T) \<longrightarrow>
        col_of T r = 1) \<and>
   (\<forall>r. r_top T \<le> r_bottom T \<and> (c_y (r_center r) = r_top T \<or> c_y (r_center r) = r_bottom T) \<longrightarrow>
        row_of T r = 1) \<and>
   (\<forall>r\<in>set rects. home_bucket T r = 2 \<or> home_bucket T r = 8 \<longrightarrow>
        (r \<in> set (partition_grid rects T t ! (home_bucket T r - 1))) =
        (r_left r \<le> fl (r_right T - fl (r_width T * t)))) \<and>
   (\<forall>r\<in>set rects. home_bucket T r = 0 \<or> home_bucket T r = 6 \<longrightarrow>
        (r \<in> set (partition_grid rects T t ! (home_bucket T r + 1))) =
        (fl (r_left T + fl (r_width T * t)) \<le> r_right r)) \<and>
   (\<forall>r\<in>set rects. home_bucket T r = 6 \<or> home_bucket T r = 8 \<longrightarrow>
        (r \<in> set (partition_grid rects T t ! (home_bucket T r - 3))) =
        (r_top r \<le> fl (r_bottom T - fl (r_height T * t)))) \<and>
   (\<forall>r\<in>set rects. home_bucket T r = 0 \<or> home_bucket T r = 2 \<longrightarrow>
        (r \<in> set (partition_grid rects T t ! (home_bucket T r + 3))) =
        (fl (r_top T + fl (r_height T * t)) \<le> r_bottom r)) \<and>
   (fl (r_width T * t) = r_width T * t \<and>
    fl (r_right T - r_width T * t) = r_right T - r_width T * t \<longrightarrow>
      (\<forall>r\<in>set rects. home_bucket T r = 2 \<or> home_bucket T r = 8 \<longrightarrow>
         (r \<in> set (partition_grid rects T t ! (home_bucket T r - 1))) =
         (r_width T * t \<le> r_right T - r_left r))) \<and>
   (fl (r_width T * t) = r_width T * t \<and>
    fl (r_left T + r_width T * t) = r_left T + r_width T * t \<longrightarrow>
      (\<forall>r\<in>set rects. home_bucket T r = 0 \<or> home_bucket T r = 6 \<longrightarrow>
         (r \<in> set (partition_grid rects T t ! (home_bucket T r + 1))) =
         (r_width T * t \<le> r_right r - r_left T))) \<and>
   (fl (r_height T * t) = r_height T * t \<and>
    fl (r_bottom T - r_height T * t) = r_bottom T - r_height T * t \<longrightarrow>
      (\<forall>r\<in>set rects. home_bucket T r = 6 \<or> home_bucket T r = 8 \<longrightarrow>
         (r \<in> set (partition_grid rects T t ! (home_bucket T r - 3))) =
         (r_height T * t \<le> r_bottom T - r_top r))) \<and>
   (fl (r_height T * t) = r_height T * t \<and>
    fl (r_top T + r_height T * t) = r_top T + r_height T * t \<longrightarrow>
      (\<forall>r\<in>set rects. home_bucket T r = 0 \<or> home_bucket T r = 2 \<longrightarrow>
         (r \<in> set (partition_grid rects T t ! (home_bucket T r + 3))) =
         (r_height T * t \<le> r_bottom r - r_top T))) \<and>
   partition_grid [] T t = replicate 9 []"
proof -
  have a: "length (partition_grid rects T t) = 9" by (rule length_partition_grid)
  have b: "\<forall>k<9. partition_grid rects T t ! k = filter (placed_in T t k) rects"
    by (simp add: partition_grid_nth)
  have c: "\<forall>r. home_bucket T r < 9 \<and>
        count_list (partition_grid rects T t ! home_bucket T r) r = count_list rects r"
    by (simp add: home_bucket_lt home_bucket_count)
  have d: "\<forall>r k. k < 9 \<and> k \<noteq> home_bucket T r \<and> r \<in> set (partition_grid rects T t ! k) \<longrightarrow>
        (home_bucket T r, k) \<in> {(0, 1), (0, 3), (2, 1), (2, 5), (6, 7), (6, 3), (8, 7), (8, 5)}"
    using other_bucket_is_duplicate by blast
  have e: "\<forall>r r'. c_x (r_center r) = c_x (r_center r') \<and> c_y (r_center r) = c_y (r_center r') \<longrightarrow>
        home_bucket T r = home_bucket T r'"
    using home_bucket_center_only by blast
  have f: "\<forall>r. r_left T \<le> r_right T \<and> (c_x (r_center r) = r_left T \<or> c_x (r_center r) = r_right T) \<longrightarrow>
        col_of T r = 1"
    using boundary_ties_within(1) by blast
  have g: "\<forall>r. r_top T \<le> r_bottom T \<and> (c_y (r_center r) = r_top T \<or> c_y (r_center r) = r_bottom T) \<longrightarrow>
        row_of T r = 1"
    using boundary_ties_within(2) by blast
  have h: "\<forall>r\<in>set rects. home_bucket T r = 2 \<or> home_bucket T r = 8 \<longrightarrow>
        (r \<in> set (partition_grid rects T t ! (home_bucket T r - 1))) =
        (r_left r \<le> fl (r_right T - fl (r_width T * t)))"
    using corner_duplicate_right [of _ rects T t] by (simp add: line_defs)
  have i: "\<forall>r\<in>set rects. home_bucket T r = 0 \<or> home_bucket T r = 6 \<longrightarrow>
        (r \<in> set (partition_grid rects T t ! (home_bucket T r + 1))) =
        (fl (r_left T + fl (r_width T * t)) \<le> r_right r)"
    using corner_duplicate_left [of _ rects T t] by (simp add: line_defs)
  have j: "\<forall>r\<in>set rects. home_bucket T r = 6 \<or> home_bucket T r = 8 \<longrightarrow>
        (r \<in> set (partition_grid rects T t ! (home_bucket T r - 3))) =
        (r_top r \<le> fl (r_bottom T - fl (r_height T * t)))"
    using corner_duplicate_bottom [of _ rects T t] by (simp add: line_defs)
  have k: "\<forall>r\<in>set rects. home_bucket T r = 0 \<or> home_bucket T r = 2 \<longrightarrow>
        (r \<in> set (partition_grid rects T t ! (home_bucket T r + 3))) =
        (fl (r_top T + fl (r_height T * t)) \<le> r_bottom r)"
    using corner_duplicate_top [of _ rects T t] by (simp add: line_defs)
  have h': "fl (r_width T * t) = r_width T * t \<and>
    fl (r_right T - r_width T * t) = r_right T - r_width T * t \<longrightarrow>
      (\<forall>r\<in>set rects. home_bucket T r = 2 \<or> home_bucket T r = 8 \<longrightarrow>
         (r \<in> set (partition_grid rects T t ! (home_bucket T r - 1))) =
         (r_width T * t \<le> r_right T - r_left r))"
    using corner_duplicate_right [of _ rects T t] lines_exact(2) [of T t] by blast
  have i': "fl (r_width T * t) = r_width T * t \<and>
    fl (r_left T + r_width T * t) = r_left T + r_width T * t \<longrightarrow>
      (\<forall>r\<in>set rects. home_bucket T r = 0 \<or> home_bucket T r = 6 \<longrightarrow>
         (r \<in> set (partition_grid rects T t ! (home_bucket T r + 1))) =
         (r_width T * t \<le> r_right r - r_left T))"
    using corner_duplicate_left [of _ rects T t] lines_exact(1) [of T t] by blast
  have j': "fl (r_height T * t) = r_height T * t \<and>
    fl (r_bottom T - r_height T * t) = r_bottom T - r_height T * t \<longrightarrow>
      (\<forall>r\<in>set rects. home_bucket T r = 6 \<or> home_bucket T r = 8 \<longrightarrow>
         (r \<in> set (partition_grid rects T t ! (home_bucket T r - 3))) =
         (r_height T * t \<le> r_bottom T - r_top r))"
    using corner_duplicate_bottom [of _ rects T t] lines_exact(4) [of T t] by blast
  have k': "fl (r_height T * t) = r_height T * t \<and>
    fl (r_top T + r_height T * t) = r_top T + r_height T * t \<longrightarrow>
      (\<forall>r\<in>set rects. home_bucket T r = 0 \<or> home_bucket T r = 2 \<longrightarrow>
         (r \<in> set (partition_grid rects T t ! (home_bucket T r + 3))) =
         (r_height T * t \<le> r_bottom r - r_top T))"
    using corner_duplicate_top [of _ rects T t] lines_exact(3) [of T t] by blast
  have l: "partition_grid [] T t = replicate 9 []" by (simp add: partition_grid_def)
  from a b c d e f g h i j k h' i' j' k' l show ?thesis by blast
qed

text \<open>
  A concrete layout: a 50 by 50 target at \<open>(100, 100)\<close>, a top-right candidate whose
  horizontal overlap is exactly half the target's width, one whose overlap is one pixel
  less, and a candidate whose centre lies on the target's bottom-right corner.  With the
  threshold \<open>0.5\<close> neither the product nor the difference rounds.
\<close>

definition tgt0 :: rect where "tgt0 = rect_at 0 100 100 50 50"
definition cand_exact :: rect where "cand_exact = rect_at 1 125 0 100 50"
definition cand_below :: rect where "cand_below = rect_at 2 126 0 100 50"
definition cand_tie :: rect where "cand_tie = rect_at 3 140 140 20 20"

lemmas ex_defs = tgt0_def cand_exact_def cand_below_def cand_tie_def rect_at_def

theorem partition_grid_buckets_witness:
  "(1::nat) < 9 \<and>
   partition_grid [cand_exact, cand_below, cand_tie] tgt0 (1/2) ! 1 = filter (placed_in tgt0 (1/2) 1) [cand_exact, cand_below, cand_tie] \<and>
   partition_grid [cand_exact, cand_below, cand_tie] tgt0 (1/2) = [[], [cand_exact], [cand_exact, cand_below], [], [cand_tie], [], [], [], []] \<and>
   fl (r_width tgt0 * (1/2)) = r_width tgt0 * (1/2) \<and>
   fl (r_right tgt0 - r_width tgt0 * (1/2)) = r_right tgt0 - r_width tgt0 * (1/2) \<and>
   cand_exact \<in> set [cand_exact, cand_below, cand_tie] \<and> home_bucket tgt0 cand_exact = 2 \<and>
   r_width tgt0 * (1/2) = r_right tgt0 - r_left cand_exact \<and>
   r_left cand_exact \<le> fl (r_right tgt0 - fl (r_width tgt0 * (1/2))) \<and>
   cand_exact \<in> set (partition_grid [cand_exact, cand_below, cand_tie] tgt0 (1/2) ! (home_bucket tgt0 cand_exact - 1)) \<and>
   cand_below \<in> set [cand_exact, cand_below, cand_tie] \<and> home_bucket tgt0 cand_below = 2 \<and>
   r_right tgt0 - r_left cand_below < r_width tgt0 * (1/2) \<and>
   cand_below \<notin> set (partition_grid [cand_exact, cand_below, cand_tie] tgt0 (1/2) ! (home_bucket tgt0 cand_below - 1)) \<and>
   r_left tgt0 \<le> r_right tgt0 \<and> c_x (r_center cand_tie) = r_right tgt0 \<and> col_of tgt0 cand_tie = 1 \<and>
   r_top tgt0 \<le> r_bottom tgt0 \<and> c_y (r_center cand_tie) = r_bottom tgt0 \<and> row_of tgt0 cand_tie = 1"
proof -
  note th = partition_grid_buckets [of "[cand_exact, cand_below, cand_tie]" tgt0 "1/2"]
  have ev: "partition_grid [cand_exact, cand_below, cand_tie] tgt0 (1/2) = [[], [cand_exact], [cand_exact, cand_below], [], [cand_tie], [], [], [], []]"
    by code_simp
  have ex1: "fl (r_width tgt0 * (1/2)) = r_width tgt0 * (1/2)"
    and ex2: "fl (r_right tgt0 - r_width tgt0 * (1/2)) = r_right tgt0 - r_width tgt0 * (1/2)"
    and lnA: "r_left cand_exact \<le> fl (r_right tgt0 - fl (r_width tgt0 * (1/2)))"
    by code_simp+
  have hA: "home_bucket tgt0 cand_exact = 2" and hB: "home_bucket tgt0 cand_below = 2"
    by (simp_all add: home_bucket_def row_of_def col_of_def ex_defs)
  have eqA: "r_width tgt0 * (1/2) = r_right tgt0 - r_left cand_exact"
    and ltB: "r_right tgt0 - r_left cand_below < r_width tgt0 * (1/2)"
    by (simp_all add: ex_defs)
  have inA: "cand_exact \<in> set [cand_exact, cand_below, cand_tie]" and inB: "cand_below \<in> set [cand_exact, cand_below, cand_tie]" by simp_all
  have dupl: "\<forall>r\<in>set [cand_exact, cand_below, cand_tie]. home_bucket tgt0 r = 2 \<or> home_bucket tgt0 r = 8 \<longrightarrow>
        (r \<in> set (partition_grid [cand_exact, cand_below, cand_tie] tgt0 (1/2) ! (home_bucket tgt0 r - 1))) =
        (r_left r \<le> fl (r_right tgt0 - fl (r_width tgt0 * (1/2))))"
    using th by (elim conjE)
  have dupx: "fl (r_width tgt0 * (1/2)) = r_width tgt0 * (1/2) \<and>
      fl (r_right tgt0 - r_width tgt0 * (1/2)) = r_right tgt0 - r_width tgt0 * (1/2) \<longrightarrow>
      (\<forall>r\<in>set [cand_exact, cand_below, cand_tie]. home_bucket tgt0 r = 2 \<or> home_bucket tgt0 r = 8 \<longrightarrow>
        (r \<in> set (partition_grid [cand_exact, cand_below, cand_tie] tgt0 (1/2) ! (home_bucket tgt0 r - 1))) =
        (r_width tgt0 * (1/2) \<le> r_right tgt0 - r_left r))"
    using th by (elim conjE)
  from dupx ex1 ex2 have dup: "\<forall>r\<in>set [cand_exact, cand_below, cand_tie]. home_bucket tgt0 r = 2 \<or> home_bucket tgt0 r = 8 \<longrightarrow>
        (r \<in> set (partition_grid [cand_exact, cand_below, cand_tie] tgt0 (1/2) ! (home_bucket tgt0 r - 1))) =
        (r_width tgt0 * (1/2) \<le> r_right tgt0 - r_left r)"
    by blast
  have dA: "cand_exact \<in> set (partition_grid [cand_exact, cand_below, cand_tie] tgt0 (1/2) ! (home_bucket tgt0 cand_exact - 1))"
    using bspec [OF dupl inA] hA lnA by simp
  have dB: "cand_below \<notin> set (partition_grid [cand_exact, cand_below, cand_tie] tgt0 (1/2) ! (home_bucket tgt0 cand_below - 1))"
    using bspec [OF dup inB] hB ltB by simp
  have wf: "r_left tgt0 \<le> r_right tgt0" "r_top tgt0 \<le> r_bottom tgt0"
    and tie: "c_x (r_center cand_tie) = r_right tgt0" "c_y (r_center cand_tie) = r_bottom tgt0"
    by (simp_all add: ex_defs)
  have colw: "\<forall>r. r_left tgt0 \<le> r_right tgt0 \<and>
        (c_x (r_center r) = r_left tgt0 \<or> c_x (r_center r) = r_right tgt0) \<longrightarrow> col_of tgt0 r = 1"
    using th by (elim conjE)
  have roww: "\<forall>r. r_top tgt0 \<le> r_bottom tgt0 \<and>
        (c_y (r_center r) = r_top tgt0 \<or> c_y (r_center r) = r_bottom tgt0) \<longrightarrow> row_of tgt0 r = 1"
    using th by (elim conjE)
  have within: "col_of tgt0 cand_tie = 1" "row_of tgt0 cand_tie = 1"
    using colw roww wf tie by blast+
  have bk: "\<forall>k<9. partition_grid [cand_exact, cand_below, cand_tie] tgt0 (1/2) ! k = filter (placed_in tgt0 (1/2) k) [cand_exact, cand_below, cand_tie]"
    using th by (elim conjE)
  have b1: "partition_grid [cand_exact, cand_below, cand_tie] tgt0 (1/2) ! 1 = filter (placed_in tgt0 (1/2) 1) [cand_exact, cand_below, cand_tie]"
    using bk by simp
  show ?thesis
    by (intro conjI) (simp, rule b1, rule ev, rule ex1, rule ex2, rule inA, rule hA, rule eqA,
        rule lnA, rule dA, rule inB, rule hB, rule ltB, rule dB, rule wf(1), rule tie(1),
        rule within(1), rule wf(2), rule tie(2), rule within(2))
qed


text \<open>
  C8.  Each of the four \<open>near*\<close> metrics is non-negative for every target and candidate,
  and is exactly \<open>0\<close> when the candidate's horizontal (vertical) span covers the target's
  vertical (horizontal) centre line, respectively the target's left (top) edge.
\<close>
theorem near_metrics_nonneg_and_zero_on_cover:
  "0 \<le> nearPlumbLineIsBetter T r \<and> 0 \<le> nearHorizonIsBetter T r \<and>
   0 \<le> nearTargetLeftIsBetter T r \<and> 0 \<le> nearTargetTopIsBetter T r \<and>
   (r_left r \<le> c_x (r_center T) \<and> c_x (r_center T) \<le> r_right r \<longrightarrow>
      nearPlumbLineIsBetter T r = 0) \<and>
   (r_top r \<le> c_y (r_center T) \<and> c_y (r_center T) \<le> r_bottom r \<longrightarrow>
      nearHorizonIsBetter T r = 0) \<and>
   (r_left r \<le> r_left T \<and> r_left T \<le> r_right r \<longrightarrow> nearTargetLeftIsBetter T r = 0) \<and>
   (r_top r \<le> r_top T \<and> r_top T \<le> r_bottom r \<longrightarrow> nearTargetTopIsBetter T r = 0)"
  by (simp add: nearPlumbLineIsBetter_def nearHorizonIsBetter_def nearTargetLeftIsBetter_def
      nearTargetTopIsBetter_def Let_def)

definition tgt1 :: rect where "tgt1 = rect_at 0 100 100 100 100"
definition cand_cover :: rect where "cand_cover = rect_at 1 80 90 100 80"

theorem near_metrics_witness:
  "r_left cand_cover \<le> c_x (r_center tgt1) \<and> c_x (r_center tgt1) \<le> r_right cand_cover \<and>
   nearPlumbLineIsBetter tgt1 cand_cover = 0 \<and>
   r_top cand_cover \<le> c_y (r_center tgt1) \<and> c_y (r_center tgt1) \<le> r_bottom cand_cover \<and>
   nearHorizonIsBetter tgt1 cand_cover = 0 \<and>
   r_left cand_cover \<le> r_left tgt1 \<and> r_left tgt1 \<le> r_right cand_cover \<and> nearTargetLeftIsBetter tgt1 cand_cover = 0 \<and>
   r_top cand_cover \<le> r_top tgt1 \<and> r_top tgt1 \<le> r_bottom cand_cover \<and> nearTargetTopIsBetter tgt1 cand_cover = 0"
proof -
  have cover: "r_left cand_cover \<le> c_x (r_center tgt1)" "c_x (r_center tgt1) \<le> r_right cand_cover"
    "r_top cand_cover \<le> c_y (r_center tgt1)" "c_y (r_center tgt1) \<le> r_bottom cand_cover"
    "r_left cand_cover \<le> r_left tgt1" "r_left tgt1 \<le> r_right cand_cover"
    "r_top cand_cover \<le> r_top tgt1" "r_top tgt1 \<le> r_bottom cand_cover"
    by (simp_all add: tgt1_def cand_cover_def rect_at_def)
  with near_metrics_nonneg_and_zero_on_cover [of tgt1 cand_cover] show ?thesis by blast
qed



section \<open>Properties of the candidate resolver\<close>

lemma strategies_agree: "navigationStrategies dir g ig T = navigate_priorities dir g ig T"
  by (cases dir) (simp_all add: leftStrategy_def rightStrategy_def upStrategy_def downStrategy_def Grid_defs)

lemma compare_rects_refl [simp]: "compare_rects ds a a = 0"
  by (induction ds) simp_all

lemma compare_rects_flip: "compare_rects ds b a = - compare_rects ds a b"
  by (induction ds) (simp_all add: Let_def)

lemma compare_rects_trans:
  "compare_rects ds a b \<le> 0 \<Longrightarrow> compare_rects ds b c \<le> 0 \<Longrightarrow> compare_rects ds a c \<le> 0"
proof (induction ds)
  case Nil
  then show ?case by simp
next
  case (Cons f ds)
  consider "f a < f b" | "f a = f b" | "f b < f a" by linarith
  then show ?case
  proof cases
    case 1
    with Cons.prems show ?thesis by (auto simp: Let_def split: if_splits)
  next
    case 2
    with Cons show ?thesis by (auto simp: Let_def split: if_splits)
  next
    case 3
    with Cons.prems show ?thesis by (auto simp: Let_def split: if_splits)
  qed
qed

lemma set_insert_sorted [simp]: "set (insert_sorted cmp x xs) = insert x (set xs)"
  by (induction xs) auto

lemma set_js_sort [simp]: "set (js_sort cmp xs) = set xs"
  by (induction xs) (simp_all add: js_sort_def)

lemma js_sort_Cons: "js_sort cmp (x # xs) = insert_sorted cmp x (js_sort cmp xs)"
  by (simp add: js_sort_def)

lemma js_sort_Nil_iff [simp]: "js_sort cmp xs = [] \<longleftrightarrow> xs = []"
  by (metis set_js_sort set_empty)

text \<open>The head of the stable sort is the first minimal element of the input.\<close>
lemma js_sort_head:
  assumes refl: "\<And>a. cmp a a \<le> 0"
      and flip: "\<And>a b. cmp b a = - cmp a b"
      and trans: "\<And>a b c. cmp a b \<le> 0 \<Longrightarrow> cmp b c \<le> 0 \<Longrightarrow> cmp a c \<le> 0"
      and ne: "xs \<noteq> []"
  shows "\<exists>i<length xs. \<exists>rest. js_sort cmp xs = xs ! i # rest \<and>
           (\<forall>j<length xs. cmp (xs ! i) (xs ! j) \<le> 0) \<and>
           (\<forall>j<i. cmp (xs ! i) (xs ! j) < 0)"
  using ne
proof (induction xs)
  case Nil
  then show ?case by simp
next
  case (Cons x xs)
  show ?case
  proof (cases "xs = []")
    case True
    then show ?thesis using refl by (simp add: js_sort_def)
  next
    case False
    from Cons.IH [OF False] obtain i rest where i: "i < length xs"
      and s: "js_sort cmp xs = xs ! i # rest"
      and mn: "\<forall>j<length xs. cmp (xs ! i) (xs ! j) \<le> 0"
      and fst: "\<forall>j<i. cmp (xs ! i) (xs ! j) < 0" by blast
    show ?thesis
    proof (cases "cmp x (xs ! i) \<le> 0")
      case True
      have "\<forall>j<length (x # xs). cmp ((x # xs) ! 0) ((x # xs) ! j) \<le> 0"
      proof (intro allI impI)
        fix j assume "j < length (x # xs)"
        then show "cmp ((x # xs) ! 0) ((x # xs) ! j) \<le> 0"
          using refl trans [OF True] mn by (cases j) auto
      qed
      moreover have "js_sort cmp (x # xs) = (x # xs) ! 0 # xs ! i # rest"
        using True s by (simp add: js_sort_Cons)
      ultimately show ?thesis by (intro exI [of _ 0]) auto
    next
      case False
      then have lt: "cmp (xs ! i) x < 0" using flip [of "xs ! i" x] by simp
      have "\<forall>j<length (x # xs). cmp ((x # xs) ! Suc i) ((x # xs) ! j) \<le> 0"
      proof (intro allI impI)
        fix j assume "j < length (x # xs)"
        then show "cmp ((x # xs) ! Suc i) ((x # xs) ! j) \<le> 0"
          using lt mn by (cases j) auto
      qed
      moreover have "\<forall>j<Suc i. cmp ((x # xs) ! Suc i) ((x # xs) ! j) < 0"
      proof (intro allI impI)
        fix j assume "j < Suc i"
        then show "cmp ((x # xs) ! Suc i) ((x # xs) ! j) < 0"
          using lt fst by (cases j) auto
      qed
      moreover have "js_sort cmp (x # xs) = (x # xs) ! Suc i # insert_sorted cmp x rest"
        using False s by (simp add: js_sort_Cons)
      ultimately show ?thesis using i by (intro exI [of _ "Suc i"]) auto
    qed
  qed
qed


lemma placed_in_center: "placed_in T t 4 r \<longleftrightarrow> home_bucket T r = 4"
  by (auto simp: placed_in_def duplicated_into_def)

lemma placed_in_home_center:
  "home_bucket T r = 4 \<Longrightarrow> placed_in T t k r \<longleftrightarrow> k = 4"
  by (auto simp: placed_in_def duplicated_into_def)

lemma interior_pass_empty:
  assumes "k < 9" "k \<noteq> 4"
  shows "partition_grid (partition_grid rects T t ! 4) T t ! k = []"
proof -
  have "filter (placed_in T t k) (filter (placed_in T t 4) rects) = []"
    using assms(2) by (auto simp: filter_empty_conv placed_in_center placed_in_home_center)
  then show ?thesis using assms(1) by (simp add: partition_grid_nth)
qed

text \<open>
  The edge bucket straight in a direction and the two corner buckets on that side, in
  the words of the specification's tiers 2 and 3.
\<close>

fun edge_bucket :: "direction \<Rightarrow> nat" where
  "edge_bucket Left = 3"
| "edge_bucket Right = 5"
| "edge_bucket Up = 1"
| "edge_bucket Down = 7"

fun corner_buckets :: "direction \<Rightarrow> nat \<times> nat" where
  "corner_buckets Left = (0, 6)"
| "corner_buckets Right = (2, 8)"
| "corner_buckets Up = (0, 2)"
| "corner_buckets Down = (6, 8)"

lemma navigate_priorities_groups:
  "map p_group (navigate_priorities direction (partition_grid rects T t)
       (partition_grid (partition_grid rects T t ! 4) T t) T) =
   [[], filter (placed_in T t (edge_bucket direction)) rects,
    filter (placed_in T t (fst (corner_buckets direction))) rects @
    filter (placed_in T t (snd (corner_buckets direction))) rects]"
  by (cases direction) (simp_all add: interior_pass_empty, simp_all add: partition_grid_nth)

lemma length_navigate_priorities [simp]: "length (navigate_priorities direction g ig T) = 3"
  by (cases direction) simp_all


lemma tiers_groups:
  "map p_group (tiers direction rects T config) =
     (let t = overlap_threshold config in
      if sc_straightOnly config = Some True
      then [[], filter (placed_in T t (edge_bucket direction)) rects]
      else [[], filter (placed_in T t (edge_bucket direction)) rects,
            filter (placed_in T t (fst (corner_buckets direction))) rects @
            filter (placed_in T t (snd (corner_buckets direction))) rects])"
  by (simp add: tiers_def Let_def map_butlast navigate_priorities_groups)

lemma find_None_groups:
  "find (\<lambda>p. p_group p \<noteq> []) ps = None \<longleftrightarrow> (\<forall>g\<in>set (map p_group ps). g = [])"
  by (auto simp: find_None_iff)

lemma measure_candidates_Nil [simp]: "measure_candidates d [] = []"
  by simp

lemma tiers_Nil: "\<forall>g\<in>set (map p_group (tiers direction [] T config)). g = []"
  by (simp add: tiers_groups Let_def)

lemma find_Some_group_ne:
  "find (\<lambda>p. p_group p \<noteq> []) ps = Some tier \<Longrightarrow> p_group tier \<noteq> []"
  by (auto simp: find_Some_iff)

lemma find_element:
  "map_option r_element (find (\<lambda>r. r_element r = e) xs) =
     (if e \<in> r_element ` set xs then Some e else None)"
  by (induction xs) auto

lemma remembered_dest_eq:
  "remembered_dest target direction config grp =
     (case sc_previous config of
        None \<Rightarrow> None
      | Some p \<Rightarrow>
          if sc_rememberSource config = Some True \<and> pf_destination p = target \<and>
             pf_reverse p = direction \<and> pf_target p \<in> r_element ` set grp
          then Some (pf_target p) else None)"
  by (simp add: remembered_dest_def find_element split: option.splits)

lemma tier_found_measured:
  assumes "find (\<lambda>p. p_group p \<noteq> []) (tiers direction rects T config) = Some tier"
  shows "rects \<noteq> []"
proof
  assume "rects = []"
  with tiers_Nil [of direction T config]
  have "find (\<lambda>p. p_group p \<noteq> []) (tiers direction rects T config) = None"
    by (simp add: find_None_groups)
  with assms show False by simp
qed

lemma measured_candidates_ne: "measure_candidates d cs \<noteq> [] \<Longrightarrow> cs \<noteq> []"
  by auto

lemma navigate_no_tier:
  assumes "getRect d target = Some T"
      and "find (\<lambda>p. p_group p \<noteq> []) (tiers direction (measure_candidates d candidates) T config) = None"
  shows "navigate d target direction candidates config = None"
  using assms by (simp add: navigate_def prioritize_def Let_def)

lemma navigate_tier:
  assumes T: "getRect d target = Some T"
      and tier: "find (\<lambda>p. p_group p \<noteq> []) (tiers direction (measure_candidates d candidates) T config) = Some tier"
  shows "\<exists>i<length (p_group tier).
           (\<forall>j<length (p_group tier).
              compare_rects (p_distance tier) (p_group tier ! i) (p_group tier ! j) \<le> 0) \<and>
           (\<forall>j<i. compare_rects (p_distance tier) (p_group tier ! i) (p_group tier ! j) < 0) \<and>
           navigate d target direction candidates config =
             Some (case sc_previous config of
                     None \<Rightarrow> r_element (p_group tier ! i)
                   | Some p \<Rightarrow>
                       if sc_rememberSource config = Some True \<and> pf_destination p = target \<and>
                          pf_reverse p = direction \<and> pf_target p \<in> r_element ` set (p_group tier)
                       then pf_target p else r_element (p_group tier ! i))"
proof -
  have ne: "p_group tier \<noteq> []" using tier by (rule find_Some_group_ne)
  have rects: "measure_candidates d candidates \<noteq> []" using tier by (rule tier_found_measured)
  then have cands: "candidates \<noteq> []" by (rule measured_candidates_ne)
  from js_sort_head [of "compare_rects (p_distance tier)" "p_group tier", OF _ _ _ ne]
  obtain i rest where i: "i < length (p_group tier)"
    and s: "js_sort (compare_rects (p_distance tier)) (p_group tier) = p_group tier ! i # rest"
    and mn: "\<forall>j<length (p_group tier).
              compare_rects (p_distance tier) (p_group tier ! i) (p_group tier ! j) \<le> 0"
    and fst: "\<forall>j<i. compare_rects (p_distance tier) (p_group tier ! i) (p_group tier ! j) < 0"
    using compare_rects_flip compare_rects_trans by (metis compare_rects_refl order_refl)
  have "navigate d target direction candidates config =
          (case remembered_dest target direction config
                  (js_sort (compare_rects (p_distance tier)) (p_group tier)) of
             Some dest \<Rightarrow> Some dest
           | None \<Rightarrow> Some (r_element (p_group tier ! i)))"
    using T tier rects cands s by (simp add: navigate_def prioritize_def Let_def split: option.splits)
  also have "\<dots> = Some (case sc_previous config of
                     None \<Rightarrow> r_element (p_group tier ! i)
                   | Some p \<Rightarrow>
                       if sc_rememberSource config = Some True \<and> pf_destination p = target \<and>
                          pf_reverse p = direction \<and> pf_target p \<in> r_element ` set (p_group tier)
                       then pf_target p else r_element (p_group tier ! i))"
    by (simp add: remembered_dest_eq split: option.splits)
  finally show ?thesis using i mn fst by blast
qed


text \<open>
  C5.  \<open>navigate\<close> returns none when the target has no rectangle or no tier is non-empty.
  Otherwise, with \<open>tier\<close> the first non-empty tier, it returns the sorted-first member of
  the tier: the member at some position \<open>i\<close> that the comparator puts before or level
  with every member and strictly before every member listed earlier.  The one exception:
  when \<open>rememberSource\<close> is true and \<open>previous\<close> has its destination equal to the
  target, its reverse equal to the direction and its target among the elements of the
  tier, the previous target is returned.  A previous record that fails a condition is
  ignored; \<open>navigate\<close> returns an element only and has no store to clear.
\<close>

theorem navigate_winner:
  "(getRect d target = None \<longrightarrow> navigate d target direction candidates config = None) \<and>
   (\<forall>T. getRect d target = Some T \<longrightarrow>
      (find (\<lambda>p. p_group p \<noteq> [])
         (tiers direction (measure_candidates d candidates) T config) = None \<longrightarrow>
       navigate d target direction candidates config = None) \<and>
      (\<forall>tier. find (\<lambda>p. p_group p \<noteq> [])
                (tiers direction (measure_candidates d candidates) T config) = Some tier \<longrightarrow>
         (\<exists>i<length (p_group tier).
            (\<forall>j<length (p_group tier).
               compare_rects (p_distance tier) (p_group tier ! i) (p_group tier ! j) \<le> 0) \<and>
            (\<forall>j<i. compare_rects (p_distance tier) (p_group tier ! i) (p_group tier ! j) < 0) \<and>
            navigate d target direction candidates config =
              Some (case sc_previous config of
                      None \<Rightarrow> r_element (p_group tier ! i)
                    | Some p \<Rightarrow>
                        if sc_rememberSource config = Some True \<and> pf_destination p = target \<and>
                           pf_reverse p = direction \<and>
                           pf_target p \<in> r_element ` set (p_group tier)
                        then pf_target p else r_element (p_group tier ! i)))))"
proof (intro conjI allI impI)
  assume "getRect d target = None"
  then show "navigate d target direction candidates config = None"
    by (simp add: navigate_def)
next
  fix T
  assume "getRect d target = Some T"
    and "find (\<lambda>p. p_group p \<noteq> [])
           (tiers direction (measure_candidates d candidates) T config) = None"
  then show "navigate d target direction candidates config = None"
    by (rule navigate_no_tier)
next
  fix T tier
  assume "getRect d target = Some T"
    and "find (\<lambda>p. p_group p \<noteq> [])
           (tiers direction (measure_candidates d candidates) T config) = Some tier"
  then show "\<exists>i<length (p_group tier).
            (\<forall>j<length (p_group tier).
               compare_rects (p_distance tier) (p_group tier ! i) (p_group tier ! j) \<le> 0) \<and>
            (\<forall>j<i. compare_rects (p_distance tier) (p_group tier ! i) (p_group tier ! j) < 0) \<and>
            navigate d target direction candidates config =
              Some (case sc_previous config of
                      None \<Rightarrow> r_element (p_group tier ! i)
                    | Some p \<Rightarrow>
                        if sc_rememberSource config = Some True \<and> pf_destination p = target \<and>
                           pf_reverse p = direction \<and>
                           pf_target p \<in> r_element ` set (p_group tier)
                        then pf_target p else r_element (p_group tier ! i))"
    by (rule navigate_tier)
qed

lemma tiers_straightOnly:
  assumes "sc_straightOnly config = Some True"
  shows "tiers direction rects T config =
           butlast (navigate_priorities direction
             (partition_grid rects T (overlap_threshold config))
             (partition_grid (partition_grid rects T (overlap_threshold config) ! 4) T
                (overlap_threshold config)) T)"
    and "length (tiers direction rects T config) = 2"
  using assms by (simp_all add: tiers_def Let_def)

lemma navigate_straightOnly_None:
  assumes so: "sc_straightOnly config = Some True"
      and diag: "\<forall>T. getRect d target = Some T \<longrightarrow>
               (\<forall>r\<in>set (measure_candidates d candidates).
                  \<not> placed_in T (overlap_threshold config) (edge_bucket direction) r)"
  shows "navigate d target direction candidates config = None"
proof (cases "getRect d target")
  case None
  then show ?thesis by (simp add: navigate_def)
next
  case (Some T)
  with diag have "filter (placed_in T (overlap_threshold config) (edge_bucket direction))
                    (measure_candidates d candidates) = []"
    by (simp add: filter_empty_conv)
  then have "find (\<lambda>p. p_group p \<noteq> [])
           (tiers direction (measure_candidates d candidates) T config) = None"
    using so by (simp add: find_None_groups tiers_groups Let_def)
  with Some show ?thesis by (rule navigate_no_tier)
qed

text \<open>
  C7.  With \<open>straightOnly\<close> set, for every direction the tiers handed to \<open>prioritize\<close>
  are the first two (the diagonal tier is popped), and \<open>navigate\<close> returns none whenever
  no measured candidate is placed in the edge bucket straight in that direction, that
  is, whenever the candidates of that direction are corner-only ones.
\<close>

theorem straightOnly_drops_diagonal:
  assumes "sc_straightOnly config = Some True"
  shows "(\<forall>rects T. length (tiers direction rects T config) = 2 \<and>
            tiers direction rects T config =
              butlast (navigate_priorities direction
                (partition_grid rects T (overlap_threshold config))
                (partition_grid (partition_grid rects T (overlap_threshold config) ! 4) T
                   (overlap_threshold config)) T)) \<and>
         ((\<forall>T. getRect d target = Some T \<longrightarrow>
              (\<forall>r\<in>set (measure_candidates d candidates).
                 \<not> placed_in T (overlap_threshold config) (edge_bucket direction) r)) \<longrightarrow>
          navigate d target direction candidates config = None)"
  using assms tiers_straightOnly navigate_straightOnly_None by blast


subsection \<open>Concrete layouts\<close>

text \<open>
  A page given by the bounding boxes, the selector results, the \<open>data-sn-*\<close> attributes
  and the vetoing listeners; an element is visible when it has a box, and every non-empty
  selector is valid.
\<close>

definition page :: "(elem \<Rightarrow> client_rect option) \<Rightarrow> (string \<Rightarrow> elem list) \<Rightarrow>
    (elem \<Rightarrow> direction \<Rightarrow> string option) \<Rightarrow>
    (elem \<Rightarrow> event_name \<Rightarrow> event_detail \<Rightarrow> bool) \<Rightarrow> dom" where
  "page boxes sel attrs veto =
     \<lparr> getBoundingClientRect = boxes,
       querySelectorAll = sel,
       invalidSelector = (\<lambda>s. False),
       offsetWidth = (\<lambda>e. case boxes e of None \<Rightarrow> 0 | Some b \<Rightarrow> \<lfloor>cr_width b\<rfloor>),
       offsetHeight = (\<lambda>e. case boxes e of None \<Rightarrow> 0 | Some b \<Rightarrow> \<lfloor>cr_height b\<rfloor>),
       hasAttribute_disabled = (\<lambda>e. False),
       getAttribute_data_sn = attrs,
       prevented = veto \<rparr>"

text \<open>A row of three 50 by 50 elements, and a target with one diagonal neighbour.\<close>

definition row_boxes :: "elem \<Rightarrow> client_rect option" where
  "row_boxes e = (if e = 10 then Some (box 100 100 50 50)
                  else if e = 11 then Some (box 200 100 50 50)
                  else if e = 12 then Some (box 250 100 50 50)
                  else None)"

definition row_page :: dom where
  "row_page = page row_boxes (\<lambda>s. []) (\<lambda>e dir. None) (\<lambda>e n dt. False)"

definition no_config :: section_config where
  "no_config = \<lparr> sc_selector = None, sc_straightOnly = None,
     sc_straightOverlapThreshold = None, sc_rememberSource = None, sc_disabled = None,
     sc_defaultElement = None, sc_enterTo = None, sc_leaveFor = None, sc_restrict = None,
     sc_tabIndexIgnoreList = None, sc_navigableFilter = None, sc_sectionPrefix = None,
     sc_eventPrefix = None, sc_lastFocusedElement = None, sc_previous = None \<rparr>"

definition remember_config :: section_config where
  "remember_config = no_config \<lparr> sc_rememberSource := Some True,
     sc_previous := Some \<lparr> pf_target = 12, pf_destination = 10, pf_reverse = Right \<rparr> \<rparr>"

lemma partition_grid_Nil: "partition_grid [] T t = replicate 9 []"
  by (simp add: partition_grid_def)

lemma row_measure:
  "getRect row_page 10 = Some (rect_at 10 100 100 50 50)"
  "measure_candidates row_page [11, 12] = [rect_at 11 200 100 50 50, rect_at 12 250 100 50 50]"
  by (simp_all add: getRect_box row_page_def page_def row_boxes_def)

lemma row_groups:
  "partition_grid [rect_at 11 200 100 50 50, rect_at 12 250 100 50 50] (rect_at 10 100 100 50 50) (1 / 2) =
     [[], [], [], [], [], [rect_at 11 200 100 50 50, rect_at 12 250 100 50 50], [], [], []]"
  by code_simp

lemma row_tier:
  "find (\<lambda>p. p_group p \<noteq> [])
     (tiers Right (measure_candidates row_page [11, 12]) (rect_at 10 100 100 50 50) remember_config) =
   Some \<lparr> p_group = [rect_at 11 200 100 50 50, rect_at 12 250 100 50 50],
          p_distance = [nearPlumbLineIsBetter (rect_at 10 100 100 50 50),
                        topIsBetter (rect_at 10 100 100 50 50)] \<rparr>"
  unfolding row_measure(2)
  by (simp add: tiers_def overlap_threshold_def remember_config_def no_config_def
      row_groups partition_grid_Nil)

theorem navigate_winner_witness:
  "getRect row_page 10 = Some (rect_at 10 100 100 50 50) \<and>
   find (\<lambda>p. p_group p \<noteq> [])
     (tiers Right (measure_candidates row_page [11, 12]) (rect_at 10 100 100 50 50) remember_config) =
   Some \<lparr> p_group = [rect_at 11 200 100 50 50, rect_at 12 250 100 50 50],
          p_distance = [nearPlumbLineIsBetter (rect_at 10 100 100 50 50),
                        topIsBetter (rect_at 10 100 100 50 50)] \<rparr> \<and>
   navigate row_page 10 Right [11, 12] remember_config = Some 12 \<and>
   navigate row_page 10 Right [11, 12] no_config = Some 11"
proof -
  have a: "navigate row_page 10 Right [11, 12] remember_config = Some 12"
    using navigate_winner [of row_page 10 Right "[11, 12]" remember_config] row_measure(1) row_tier
    by (auto simp: remember_config_def no_config_def rect_at_def)
  have b: "navigate row_page 10 Right [11, 12] no_config = Some 11"
    by code_simp
  show ?thesis using a b row_measure(1) row_tier by simp
qed

definition diag_boxes :: "elem \<Rightarrow> client_rect option" where
  "diag_boxes e = (if e = 10 then Some (box 100 100 50 50)
                   else if e = 11 then Some (box 200 200 50 50)
                   else None)"

definition diag_page :: dom where
  "diag_page = page diag_boxes (\<lambda>s. []) (\<lambda>e dir. None) (\<lambda>e n dt. False)"

definition straight_config :: section_config where
  "straight_config = no_config \<lparr> sc_straightOnly := Some True \<rparr>"

theorem straightOnly_drops_diagonal_witness:
  "sc_straightOnly straight_config = Some True \<and>
   getRect diag_page 10 = Some (rect_at 10 100 100 50 50) \<and>
   measure_candidates diag_page [11] = [rect_at 11 200 200 50 50] \<and>
   \<not> placed_in (rect_at 10 100 100 50 50) (overlap_threshold straight_config)
       (edge_bucket Right) (rect_at 11 200 200 50 50) \<and>
   navigate diag_page 10 Right [11] straight_config = None \<and>
   navigate diag_page 10 Right [11] no_config = Some 11"
proof -
  have so: "sc_straightOnly straight_config = Some True"
    by (simp add: straight_config_def)
  have m: "getRect diag_page 10 = Some (rect_at 10 100 100 50 50)"
    "measure_candidates diag_page [11] = [rect_at 11 200 200 50 50]"
    by (simp_all add: getRect_box diag_page_def page_def diag_boxes_def)
  have np: "\<not> placed_in (rect_at 10 100 100 50 50) (overlap_threshold straight_config)
              (edge_bucket Right) (rect_at 11 200 200 50 50)"
    by code_simp
  have diag: "\<forall>T. getRect diag_page 10 = Some T \<longrightarrow>
      (\<forall>r\<in>set (measure_candidates diag_page [11]).
         \<not> placed_in T (overlap_threshold straight_config) (edge_bucket Right) r)"
    using np unfolding m by simp
  have n: "navigate diag_page 10 Right [11] straight_config = None"
    using straightOnly_drops_diagonal [OF so, of Right diag_page 10 "[11]"] diag by blast
  have b: "navigate diag_page 10 Right [11] no_config = Some 11"
    by code_simp
  show ?thesis using so m np n b by blast
qed


section \<open>Properties of the section registry\<close>

subsection \<open>Enumeration order and lookup of the registry object\<close>

lemma obj_keys_put_existing:
  "k \<in> set (obj_keys obj) \<Longrightarrow> obj_keys (obj_put k v obj) = obj_keys obj"
  by (auto simp: obj_put_def obj_keys_def)

lemma obj_keys_put_new_string:
  "k \<notin> set (obj_keys obj) \<Longrightarrow> array_index k = None \<Longrightarrow>
   obj_keys (obj_put k v obj) = obj_keys obj @ [k]"
  by (simp add: obj_put_def obj_keys_def)

text \<open>A key that is an array index below \<open>n\<close>: it enumerates before the index \<open>n\<close>.\<close>

definition index_below :: "int \<Rightarrow> string \<Rightarrow> bool" where
  "index_below n k = (case array_index k of Some m \<Rightarrow> m < n | None \<Rightarrow> False)"

lemma keys_insert_index:
  "map fst (insert_index n (k, v) obj) =
     takeWhile (index_below n) (map fst obj) @ k # dropWhile (index_below n) (map fst obj)"
  by (induction obj) (auto simp: index_below_def split: option.splits)

lemma obj_keys_put_new_index:
  "k \<notin> set (obj_keys obj) \<Longrightarrow> array_index k = Some n \<Longrightarrow>
   obj_keys (obj_put k v obj) =
     takeWhile (index_below n) (obj_keys obj) @ k # dropWhile (index_below n) (obj_keys obj)"
  by (simp add: obj_put_def obj_keys_def keys_insert_index)

lemma length_insert_index [simp]: "length (insert_index n kv obj) = Suc (length obj)"
  by (induction obj) (auto split: option.splits)

lemma set_insert_index [simp]: "set (insert_index n kv obj) = insert kv (set obj)"
proof (induction obj)
  case Nil
  show ?case by simp
next
  case (Cons a obj)
  obtain k' v' where a: "a = (k', v')" by (cases a)
  show ?case
  proof (cases "array_index k'")
    case None
    then show ?thesis by (simp add: a)
  next
    case (Some m)
    then show ?thesis using Cons.IH by (simp add: a insert_commute)
  qed
qed




lemma distinct_keys_insert_index:
  "fst kv \<notin> fst ` set obj \<Longrightarrow> distinct (map fst obj) \<Longrightarrow>
   distinct (map fst (insert_index n kv obj))"
  by (induction obj) (auto split: option.splits)

lemma map_of_insert_index:
  "k \<notin> fst ` set obj \<Longrightarrow>
   map_of (insert_index n (k, v) obj) k' = (if k' = k then Some v else map_of obj k')"
  by (induction obj) (auto split: option.splits)

lemma map_of_replace_other:
  "k' \<noteq> k \<Longrightarrow>
   map_of (map (\<lambda>(a, b). if a = k then (a, v) else (a, b)) obj) k' = map_of obj k'"
  by (induction obj) (simp_all split: prod.splits)

lemma map_of_replace_same:
  "k \<in> fst ` set obj \<Longrightarrow>
   map_of (map (\<lambda>(a, b). if a = k then (a, v) else (a, b)) obj) k = Some v"
  by (induction obj) (simp_all split: prod.splits, force)

lemma obj_has_get: "obj_has obj k \<longleftrightarrow> obj_get obj k \<noteq> None"
  by (simp add: obj_has_def obj_get_def obj_keys_def map_of_eq_None_iff)


lemma length_obj_put:
  "length (obj_put k v obj) = (if k \<in> set (obj_keys obj) then length obj else Suc (length obj))"
  by (simp add: obj_put_def split: option.splits)



lemma obj_get_put:
  "obj_get (obj_put k v obj) k' = (if k' = k then Some v else obj_get obj k')"
proof (cases "k \<in> set (obj_keys obj)")
  case True
  then have "k \<in> fst ` set obj" by (simp add: obj_keys_def)
  then show ?thesis using True
    by (simp add: obj_get_def obj_put_def map_of_replace_other map_of_replace_same)
next
  case False
  then have nk: "k \<notin> fst ` set obj" by (simp add: obj_keys_def)
  then have none: "map_of obj k = None" by (simp add: map_of_eq_None_iff)
  show ?thesis
  proof (cases "array_index k")
    case None
    then show ?thesis using False none
      by (simp add: obj_get_def obj_put_def map_add_def split: option.splits)
  next
    case (Some n)
    then show ?thesis using False nk
      by (simp add: obj_get_def obj_put_def map_of_insert_index)
  qed
qed

lemma distinct_obj_put:
  assumes "distinct (obj_keys obj)"
  shows "distinct (obj_keys (obj_put k v obj))"
proof (cases "k \<in> set (obj_keys obj)")
  case True
  then show ?thesis using assms by (simp add: obj_keys_put_existing)
next
  case False
  show ?thesis
  proof (cases "array_index k")
    case None
    then show ?thesis using False assms by (simp add: obj_keys_put_new_string)
  next
    case (Some n)
    have "distinct (map fst (insert_index n (k, v) obj))"
      using False assms by (intro distinct_keys_insert_index) (simp_all add: obj_keys_def)
    then show ?thesis using False Some by (simp add: obj_put_def obj_keys_def)
  qed
qed

lemma obj_keys_delete: "obj_keys (obj_delete k obj) = filter (\<lambda>k'. k' \<noteq> k) (obj_keys obj)"
  by (induction obj) (auto simp: obj_delete_def obj_keys_def)

lemma filter_neq_absent: "x \<notin> set xs \<Longrightarrow> filter (\<lambda>y. y \<noteq> x) xs = xs"
  by (induction xs) auto

lemma length_filter_distinct:
  "distinct xs \<Longrightarrow> x \<in> set xs \<Longrightarrow> Suc (length (filter (\<lambda>y. y \<noteq> x) xs)) = length xs"
  by (induction xs) (auto simp: filter_neq_absent)

lemma length_obj_delete:
  assumes "distinct (obj_keys obj)" "k \<in> set (obj_keys obj)"
  shows "Suc (length (obj_delete k obj)) = length obj"
proof -
  have "length (obj_delete k obj) = length (obj_keys (obj_delete k obj))"
    by (simp add: obj_keys_def)
  also have "\<dots> = length (filter (\<lambda>k'. k' \<noteq> k) (obj_keys obj))"
    by (simp add: obj_keys_delete)
  finally show ?thesis using length_filter_distinct [OF assms] by (simp add: obj_keys_def)
qed

lemma obj_get_delete:
  "obj_get (obj_delete k obj) k' = (if k' = k then None else obj_get obj k')"
  by (induction obj) (auto simp: obj_delete_def obj_get_def)

subsection \<open>Exceptions and lookups\<close>

lemma obind_simps [simp]: "obind (Inl e) f = Inl e" "obind (Inr v) f = f v"
  by (simp_all add: obind_def)

lemma attempt_simps [simp]: "attempt (Inl e) w f = (Inl e, w)" "attempt (Inr v) w f = f v"
  by (simp_all add: attempt_def)

lemma and_then_simps [simp]:
  "and_then (Inl e, w) f = (Inl e, w)" "and_then (Inr v, w) f = f v w"
  by (simp_all add: and_then_def)

lemma section_at_own: "obj_get (sections w) k = Some sec \<Longrightarrow> section_at w k = Some sec"
  by (simp add: section_at_def)

lemma section_at_None:
  "section_at w k = None \<longleftrightarrow> obj_get (sections w) k = None \<and> obj_get (inherited w) k = None"
  by (simp add: section_at_def split: option.splits)

lemma write_section_own:
  "obj_get (sections w) k = Some sec \<Longrightarrow>
   write_section k f w = Inr (w \<lparr> sections := obj_put k (f sec) (sections w) \<rparr>)"
  by (simp add: write_section_def)

lemma write_section_cases:
  "(\<exists>sec. obj_get (sections w) k = Some sec \<and>
          write_section k f w = Inr (w \<lparr> sections := obj_put k (f sec) (sections w) \<rparr>)) \<or>
   (\<exists>m. obj_get (sections w) k = None \<and> obj_get (inherited w) k = Some m \<and>
        write_section k f w = Inr (w \<lparr> inherited := obj_put k (f m) (inherited w) \<rparr>)) \<or>
   (section_at w k = None \<and> write_section k f w = Inl TypeError)"
  by (cases "obj_get (sections w) k"; cases "obj_get (inherited w) k")
     (simp_all add: write_section_def section_at_def)

subsection \<open>The section count\<close>

text \<open>The invariant of the specification: the count is the number of entries (with unique ids).\<close>

definition count_matches :: "world \<Rightarrow> bool" where
  "count_matches w =
     (sectionCount w = int (length (obj_keys (sections w))) \<and> distinct (obj_keys (sections w)))"

text \<open>The members of \<open>Object.prototype\<close> are those it has at the start.\<close>

definition prototype_intact :: "world \<Rightarrow> bool" where
  "prototype_intact w = (obj_keys (inherited w) = Object_prototype_names)"

lemma prototype_intact_initial: "prototype_intact initial_world"
  by (simp add: prototype_intact_def initial_world_def obj_keys_def comp_def)

lemma proto_inherited:
  "prototype_intact w \<Longrightarrow> obj_get (inherited w) ''__proto__'' \<noteq> None"
  using obj_has_get [of "inherited w" "''__proto__''"]
  by (simp add: prototype_intact_def obj_has_def Object_prototype_names_def)

lemma dec_nonempty: "dec n \<noteq> []"
  by (subst dec.simps) simp

lemma generateId_loop_fresh:
  "generateId_loop prefix taken pool = (k, m) \<Longrightarrow> k \<notin> set taken \<and> k \<noteq> []"
proof (induction prefix taken pool rule: generateId_loop.induct)
  case (1 prefix taken pool)
  show ?case
  proof (cases "prefix @ dec (pool + 1) \<in> set taken")
    case True
    with "1.prems" have "generateId_loop prefix taken (pool + 1) = (k, m)"
      by (subst (asm) generateId_loop.simps) (auto simp: Let_def)
    with "1.IH" [OF refl refl] True show ?thesis by simp
  next
    case False
    with "1.prems" have "k = prefix @ dec (pool + 1)"
      by (subst (asm) generateId_loop.simps) (auto simp: Let_def)
    with False show ?thesis by (simp add: dec_nonempty)
  qed
qed

lemma generateId_fresh:
  assumes "generateId w = (k, w1)"
  shows "section_at w k = None" "k \<noteq> []" "sections w1 = sections w"
    "sectionCount w1 = sectionCount w" "inherited w1 = inherited w"
proof -
  obtain m where g: "generateId_loop (ID_POOL_PREFIX w)
                       (obj_keys (sections w) @ obj_keys (inherited w)) (idPool w) = (k, m)"
    and w1: "w1 = w \<lparr> idPool := m \<rparr>"
    using assms by (auto simp: generateId_def split: prod.splits)
  from generateId_loop_fresh [OF g]
  have "\<not> obj_has (sections w) k" "\<not> obj_has (inherited w) k" and k: "k \<noteq> []"
    by (simp_all add: obj_has_def)
  then show "section_at w k = None" by (simp add: section_at_None obj_has_get)
  show "k \<noteq> []" by (rule k)
  from w1 show "sections w1 = sections w" "sectionCount w1 = sectionCount w"
    "inherited w1 = inherited w" by simp_all
qed

lemma truthy_id_Some: "truthy_id x = Some k \<longleftrightarrow> x = Some k \<and> k \<noteq> []"
  by (auto simp: truthy_id_def split: option.splits)

lemma obj_put_has: "k \<in> set (obj_keys (obj_put k v obj))"
  using obj_get_put [of k v obj k] obj_has_get [of "obj_put k v obj" k]
  by (simp add: obj_has_def)

lemma store_section_keys:
  "obj_keys (sections (store_section k v w)) =
     (if k = ''__proto__'' then obj_keys (sections w) else obj_keys (obj_put k v (sections w)))"
  by (simp add: store_section_def)

text \<open>\<open>set\<close> on a section the registry owns keeps the keys and the count, and does not throw.\<close>

lemma SN_set_own:
  assumes "k \<noteq> []" "obj_get (sections w) k = Some sec"
  shows "fst (SN_set (c \<lparr> cf_id := Some k \<rparr>) w) = Inr ()"
    and "obj_keys (sections (snd (SN_set (c \<lparr> cf_id := Some k \<rparr>) w))) = obj_keys (sections w)"
    and "sectionCount (snd (SN_set (c \<lparr> cf_id := Some k \<rparr>) w)) = sectionCount w"
    and "inherited (snd (SN_set (c \<lparr> cf_id := Some k \<rparr>) w)) = inherited w"
proof -
  have own: "k \<in> set (obj_keys (sections w))"
    using assms(2) obj_has_get [of "sections w" k] by (simp add: obj_has_def)
  define c' where "c' = c \<lparr> cf_id := Some k \<rparr>"
  have t: "truthy_id (cf_id c') = Some k" using assms(1) by (simp add: c'_def truthy_id_def)
  define w1 where "w1 = (if has_recognized_key c'
                          then w \<lparr> sections := obj_put k (set_section_props c' sec) (sections w) \<rparr>
                          else w)"
  have a: "(if has_recognized_key c' then write_section k (set_section_props c') w else Inr w)
             = Inr w1"
    by (simp add: w1_def write_section_own [OF assms(2)])
  have k1: "obj_keys (sections w1) = obj_keys (sections w)"
    using own by (simp add: w1_def obj_keys_put_existing)
  have unf: "SN_set c' w =
      (Inr (), store_section k (case section_at w1 k of None \<Rightarrow> empty_section | Some s \<Rightarrow> s) w1)"
    by (simp add: SN_set_def t a)
  have own1: "k \<in> set (obj_keys (sections w1))" using own k1 by simp
  show "fst (SN_set (c \<lparr> cf_id := Some k \<rparr>) w) = Inr ()"
    unfolding c'_def [symmetric] unf by simp
  show "obj_keys (sections (snd (SN_set (c \<lparr> cf_id := Some k \<rparr>) w))) = obj_keys (sections w)"
    unfolding c'_def [symmetric] unf using own1 k1
    by (simp add: store_section_keys obj_keys_put_existing)
  show "sectionCount (snd (SN_set (c \<lparr> cf_id := Some k \<rparr>) w)) = sectionCount w"
    unfolding c'_def [symmetric] unf by (simp add: store_section_def w1_def)
  show "inherited (snd (SN_set (c \<lparr> cf_id := Some k \<rparr>) w)) = inherited w"
    unfolding c'_def [symmetric] unf by (simp add: store_section_def w1_def)
qed

lemma SN_add_sections:
  assumes "prototype_intact w" "SN_add c w = (Inr k, w')"
  shows "obj_keys (sections w') = obj_keys (obj_put k empty_section (sections w))"
    and "sectionCount w' = sectionCount w + 1"
    and "section_at w k = None" and "k \<noteq> []" and "inherited w' = inherited w"
proof -
  define r where "r = (case truthy_id (cf_id c) of None \<Rightarrow> generateId w | Some i \<Rightarrow> (i, w))"
  obtain i w1 where iw: "r = (i, w1)" by (cases r)
  have fresh: "i \<noteq> [] \<and> sections w1 = sections w \<and> sectionCount w1 = sectionCount w \<and>
               inherited w1 = inherited w"
  proof (cases "truthy_id (cf_id c)")
    case None
    then have "generateId w = (i, w1)" using iw by (simp add: r_def)
    from generateId_fresh(2-5) [OF this] show ?thesis by simp
  next
    case (Some j)
    then have "i = j" "w1 = w" using iw by (simp_all add: r_def)
    moreover have "j \<noteq> []" using Some by (simp add: truthy_id_Some)
    ultimately show ?thesis by simp
  qed
  let ?w2 = "(store_section i empty_section w1) \<lparr> sectionCount := sectionCount w1 + 1 \<rparr>"
  have unf: "SN_add c w =
      (if section_at w1 i \<noteq> None then (Inl (SectionExists i), w1)
       else and_then (SN_set (c \<lparr> cf_id := Some i \<rparr>) ?w2) (\<lambda>u w2. (Inr i, w2)))"
    using iw unfolding SN_add_def r_def [symmetric] by simp
  have none: "section_at w1 i = None"
    using assms(2) unf by (auto split: if_splits)
  then have none': "section_at w i = None" using fresh by (simp add: section_at_None)
  have np: "i \<noteq> ''__proto__''"
    using none' proto_inherited [OF assms(1)] by (auto simp: section_at_None)
  have s2: "sections ?w2 = obj_put i empty_section (sections w)"
    using np fresh by (simp add: store_section_def)
  have g2: "obj_get (sections ?w2) i = Some empty_section"
    unfolding s2 by (simp add: obj_get_put)
  note set = SN_set_own [OF conjunct1 [OF fresh] g2, of c]
  obtain u w3 where sw: "SN_set (c \<lparr> cf_id := Some i \<rparr>) ?w2 = (u, w3)"
    by (cases "SN_set (c \<lparr> cf_id := Some i \<rparr>) ?w2")
  with set have u: "u = Inr ()" and k3: "obj_keys (sections w3) = obj_keys (sections ?w2)"
    and c3: "sectionCount w3 = sectionCount ?w2" and i3: "inherited w3 = inherited ?w2"
    by simp_all
  from assms(2) unf none sw u have k: "k = i" and w': "w' = w3" by simp_all
  show "obj_keys (sections w') = obj_keys (obj_put k empty_section (sections w))"
    using k w' k3 s2 by simp
  show "sectionCount w' = sectionCount w + 1"
    using w' c3 fresh by (simp add: store_section_def)
  show "section_at w k = None" using none' k by simp
  show "k \<noteq> []" using k fresh by simp
  show "inherited w' = inherited w" using w' i3 fresh by (simp add: store_section_def)
qed

lemma SN_add_count:
  assumes "count_matches w" "prototype_intact w" "SN_add c w = (Inr k, w')"
  shows "count_matches w'" "prototype_intact w'"
proof -
  note a = SN_add_sections [OF assms(2,3)]
  have nh: "k \<notin> set (obj_keys (sections w))"
    using a(3) obj_has_get [of "sections w" k] by (simp add: section_at_None obj_has_def)
  have "length (obj_keys (obj_put k empty_section (sections w))) = Suc (length (obj_keys (sections w)))"
    using nh length_obj_put [of k empty_section "sections w"] by (simp add: obj_keys_def)
  moreover have "distinct (obj_keys (obj_put k empty_section (sections w)))"
    using assms(1) by (simp add: distinct_obj_put count_matches_def)
  ultimately show "count_matches w'" using assms(1) a(1,2) by (simp add: count_matches_def)
  show "prototype_intact w'" using assms(2) a(5) by (simp add: prototype_intact_def)
qed

text \<open>
  \<open>remove\<close> keeps the invariant for an id the registry owns and for an id that names
  nothing; for the name of a member of \<open>Object.prototype\<close> see
  \<open>remove_inherited_name_breaks_count\<close> below.
\<close>

lemma SN_remove_count:
  assumes "count_matches w" "SN_remove k w = (Inr b, w')"
    and "obj_has (sections w) k \<or> section_at w k = None"
  shows "count_matches w'"
proof (cases "obj_has (sections w) k")
  case True
  then have "section_at w k \<noteq> None" by (auto simp: section_at_None obj_has_get)
  then have w': "w' = w \<lparr> sections := obj_delete k (sections w),
                       sectionCount := sectionCount w - 1,
                       lastSectionId := (if lastSectionId w = k then [] else lastSectionId w) \<rparr>"
    using assms(2) by (auto simp: SN_remove_def split: if_splits)
  have "Suc (length (obj_delete k (sections w))) = length (sections w)"
    using assms(1) True by (intro length_obj_delete) (simp_all add: count_matches_def obj_has_def)
  then have "Suc (length (obj_keys (obj_delete k (sections w)))) = length (obj_keys (sections w))"
    by (simp add: obj_keys_def)
  then show ?thesis using assms(1)
    by (simp add: w' count_matches_def obj_keys_delete)
next
  case False
  with assms(3) have "section_at w k = None" by simp
  then have "w' = w" using assms(2) by (auto simp: SN_remove_def split: if_splits)
  then show ?thesis using assms(1) by simp
qed

lemma SN_clear_count: "count_matches (SN_clear w)"
  by (simp add: count_matches_def SN_clear_def obj_keys_def)

lemma write_section_count:
  "count_matches w \<Longrightarrow> write_section k f w = Inr w' \<Longrightarrow> count_matches w'"
  using write_section_cases [of w k f] obj_has_get [of "sections w" k]
  by (auto simp: count_matches_def obj_keys_put_existing obj_has_def)

lemma SN_disable_count: "count_matches w \<Longrightarrow> count_matches (snd (SN_disable k w))"
  by (auto simp: SN_disable_def write_section_count split: sum.splits)

lemma SN_enable_count: "count_matches w \<Longrightarrow> count_matches (snd (SN_enable k w))"
  by (auto simp: SN_enable_def write_section_count split: sum.splits)

text \<open>\<open>set\<close> keeps the invariant when it updates the global configuration or a registered section.\<close>

lemma SN_set_count:
  assumes "count_matches w"
    and "truthy_id (cf_id c) = None \<or> (\<exists>k. truthy_id (cf_id c) = Some k \<and> obj_has (sections w) k)"
  shows "count_matches (snd (SN_set c w))"
proof (cases "truthy_id (cf_id c)")
  case None
  then show ?thesis using assms(1) by (auto simp: SN_set_def count_matches_def)
next
  case (Some k)
  with assms(2) have h: "obj_has (sections w) k" by simp
  then obtain sec where g: "obj_get (sections w) k = Some sec" by (auto simp: obj_has_get)
  from Some have k: "k \<noteq> []" and c: "c \<lparr> cf_id := Some k \<rparr> = c"
    by (simp_all add: truthy_id_Some)
  from SN_set_own(2,3) [OF k g, of c] show ?thesis
    using assms(1) unfolding c by (simp add: count_matches_def)
qed

text \<open>The state manager of state.ts keeps its count in step with its map.\<close>

definition sm_count_matches :: "state_manager \<Rightarrow> bool" where
  "sm_count_matches s =
     (sm_sectionCount s = int (length (sm_sections s)) \<and> distinct (map fst (sm_sections s)))"

lemma map_set_keys:
  "map fst (map_set k v m) = (if map_has m k then map fst m else map fst m @ [k])"
  by (auto simp: map_set_def)

lemma length_map_set:
  "length (map_set k v m) = (if map_has m k then length m else Suc (length m))"
  by (simp add: map_set_def)

lemma setSection_count: "sm_count_matches s \<Longrightarrow> sm_count_matches (setSection k c s)"
  by (simp add: sm_count_matches_def setSection_def Let_def length_map_set map_set_keys
      map_has_def)

lemma removeSection_count:
  assumes "sm_count_matches s"
  shows "sm_count_matches (snd (removeSection k s))"
proof -
  have keys: "map fst (filter (\<lambda>(a, v). a \<noteq> k) (sm_sections s)) =
              filter (\<lambda>a. a \<noteq> k) (map fst (sm_sections s))"
    using obj_keys_delete [of k "sm_sections s"] by (simp add: obj_delete_def obj_keys_def)
  have len: "length (filter (\<lambda>(a, v). a \<noteq> k) (sm_sections s)) =
             length (filter (\<lambda>a. a \<noteq> k) (map fst (sm_sections s)))"
    using arg_cong [OF keys, of length] by simp
  show ?thesis
  proof (cases "map_has (sm_sections s) k")
    case True
    then have "Suc (length (filter (\<lambda>a. a \<noteq> k) (map fst (sm_sections s)))) =
               length (map fst (sm_sections s))"
      using assms by (intro length_filter_distinct) (simp_all add: sm_count_matches_def map_has_def)
    then show ?thesis using assms True
      by (simp add: removeSection_def Let_def sm_count_matches_def keys len)
  next
    case False
    then have "filter (\<lambda>a. a \<noteq> k) (map fst (sm_sections s)) = map fst (sm_sections s)"
      by (intro filter_neq_absent) (simp add: map_has_def)
    then show ?thesis using assms False
      by (simp add: removeSection_def Let_def sm_count_matches_def keys len)
  qed
qed

lemma clearSections_count: "sm_count_matches (clearSections s)"
  by (simp add: sm_count_matches_def clearSections_def)

subsection \<open>Section attribution\<close>

text \<open>
  A section an element can be attributed to: not disabled, and its selector matches.
  A section that makes the lookup throw: not disabled, and its selector is one that
  \<open>matches\<close> rejects, the empty string for one.
\<close>

definition attributable :: "dom \<Rightarrow> elem \<Rightarrow> section_config \<Rightarrow> bool" where
  "attributable d e sec =
     (sc_disabled sec \<noteq> Some True \<and> matchSelector d (Some e) (sc_selector sec) = Inr True)"

definition rejecting :: "dom \<Rightarrow> section_config \<Rightarrow> bool" where
  "rejecting d sec =
     (sc_disabled sec \<noteq> Some True \<and>
      (case sc_selector sec of None \<Rightarrow> False | Some s \<Rightarrow> s = [] \<or> invalidSelector d s))"

lemma matchSelector_cases:
  "matchSelector d (Some e) sel = Inr True \<or> matchSelector d (Some e) sel = Inr False \<or>
   matchSelector d (Some e) sel = Inl SyntaxError"
  by (auto simp: matchSelector_def matches_def split: option.splits)

lemma matchSelector_throws:
  "matchSelector d (Some e) sel = Inl err \<longleftrightarrow>
     err = SyntaxError \<and> (case sel of None \<Rightarrow> False | Some s \<Rightarrow> s = [] \<or> invalidSelector d s)"
  by (auto simp: matchSelector_def matches_def split: option.splits)

lemma not_both: "attributable d e sec \<Longrightarrow> \<not> rejecting d sec"
  by (auto simp: attributable_def rejecting_def matchSelector_def matches_def split: option.splits)

lemma getSectionId_loop_find:
  "getSectionId_loop d e reg =
     (case find (\<lambda>kv. attributable d e (snd kv) \<or> rejecting d (snd kv)) reg of
        None \<Rightarrow> Inr None
      | Some kv \<Rightarrow> if rejecting d (snd kv) then Inl SyntaxError else Inr (Some (fst kv)))"
proof (induction reg)
  case Nil
  show ?case by simp
next
  case (Cons kv reg)
  obtain k sec where kv: "kv = (k, sec)" by (cases kv)
  show ?case
  proof (cases "sc_disabled sec = Some True")
    case True
    then show ?thesis using Cons by (simp add: kv attributable_def rejecting_def)
  next
    case False
    from matchSelector_cases [of d e "sc_selector sec"] show ?thesis
    proof (elim disjE)
      assume m: "matchSelector d (Some e) (sc_selector sec) = Inr True"
      then have "attributable d e sec" using False by (simp add: attributable_def)
      then show ?thesis using m False not_both [of d e sec] by (simp add: kv)
    next
      assume m: "matchSelector d (Some e) (sc_selector sec) = Inr False"
      then have "\<not> attributable d e sec" "\<not> rejecting d sec"
        using matchSelector_throws [of d e "sc_selector sec" SyntaxError]
        by (simp_all add: attributable_def rejecting_def)
      then show ?thesis using m False Cons by (simp add: kv)
    next
      assume m: "matchSelector d (Some e) (sc_selector sec) = Inl SyntaxError"
      then have "rejecting d sec"
        using False matchSelector_throws [of d e "sc_selector sec" SyntaxError]
        by (simp add: rejecting_def)
      then show ?thesis using m False by (simp add: kv)
    qed
  qed
qed

lemma getSectionId_Some_iff:
  "getSectionId d w e = Inr (Some k) \<longleftrightarrow>
     (\<exists>i<length (sections w). fst (sections w ! i) = k \<and>
         attributable d e (snd (sections w ! i)) \<and>
         (\<forall>j<i. \<not> attributable d e (snd (sections w ! j)) \<and>
                \<not> rejecting d (snd (sections w ! j))))"
proof
  assume g: "getSectionId d w e = Inr (Some k)"
  then obtain kv where
    f: "find (\<lambda>kv. attributable d e (snd kv) \<or> rejecting d (snd kv)) (sections w) = Some kv"
    and k: "fst kv = k" and nr: "\<not> rejecting d (snd kv)"
    by (auto simp: getSectionId_def getSectionId_loop_find split: option.splits if_splits)
  from f obtain i where "i < length (sections w)"
    "attributable d e (snd (sections w ! i)) \<or> rejecting d (snd (sections w ! i))"
    "kv = sections w ! i"
    "\<forall>j<i. \<not> (attributable d e (snd (sections w ! j)) \<or> rejecting d (snd (sections w ! j)))"
    unfolding find_Some_iff by blast
  with k nr show "\<exists>i<length (sections w). fst (sections w ! i) = k \<and>
         attributable d e (snd (sections w ! i)) \<and>
         (\<forall>j<i. \<not> attributable d e (snd (sections w ! j)) \<and>
                \<not> rejecting d (snd (sections w ! j)))" by blast
next
  assume "\<exists>i<length (sections w). fst (sections w ! i) = k \<and>
         attributable d e (snd (sections w ! i)) \<and>
         (\<forall>j<i. \<not> attributable d e (snd (sections w ! j)) \<and>
                \<not> rejecting d (snd (sections w ! j)))"
  then obtain i where i: "i < length (sections w)" "fst (sections w ! i) = k"
    "attributable d e (snd (sections w ! i))"
    "\<forall>j<i. \<not> attributable d e (snd (sections w ! j)) \<and> \<not> rejecting d (snd (sections w ! j))"
    by blast
  then have "find (\<lambda>kv. attributable d e (snd kv) \<or> rejecting d (snd kv)) (sections w)
               = Some (sections w ! i)"
    unfolding find_Some_iff by blast
  then show "getSectionId d w e = Inr (Some k)"
    using i(2) not_both [OF i(3)] by (simp add: getSectionId_def getSectionId_loop_find)
qed

lemma getSectionId_None_iff:
  "getSectionId d w e = Inr None \<longleftrightarrow>
     (\<forall>kv\<in>set (sections w). \<not> attributable d e (snd kv) \<and> \<not> rejecting d (snd kv))"
proof -
  have "getSectionId d w e = Inr None \<longleftrightarrow>
        find (\<lambda>kv. attributable d e (snd kv) \<or> rejecting d (snd kv)) (sections w) = None"
    by (auto simp: getSectionId_def getSectionId_loop_find split: option.splits)
  then show ?thesis unfolding find_None_iff by blast
qed

lemma getSectionId_throws_iff:
  "(\<exists>err. getSectionId d w e = Inl err) \<longleftrightarrow>
     (\<exists>i<length (sections w). rejecting d (snd (sections w ! i)) \<and>
         (\<forall>j<i. \<not> attributable d e (snd (sections w ! j)) \<and>
                \<not> rejecting d (snd (sections w ! j))))"
proof
  assume "\<exists>err. getSectionId d w e = Inl err"
  then obtain kv where
    f: "find (\<lambda>kv. attributable d e (snd kv) \<or> rejecting d (snd kv)) (sections w) = Some kv"
    and r: "rejecting d (snd kv)"
    by (auto simp: getSectionId_def getSectionId_loop_find split: option.splits if_splits)
  from f obtain i where "i < length (sections w)" "kv = sections w ! i"
    "\<forall>j<i. \<not> (attributable d e (snd (sections w ! j)) \<or> rejecting d (snd (sections w ! j)))"
    unfolding find_Some_iff by blast
  with r show "\<exists>i<length (sections w). rejecting d (snd (sections w ! i)) \<and>
         (\<forall>j<i. \<not> attributable d e (snd (sections w ! j)) \<and>
                \<not> rejecting d (snd (sections w ! j)))" by blast
next
  assume "\<exists>i<length (sections w). rejecting d (snd (sections w ! i)) \<and>
         (\<forall>j<i. \<not> attributable d e (snd (sections w ! j)) \<and>
                \<not> rejecting d (snd (sections w ! j)))"
  then obtain i where i: "i < length (sections w)" "rejecting d (snd (sections w ! i))"
    "\<forall>j<i. \<not> attributable d e (snd (sections w ! j)) \<and> \<not> rejecting d (snd (sections w ! j))"
    by blast
  then have "find (\<lambda>kv. attributable d e (snd kv) \<or> rejecting d (snd kv)) (sections w)
               = Some (sections w ! i)"
    unfolding find_Some_iff by blast
  then show "\<exists>err. getSectionId d w e = Inl err"
    using i(2) by (simp add: getSectionId_def getSectionId_loop_find)
qed

lemma getSectionId_own:
  assumes "getSectionId d w e = Inr (Some k)"
  shows "\<exists>sec. obj_get (sections w) k = Some sec"
proof -
  from assms obtain i where "i < length (sections w)" "fst (sections w ! i) = k"
    unfolding getSectionId_Some_iff by blast
  then have "k \<in> set (obj_keys (sections w))"
    unfolding obj_keys_def by (metis nth_map length_map nth_mem)
  then show ?thesis using obj_has_get [of "sections w" k] by (auto simp: obj_has_def)
qed

lemma SN_add_keys:
  assumes "prototype_intact w" "SN_add c w = (Inr k, w')"
  shows "obj_keys (sections w') =
          (case array_index k of
             None \<Rightarrow> obj_keys (sections w) @ [k]
           | Some n \<Rightarrow> takeWhile (index_below n) (obj_keys (sections w)) @
                       k # dropWhile (index_below n) (obj_keys (sections w)))"
proof -
  note a = SN_add_sections [OF assms]
  have nh: "k \<notin> set (obj_keys (sections w))"
    using a(3) obj_has_get [of "sections w" k] by (simp add: section_at_None obj_has_def)
  show ?thesis using nh
    by (simp add: a(1) obj_keys_put_new_string obj_keys_put_new_index split: option.splits)
qed

subsection \<open>The count at inputs outside the registered ids\<close>

definition no_cfg :: config where
  "no_cfg = \<lparr> cf_id = None, cf_selector = Absent, cf_straightOnly = Absent,
     cf_straightOverlapThreshold = Absent, cf_rememberSource = Absent, cf_disabled = Absent,
     cf_defaultElement = Absent, cf_enterTo = Absent, cf_leaveFor = Absent,
     cf_restrict = Absent, cf_tabIndexIgnoreList = Absent, cf_navigableFilter = Absent,
     cf_sectionPrefix = Absent, cf_eventPrefix = Absent \<rparr>"

text \<open>
  C9 at its failing input: \<open>set({id: 'x'})\<close> on the initial state, where no section \<open>x\<close>
  exists, does not throw; it stores an entry \<open>x\<close> in the registry and leaves the count
  at \<open>0\<close>.
\<close>

theorem set_unknown_id_breaks_count:
  "sectionCount initial_world = 0 \<and> obj_keys (sections initial_world) = [] \<and>
   fst (SN_set (no_cfg \<lparr> cf_id := Some ''x'' \<rparr>) initial_world) = Inr () \<and>
   obj_keys (sections (snd (SN_set (no_cfg \<lparr> cf_id := Some ''x'' \<rparr>) initial_world))) = [''x''] \<and>
   sectionCount (snd (SN_set (no_cfg \<lparr> cf_id := Some ''x'' \<rparr>) initial_world)) = 0"
  by code_simp

text \<open>
  A second input at which the count leaves the registry: \<open>remove('toString')\<close> on the
  initial state finds the member of \<open>Object.prototype\<close>, returns true and takes the count
  to \<open>-1\<close> with the registry empty.  For the same reason \<open>add\<close> refuses the id
  \<open>toString\<close> as existing, and \<open>enable\<close> and \<open>setDefaultSection\<close> accept it.
\<close>

lemma remove_inherited_name_breaks_count:
  "fst (SN_remove ''toString'' initial_world) = Inr True \<and>
   sectionCount (snd (SN_remove ''toString'' initial_world)) = - 1 \<and>
   obj_keys (sections (snd (SN_remove ''toString'' initial_world))) = [] \<and>
   fst (SN_add (no_cfg \<lparr> cf_id := Some ''toString'' \<rparr>) initial_world) =
     Inl (SectionExists ''toString'') \<and>
   fst (SN_enable ''toString'' initial_world) = True \<and>
   fst (SN_setDefaultSection ''toString'' initial_world) = Inr ()"
  by code_simp

section \<open>Properties of the focus state machine\<close>

subsection \<open>The approval gate\<close>

text \<open>Two states with the same engine variables (they may differ in the page's part).\<close>

definition same_engine :: "world \<Rightarrow> world \<Rightarrow> bool" where
  "same_engine w w' =
     (globalConfig w' = globalConfig w \<and> ID_POOL_PREFIX w' = ID_POOL_PREFIX w \<and>
      EVENT_PREFIX w' = EVENT_PREFIX w \<and> idPool w' = idPool w \<and> ready w' = ready w \<and>
      pause w' = pause w \<and> sections w' = sections w \<and> sectionCount w' = sectionCount w \<and>
      defaultSectionId w' = defaultSectionId w \<and> lastSectionId w' = lastSectionId w \<and>
      duringFocusChange w' = duringFocusChange w)"

text \<open>
  The gate of \<open>focusElement\<close> vetoes the focus of \<open>elem\<close> for the section \<open>sectionId\<close>:
  a listener prevents the \<open>willunfocus\<close> dispatched at the focused element, or, that one
  having passed or nothing being focused, a listener prevents the \<open>willfocus\<close> dispatched
  at \<open>elem\<close>.
\<close>

definition gate_prevents ::
  "dom \<Rightarrow> world \<Rightarrow> elem \<Rightarrow> string option \<Rightarrow> direction option \<Rightarrow> bool" where
  "gate_prevents d w elem sectionId direction =
     (case activeElement w of
        None \<Rightarrow> prevented d elem WillFocus (focusDetail None sectionId direction)
      | Some cur \<Rightarrow>
          prevented d cur WillUnfocus (willUnfocusDetail elem sectionId direction) \<or>
          prevented d elem WillFocus (focusDetail (Some cur) sectionId direction))"

lemma same_engine_refl [simp]: "same_engine w w"
  by (simp add: same_engine_def)

lemma same_engine_trans: "same_engine w w' \<Longrightarrow> same_engine w' w'' \<Longrightarrow> same_engine w w''"
  by (simp add: same_engine_def)


lemma focusElement_willfocus_passed:
  assumes "\<not> prevented d elem WillFocus (focusDetail cur sid dir)"
  shows "focusElement_willfocus d elem sid dir cur w =
           and_then (focusChanged d elem sid
                       (w \<lparr> activeElement := Some elem,
                            dispatched := dispatched w @
                              [(elem, WillFocus, focusDetail cur sid dir),
                               (elem, Focused, focusDetail cur sid dir)],
                            duringFocusChange := False \<rparr>))
             (\<lambda>u w5. (Inr True, w5))"
  using assms by (simp add: focusElement_willfocus_def dispatch_def Let_def)

lemma focusElement_None [simp]: "focusElement d None sid dir w = (Inr False, w)"
  by (simp add: focusElement_def)

lemma focusElement_idle:
  assumes "\<not> pause w" "\<not> duringFocusChange w" "activeElement w = None"
  shows "focusElement d (Some elem) sid dir w =
           focusElement_willfocus d elem sid dir None (w \<lparr> duringFocusChange := True \<rparr>)"
  using assms by (simp add: focusElement_def)


lemma focusElement_unfocused:
  assumes "\<not> pause w" "\<not> duringFocusChange w" "activeElement w = Some cur"
    "\<not> prevented d cur WillUnfocus (willUnfocusDetail elem sid dir)"
  shows "focusElement d (Some elem) sid dir w =
           focusElement_willfocus d elem sid dir (Some cur)
             (w \<lparr> duringFocusChange := True, activeElement := None,
                  dispatched := dispatched w @
                    [(cur, WillUnfocus, willUnfocusDetail elem sid dir),
                     (cur, Unfocused, willUnfocusDetail elem sid dir)] \<rparr>)"
  using assms by (simp add: focusElement_def dispatch_def Let_def)


text \<open>A focus that the gate lets pass goes on to the bookkeeping with the element focused.\<close>

lemma focusElement_passed:
  assumes np: "\<not> pause w" and nd: "\<not> duringFocusChange w"
    and g: "\<not> gate_prevents d w elem sid dir"
  shows "\<exists>w4. same_engine w w4 \<and> inherited w4 = inherited w \<and> activeElement w4 = Some elem \<and>
              focusElement d (Some elem) sid dir w =
                and_then (focusChanged d elem sid w4) (\<lambda>u w5. (Inr True, w5))"
proof (cases "activeElement w")
  case None
  with g have p: "\<not> prevented d elem WillFocus (focusDetail None sid dir)"
    by (simp add: gate_prevents_def)
  show ?thesis
    unfolding focusElement_idle [OF np nd None] focusElement_willfocus_passed [OF p]
    using nd by (intro exI conjI refl) (simp_all add: same_engine_def)
next
  case (Some cur)
  with g have u: "\<not> prevented d cur WillUnfocus (willUnfocusDetail elem sid dir)"
    and p: "\<not> prevented d elem WillFocus (focusDetail (Some cur) sid dir)"
    by (simp_all add: gate_prevents_def)
  show ?thesis
    unfolding focusElement_unfocused [OF np nd Some u] focusElement_willfocus_passed [OF p]
    using nd by (intro exI conjI refl) (simp_all add: same_engine_def)
qed

lemma focusChanged_own:
  assumes "sid \<noteq> []" "obj_get (sections w) sid = Some sec"
  shows "focusChanged d elem (Some sid) w =
           (Inr (), w \<lparr> sections := obj_put sid (sec \<lparr> sc_lastFocusedElement := Some elem \<rparr>)
                                      (sections w),
                        lastSectionId := sid \<rparr>)"
  using assms by (simp add: focusChanged_def truthy_id_def write_section_own)

lemma focusChanged_attributed:
  assumes "getSectionId d w elem = Inr (Some k)" "k \<noteq> []" "obj_get (sections w) k = Some sec"
  shows "focusChanged d elem None w =
           (Inr (), w \<lparr> sections := obj_put k (sec \<lparr> sc_lastFocusedElement := Some elem \<rparr>)
                                      (sections w),
                        lastSectionId := k \<rparr>)"
  using assms by (simp add: focusChanged_def truthy_id_def write_section_own)

text \<open>A focus that passes the gate, for a section the registry owns, succeeds.\<close>

lemma focusElement_succeeds:
  assumes np: "\<not> pause w" and nd: "\<not> duringFocusChange w"
    and g: "\<not> gate_prevents d w elem (Some sid) dir"
    and sid: "sid \<noteq> []" and own: "obj_get (sections w) sid = Some sec"
  shows "\<exists>w'. focusElement d (Some elem) (Some sid) dir w = (Inr True, w') \<and>
              activeElement w' = Some elem \<and> lastSectionId w' = sid \<and>
              sections w' = obj_put sid (sec \<lparr> sc_lastFocusedElement := Some elem \<rparr>) (sections w)"
proof -
  from focusElement_passed [OF np nd g] obtain w4 where
    se: "same_engine w w4" and a: "activeElement w4 = Some elem"
    and f: "focusElement d (Some elem) (Some sid) dir w =
              and_then (focusChanged d elem (Some sid) w4) (\<lambda>u w5. (Inr True, w5))"
    by blast
  from se own have own4: "obj_get (sections w4) sid = Some sec" by (simp add: same_engine_def)
  show ?thesis
    unfolding f focusChanged_own [OF sid own4]
    using a se by (simp add: same_engine_def)
qed

subsection \<open>Directional moves\<close>

text \<open>The section has no \<open>leaveFor\<close> entry for the direction.\<close>

definition no_leaveFor :: "section_config \<Rightarrow> direction \<Rightarrow> bool" where
  "no_leaveFor sec dir =
     (case sc_leaveFor sec of None \<Rightarrow> True | Some lf \<Rightarrow> leaveFor_entry lf dir = None)"

text \<open>
  The state with the move from \<open>cur\<close> to the winner \<open>n\<close> recorded in the \<open>previous\<close> of
  the section \<open>sec\<close> registered as \<open>sid\<close>.
\<close>

definition record_previous ::
  "string \<Rightarrow> elem \<Rightarrow> elem \<Rightarrow> direction \<Rightarrow> section_config \<Rightarrow> world \<Rightarrow> world" where
  "record_previous sid cur n dir sec w =
     w \<lparr> sections := obj_put sid
            (sec \<lparr> sc_previous := Some \<lparr> pf_target = cur, pf_destination = n,
                                         pf_reverse = REVERSE dir \<rparr> \<rparr>) (sections w) \<rparr>"

text \<open>
  The element a move focuses when its winner \<open>n\<close> is attributed to the section \<open>nsid\<close>:
  the winner itself within the current section \<open>sid\<close>, and otherwise the element that
  \<open>enterTo\<close> of \<open>nsid\<close> names, if any, or else the winner.
\<close>

definition move_target :: "dom \<Rightarrow> world \<Rightarrow> string \<Rightarrow> string \<Rightarrow> elem \<Rightarrow> js_error + elem" where
  "move_target d w sid nsid n =
     (if nsid = sid then Inr n
      else obind (enterToElement d w (Some nsid))
             (\<lambda>enterTo. Inr (case enterTo of Some e \<Rightarrow> e | None \<Rightarrow> n)))"

text \<open>The navigable elements of all sections, as \<open>focusNext\<close> collects them.\<close>

definition allNavigableElements :: "dom \<Rightarrow> world \<Rightarrow> elem list" where
  "allNavigableElements d w =
     concat (map (\<lambda>(ident, sec). navigableElements d w ident sec) (sections w))"

text \<open>
  The winner of the search in the words of the specification, for the element \<open>cur\<close> of
  the section \<open>sec\<close> registered as \<open>sid\<close>: by the restrict mode of the section's settings
  merged over the global ones, the search within the section only, within the section
  first and then among the elements of the sections that are not its own, or among the
  elements of all sections but \<open>cur\<close>.
\<close>

definition mode_winner ::
  "dom \<Rightarrow> direction \<Rightarrow> elem \<Rightarrow> string \<Rightarrow> section_config \<Rightarrow> world \<Rightarrow> elem option" where
  "mode_winner d dir cur sid sec w =
     (let config = extend (globalConfig w) sec;
          own = navigableElements d w sid sec;
          in_section = navigate d cur dir (exclude own [cur]) config
      in if sc_restrict config = Some SelfOnly then in_section
         else if sc_restrict config = Some SelfFirst then
           (case in_section of
              Some n \<Rightarrow> Some n
            | None \<Rightarrow> navigate d cur dir (exclude (allNavigableElements d w) own) config)
         else navigate d cur dir (exclude (allNavigableElements d w) [cur]) config)"

lemma focusNext_search:
  assumes "getAttribute_data_sn d cur dir = None" "obj_get (sections w) sid = Some sec"
  shows "focusNext d dir cur sid w =
     (case mode_winner d dir cur sid sec w of
        Some n \<Rightarrow> focusNext_found d dir cur sid n w
      | None \<Rightarrow>
          and_then (gotoLeaveFor d sid dir w)
            (\<lambda>result w1. if result = LBool True then (Inr True, w1)
                          else (Inr False, fireNavigateFailed d cur dir w1)))"
proof -
  have s: "restricted_navigate d dir cur
             (map_option (navigableElements d w sid) (obj_get (sections w) sid))
             (concat (map (\<lambda>(ident, sec). navigableElements d w ident sec) (sections w)))
             (extend (globalConfig w)
                (case section_at w sid of None \<Rightarrow> empty_section | Some sec \<Rightarrow> sec))
           = Inr (mode_winner d dir cur sid sec w)"
    using assms(2)
    by (simp add: restricted_navigate_def mode_winner_def allNavigableElements_def
        section_at_own Let_def split: option.splits)
  show ?thesis
    using assms(1) by (simp add: focusNext_def Let_def s)
qed

lemma gotoLeaveFor_no_entry:
  assumes "section_at w sid = Some sec" "no_leaveFor sec dir"
  shows "gotoLeaveFor d sid dir w = (Inr (LBool False), w)"
  using assms by (simp add: gotoLeaveFor_def no_leaveFor_def split: option.splits)

text \<open>A search without a winner, in a section without a \<open>leaveFor\<close> entry, fails.\<close>

lemma focusNext_fails:
  assumes "getAttribute_data_sn d cur dir = None" "obj_get (sections w) sid = Some sec"
    "mode_winner d dir cur sid sec w = None" "no_leaveFor sec dir"
  shows "focusNext d dir cur sid w = (Inr False, fireNavigateFailed d cur dir w)"
  by (simp add: focusNext_search [OF assms(1,2)] assms(3)
      gotoLeaveFor_no_entry [OF section_at_own [OF assms(2)] assms(4)])

lemma record_previous_section:
  "obj_get (sections (record_previous sid cur n dir sec w)) sid =
     Some (sec \<lparr> sc_previous := Some \<lparr> pf_target = cur, pf_destination = n,
                                        pf_reverse = REVERSE dir \<rparr> \<rparr>)"
  by (simp add: record_previous_def obj_get_put)

text \<open>
  A move whose winner lies in the current section, or in another section while the
  current one has no \<open>leaveFor\<close> entry, records itself and goes to the gate with its
  target.
\<close>

lemma focusNext_found_direct:
  assumes own: "obj_get (sections w) sid = Some sec"
    and nsid: "getSectionId d (record_previous sid cur n dir sec w) n = Inr (Some nsid)"
    and direct: "nsid = sid \<or> no_leaveFor sec dir"
    and target: "move_target d (record_previous sid cur n dir sec w) sid nsid n = Inr target"
  shows "focusNext_found d dir cur sid n w =
           focusElement d (Some target) (Some nsid) (Some dir) (record_previous sid cur n dir sec w)"
proof -
  let ?w1 = "record_previous sid cur n dir sec w"
  have wr: "write_section sid
              (\<lambda>sec. sec \<lparr> sc_previous := Some \<lparr> pf_target = cur, pf_destination = n,
                                                pf_reverse = REVERSE dir \<rparr> \<rparr>) w = Inr ?w1"
    by (simp add: write_section_own [OF own] record_previous_def)
  show ?thesis
  proof (cases "nsid = sid")
    case True
    with target have "target = n" by (simp add: move_target_def)
    then show ?thesis using True nsid by (simp add: focusNext_found_def wr)
  next
    case False
    with direct have nl: "no_leaveFor sec dir" by simp
    have nl1: "no_leaveFor (sec \<lparr> sc_previous := Some \<lparr> pf_target = cur, pf_destination = n,
                                        pf_reverse = REVERSE dir \<rparr> \<rparr>) dir"
      using nl by (simp add: no_leaveFor_def)
    have g: "gotoLeaveFor d sid dir ?w1 = (Inr (LBool False), ?w1)"
      by (rule gotoLeaveFor_no_entry [OF section_at_own [OF record_previous_section] nl1])
    from target False obtain t where
      t: "enterToElement d ?w1 (Some nsid) = Inr t"
      and tt: "target = (case t of Some e \<Rightarrow> e | None \<Rightarrow> n)"
      by (cases "enterToElement d ?w1 (Some nsid)") (auto simp: move_target_def)
    show ?thesis using False nsid
      by (simp add: focusNext_found_def wr g t tt)
  qed
qed

lemma focusNext_direct:
  assumes "getAttribute_data_sn d cur dir = None" "obj_get (sections w) sid = Some sec"
    "mode_winner d dir cur sid sec w = Some n"
    "getSectionId d (record_previous sid cur n dir sec w) n = Inr (Some nsid)"
    "nsid = sid \<or> no_leaveFor sec dir"
    "move_target d (record_previous sid cur n dir sec w) sid nsid n = Inr target"
  shows "focusNext d dir cur sid w =
           focusElement d (Some target) (Some nsid) (Some dir) (record_previous sid cur n dir sec w)"
  by (simp add: focusNext_search [OF assms(1,2)] assms(3)
      focusNext_found_direct [OF assms(2) assms(4) assms(5) assms(6)])

text \<open>\<open>move\<close> with no selector starts \<open>focusNext\<close> at the focused element, in its section.\<close>

definition moveDetail :: "direction \<Rightarrow> string \<Rightarrow> event_detail" where
  "moveDetail dir sid =
     no_detail \<lparr> ed_direction := Some dir, ed_id := Some sid, ed_cause := Some Api \<rparr>"

lemma SN_move_focused:
  assumes "activeElement w = Some cur" "getSectionId d w cur = Inr (Some sid)" "sid \<noteq> []"
  shows "SN_move d dir None w =
     (if prevented d cur WillMove (moveDetail dir sid)
      then (Inr False, w \<lparr> dispatched := dispatched w @ [(cur, WillMove, moveDetail dir sid)] \<rparr>)
      else focusNext d dir cur sid
             (w \<lparr> dispatched := dispatched w @ [(cur, WillMove, moveDetail dir sid)] \<rparr>))"
  using assms by (simp add: SN_move_def truthy_id_def dispatch_def moveDetail_def)

text \<open>What the engine reads does not depend on the events dispatched so far.\<close>

lemma section_at_logged [simp]: "section_at (w \<lparr> dispatched := l \<rparr>) = section_at w"
  by (simp add: fun_eq_iff section_at_def cong: option.case_cong)

lemma isNavigable_logged [simp]: "isNavigable d (w \<lparr> dispatched := l \<rparr>) = isNavigable d w"
  by (simp add: fun_eq_iff isNavigable_def cong: option.case_cong if_cong)

lemma navigableElements_logged [simp]:
  "navigableElements d (w \<lparr> dispatched := l \<rparr>) = navigableElements d w"
  by (simp add: fun_eq_iff navigableElements_def cong: option.case_cong if_cong)

lemma getSectionId_logged [simp]: "getSectionId d (w \<lparr> dispatched := l \<rparr>) = getSectionId d w"
  by (simp add: fun_eq_iff getSectionId_def cong: option.case_cong if_cong)

lemma getSectionDefaultElement_logged [simp]:
  "getSectionDefaultElement d (w \<lparr> dispatched := l \<rparr>) = getSectionDefaultElement d w"
  by (simp add: fun_eq_iff getSectionDefaultElement_def cong: option.case_cong if_cong)

lemma getSectionLastFocusedElement_logged [simp]:
  "getSectionLastFocusedElement d (w \<lparr> dispatched := l \<rparr>) = getSectionLastFocusedElement d w"
  by (simp add: fun_eq_iff getSectionLastFocusedElement_def cong: option.case_cong if_cong)

lemma enterToElement_logged [simp]:
  "enterToElement d (w \<lparr> dispatched := l \<rparr>) = enterToElement d w"
  by (simp add: fun_eq_iff enterToElement_def cong: option.case_cong if_cong)

lemma move_target_logged [simp]: "move_target d (w \<lparr> dispatched := l \<rparr>) = move_target d w"
  by (simp add: fun_eq_iff move_target_def cong: option.case_cong if_cong)

lemma allNavigableElements_logged [simp]:
  "allNavigableElements d (w \<lparr> dispatched := l \<rparr>) = allNavigableElements d w"
  by (simp add: allNavigableElements_def)

lemma mode_winner_logged [simp]:
  "mode_winner d dir cur sid sec (w \<lparr> dispatched := l \<rparr>) = mode_winner d dir cur sid sec w"
  by (simp add: mode_winner_def cong: option.case_cong if_cong)

lemma gate_prevents_logged [simp]:
  "gate_prevents d (w \<lparr> dispatched := l \<rparr>) = gate_prevents d w"
  by (simp add: fun_eq_iff gate_prevents_def cong: option.case_cong if_cong)


lemma same_engine_logged [simp]:
  "same_engine (w \<lparr> dispatched := l \<rparr>) w' = same_engine w w'"
  by (simp add: same_engine_def)

lemma gate_prevents_recorded [simp]:
  "gate_prevents d (record_previous sid cur n dir sec w) = gate_prevents d w"
  by (simp add: fun_eq_iff gate_prevents_def record_previous_def cong: option.case_cong)


text \<open>The same move, let pass by the gate.\<close>

lemma focusNext_direct_passed:
  assumes "\<not> pause w" "\<not> duringFocusChange w"
    "getAttribute_data_sn d cur dir = None" "obj_get (sections w) sid = Some sec"
    "mode_winner d dir cur sid sec w = Some n"
    "getSectionId d (record_previous sid cur n dir sec w) n = Inr (Some nsid)"
    "nsid = sid \<or> no_leaveFor sec dir"
    "move_target d (record_previous sid cur n dir sec w) sid nsid n = Inr target"
    "\<not> gate_prevents d w target (Some nsid) (Some dir)" "nsid \<noteq> []"
  shows "\<exists>w'. focusNext d dir cur sid w = (Inr True, w') \<and>
              activeElement w' = Some target \<and> lastSectionId w' = nsid \<and>
              map_option sc_lastFocusedElement (obj_get (sections w') nsid) = Some (Some target)"
proof -
  let ?w1 = "record_previous sid cur n dir sec w"
  have np: "\<not> pause ?w1" and nd: "\<not> duringFocusChange ?w1"
    using assms(1,2) by (simp_all add: record_previous_def)
  have g: "\<not> gate_prevents d ?w1 target (Some nsid) (Some dir)" using assms(9) by simp
  from getSectionId_own [OF assms(6)] obtain nsec where
    own: "obj_get (sections ?w1) nsid = Some nsec" by blast
  from focusElement_succeeds [OF np nd g assms(10) own] show ?thesis
    unfolding focusNext_direct [OF assms(3-8)] by (auto simp: obj_get_put)
qed

subsection \<open>Concrete engine states\<close>

definition section_cfg :: "string \<Rightarrow> string \<Rightarrow> config" where
  "section_cfg ident sel = no_cfg \<lparr> cf_id := Some ident, cf_selector := Given (Some sel) \<rparr>"

text \<open>The state after a call of \<open>add\<close>.\<close>

definition after_add :: "config \<Rightarrow> world \<Rightarrow> world" where
  "after_add c w = snd (SN_add c w)"

text \<open>The elements and names of the events dispatched so far.\<close>

definition events :: "world \<Rightarrow> (elem \<times> event_name) list" where
  "events w = map (\<lambda>(e, n, dt). (e, n)) (dispatched w)"

text \<open>
  Three 50 by 50 elements side by side: element 10 matches \<open>.a\<close>, element 20, to its
  right, matches \<open>.b\<close>, both match \<open>.x\<close>, and element 30, further right, matches \<open>.c\<close>.
  On \<open>two_page\<close> no listener vetoes; on \<open>veto_page\<close> a listener prevents every
  \<open>willfocus\<close>; on \<open>veto30_page\<close> a listener prevents the \<open>willfocus\<close> at element 30.
\<close>

definition two_boxes :: "elem \<Rightarrow> client_rect option" where
  "two_boxes e = (if e = 10 then Some (box 0 0 50 50)
                  else if e = 20 then Some (box 100 0 50 50)
                  else if e = 30 then Some (box 200 0 50 50)
                  else None)"

definition two_selectors :: "string \<Rightarrow> elem list" where
  "two_selectors s = (if s = ''.a'' then [10] else if s = ''.b'' then [20]
                      else if s = ''.x'' then [10, 20] else if s = ''.c'' then [30] else [])"

definition two_page :: dom where
  "two_page = page two_boxes two_selectors (\<lambda>e dir. None) (\<lambda>e n dt. False)"


definition veto30_page :: dom where
  "veto30_page = page two_boxes two_selectors (\<lambda>e dir. None) (\<lambda>e n dt. e = 30 \<and> n = WillFocus)"

text \<open>Section \<open>a\<close> alone; sections \<open>a\<close> and \<open>b\<close>; the same with element 10 focused.\<close>

definition w_a :: world where
  "w_a = after_add (section_cfg ''a'' ''.a'') initial_world"

definition w_ab :: world where
  "w_ab = after_add (section_cfg ''b'' ''.b'') w_a"

definition w_focused :: world where
  "w_focused = snd (SN_focus two_page (TargetElement 10) False w_ab)"

text \<open>
  Sections \<open>a\<close> and \<open>b\<close> with element 10 focused, where \<open>a\<close> is registered with a further
  setting: \<open>leaveFor.right\<close> the empty string, \<open>@b\<close> (with \<open>b\<close> selecting both elements)
  or the element 30 (with a section \<open>c\<close> for it), and the restrict mode \<open>self-only\<close> or
  \<open>none\<close>.
\<close>

definition leave_right :: "selector \<Rightarrow> leave_for" where
  "leave_right s = \<lparr> lf_up = None, lf_down = None, lf_left = None, lf_right = Some s \<rparr>"

definition w_block :: world where
  "w_block = snd (SN_focus two_page (TargetElement 10) False
                    (after_add (section_cfg ''b'' ''.b'')
                       (after_add ((section_cfg ''a'' ''.a'')
                                     \<lparr> cf_leaveFor := Given (Some (leave_right (Sel []))) \<rparr>)
                          initial_world)))"

definition w_section_target :: world where
  "w_section_target =
     snd (SN_focus two_page (TargetElement 10) False
            (after_add (section_cfg ''b'' ''.x'')
               (after_add ((section_cfg ''a'' ''.a'')
                             \<lparr> cf_leaveFor := Given (Some (leave_right (Sel ''@b''))) \<rparr>)
                  initial_world)))"

definition w_leave30 :: world where
  "w_leave30 =
     snd (SN_focus two_page (TargetElement 10) False
            (after_add (section_cfg ''c'' ''.c'')
               (after_add (section_cfg ''b'' ''.b'')
                  (after_add ((section_cfg ''a'' ''.a'')
                                \<lparr> cf_leaveFor := Given (Some (leave_right (El 30))) \<rparr>)
                     initial_world))))"



text \<open>Sections \<open>a\<close> and \<open>b\<close> that both select \<open>.x\<close>, and sections registered as \<open>2\<close>, then \<open>1\<close>.\<close>

definition w_overlap :: world where
  "w_overlap = after_add (section_cfg ''b'' ''.x'') (after_add (section_cfg ''a'' ''.x'') initial_world)"

definition w_21 :: world where
  "w_21 = after_add (section_cfg ''1'' ''.x'') (after_add (section_cfg ''2'' ''.x'') initial_world)"

text \<open>A section \<open>z\<close> whose selector is the empty string.\<close>

definition w_rejecting :: world where
  "w_rejecting = after_add (section_cfg ''z'' []) initial_world"

subsection \<open>Focus by section and leaveFor\<close>

text \<open>
  C3 at its failing input: with the one section \<open>a\<close> registered and nothing focused,
  \<open>focus()\<close> focuses element 10 and returns false; with \<open>a\<close> and \<open>b\<close> registered it
  focuses element 10, does not stop, focuses element 20, and returns false.
\<close>

theorem focus_returns_false_and_scans_on:
  "fst (SN_focus two_page NoTarget False w_a) = Inr False \<and>
   activeElement w_a = None \<and>
   activeElement (snd (SN_focus two_page NoTarget False w_a)) = Some 10 \<and>
   events (snd (SN_focus two_page NoTarget False w_a)) = [(10, WillFocus), (10, Focused)] \<and>
   fst (SN_focus two_page NoTarget False w_ab) = Inr False \<and>
   events (snd (SN_focus two_page NoTarget False w_ab)) =
     [(10, WillFocus), (10, Focused), (10, WillUnfocus), (10, Unfocused),
      (20, WillFocus), (20, Focused)] \<and>
   activeElement (snd (SN_focus two_page NoTarget False w_ab)) = Some 20"
  by code_simp

text \<open>
  C2 at its failing input: section \<open>a\<close> has \<open>leaveFor.right\<close> set to the empty string, its
  element 10 is focused and the only candidate to the right is element 20 of section
  \<open>b\<close>; \<open>move('right')\<close> focuses element 20 and returns true.
\<close>

theorem leaveFor_empty_string_does_not_block:
  "map_option sc_leaveFor (obj_get (sections w_block) ''a'') =
     Some (Some \<lparr> lf_up = None, lf_down = None, lf_left = None, lf_right = Some (Sel []) \<rparr>) \<and>
   activeElement w_block = Some 10 \<and>
   fst (SN_move two_page Right None w_block) = Inr True \<and>
   activeElement (snd (SN_move two_page Right None w_block)) = Some 20"
  by code_simp

text \<open>
  A \<open>leaveFor\<close> entry that yields a focus change wins: when \<open>gotoLeaveFor\<close> reports one,
  \<open>focusNext\<close> returns true with the state \<open>gotoLeaveFor\<close> left, and the winner \<open>n\<close> of
  the search is not focused; so with \<open>leaveFor.right\<close> of \<open>a\<close> the element 30,
  \<open>move('right')\<close> from element 10 focuses element 30 and not element 20.  An entry of
  the form \<open>@sectionId\<close> does not report it, because \<open>focusSection\<close> returns false: with
  \<open>leaveFor.right\<close> of \<open>a\<close> set to \<open>@b\<close>, where \<open>b\<close> selects both elements,
  \<open>move('right')\<close> focuses element 10, the entry of \<open>b\<close>, and then element 20.
\<close>

lemma leaveFor_focus_wins:
  assumes "obj_get (sections w) sid = Some sec"
    and "getSectionId d (record_previous sid cur n dir sec w) n = Inr nsid"
    and "Some sid \<noteq> nsid"
    and "gotoLeaveFor d sid dir (record_previous sid cur n dir sec w) = (Inr (LBool True), w2)"
  shows "focusNext_found d dir cur sid n w = (Inr True, w2)"
proof -
  have wr: "write_section sid
              (\<lambda>sec. sec \<lparr> sc_previous := Some \<lparr> pf_target = cur, pf_destination = n,
                                                pf_reverse = REVERSE dir \<rparr> \<rparr>) w
            = Inr (record_previous sid cur n dir sec w)"
    by (simp add: write_section_own [OF assms(1)] record_previous_def)
  show ?thesis using assms(2-4) by (simp add: focusNext_found_def wr)
qed

lemma leaveFor_element_wins:
  "activeElement w_leave30 = Some 10 \<and>
   fst (SN_move two_page Right None w_leave30) = Inr True \<and>
   activeElement (snd (SN_move two_page Right None w_leave30)) = Some 30"
  by code_simp

lemma leaveFor_section_target_overridden:
  "activeElement w_section_target = Some 10 \<and>
   fst (gotoLeaveFor two_page ''a'' Right w_section_target) = Inr (LBool False) \<and>
   fst (SN_move two_page Right None w_section_target) = Inr True \<and>
   activeElement (snd (SN_move two_page Right None w_section_target)) = Some 20 \<and>
   drop (length (events w_section_target))
     (events (snd (SN_move two_page Right None w_section_target))) =
     [(10, WillMove), (10, WillUnfocus), (10, Unfocused), (10, WillFocus), (10, Focused),
      (10, WillUnfocus), (10, Unfocused), (20, WillFocus), (20, Focused)]"
  by code_simp

subsection \<open>A vetoed directional move\<close>


text \<open>
  A veto does not end every move.  With \<open>leaveFor.right\<close> of section \<open>a\<close> the element 30
  and a listener that prevents the \<open>willfocus\<close> at element 30 only, \<open>move('right')\<close>
  from element 10 is vetoed at element 30, inside \<open>gotoLeaveFor\<close>, which returns false;
  \<open>focusNext\<close> then goes on to the winner of the search, element 20 of section \<open>b\<close>,
  focuses it and returns true, with \<open>lastSectionId\<close> now \<open>b\<close>.
\<close>

lemma veto_at_leaveFor_target_moves_on:
  "activeElement w_leave30 = Some 10 \<and> lastSectionId w_leave30 = ''a'' \<and>
   fst (SN_move veto30_page Right None w_leave30) = Inr True \<and>
   activeElement (snd (SN_move veto30_page Right None w_leave30)) = Some 20 \<and>
   lastSectionId (snd (SN_move veto30_page Right None w_leave30)) = ''b'' \<and>
   drop (length (events w_leave30)) (events (snd (SN_move veto30_page Right None w_leave30))) =
     [(10, WillMove), (10, WillUnfocus), (10, Unfocused), (30, WillFocus),
      (20, WillFocus), (20, Focused)]"
  by code_simp






subsection \<open>The search by restrict mode\<close>






subsection \<open>Where the attribution is used\<close>

text \<open>
  C10, as stated, fails, in two ways.  Section \<open>2\<close> is registered first and section \<open>1\<close>
  second, both select element 10 and neither is disabled, yet the registry enumerates
  \<open>1\<close> before \<open>2\<close> and \<open>getSectionId\<close> attributes the element to \<open>1\<close>.  And the focus
  bookkeeping does not always use the attribution: with sections \<open>a\<close> and \<open>b\<close> that both
  select element 10, registered in this order, \<open>getSectionId\<close> attributes the element
  to \<open>a\<close>, but \<open>focus('b')\<close> focuses it and records it as the last focused element of
  \<open>b\<close>, with \<open>lastSectionId\<close> \<open>b\<close>, and leaves \<open>a\<close> without one.
\<close>

theorem getSectionId_not_registration_order:
  "obj_keys (sections (after_add (section_cfg ''2'' ''.x'') initial_world)) = [''2''] \<and>
   obj_keys (sections w_21) = [''1'', ''2''] \<and>
   map_option (attributable two_page 10) (obj_get (sections w_21) ''2'') = Some True \<and>
   map_option (attributable two_page 10) (obj_get (sections w_21) ''1'') = Some True \<and>
   getSectionId two_page w_21 10 = Inr (Some ''1'') \<and>
   obj_keys (sections w_overlap) = [''a'', ''b''] \<and>
   getSectionId two_page w_overlap 10 = Inr (Some ''a'') \<and>
   activeElement (snd (SN_focus two_page (TargetString ''b'') False w_overlap)) = Some 10 \<and>
   lastSectionId (snd (SN_focus two_page (TargetString ''b'') False w_overlap)) = ''b'' \<and>
   map_option sc_lastFocusedElement
     (obj_get (sections (snd (SN_focus two_page (TargetString ''b'') False w_overlap))) ''b'') =
     Some (Some 10) \<and>
   map_option sc_lastFocusedElement
     (obj_get (sections (snd (SN_focus two_page (TargetString ''b'') False w_overlap))) ''a'') =
     Some None"
  by code_simp

text \<open>
  C10, amended.  \<open>getSectionId\<close> returns the first section in the registry's enumeration
  order that is not disabled and whose selector matches the element, and nothing when
  there is none; disabled sections are skipped, and the lookup throws when it meets,
  before any match, a section that is not disabled and whose selector \<open>matches\<close>
  rejects.  The enumeration order is the registration order only for ids that are not
  canonical array indices: \<open>add\<close> puts a new id that is not an array index last, and a
  new id that is an array index before every key that is not a smaller array index.

  The attribution is what the engine uses for the origin of \<open>move\<close> (the section of the
  focused element is the section \<open>focusNext\<close> starts in), for the focus bookkeeping when
  \<open>focusChanged\<close> is given no section id, and, applied to the winner of a move, for
  cross-section detection and the \<open>enterTo\<close> lookup in \<open>focusNext\<close>.  When \<open>focusChanged\<close>
  is given a section id, as by \<open>focusSection\<close>, it books the element under that id,
  whatever the attribution.
\<close>

theorem getSectionId_first_in_enumeration_order:
  "(getSectionId d w e = Inr None \<longleftrightarrow>
      (\<forall>kv\<in>set (sections w). \<not> attributable d e (snd kv) \<and> \<not> rejecting d (snd kv))) \<and>
   (\<forall>k. getSectionId d w e = Inr (Some k) \<longleftrightarrow>
      (\<exists>i<length (sections w). fst (sections w ! i) = k \<and>
          attributable d e (snd (sections w ! i)) \<and>
          (\<forall>j<i. \<not> attributable d e (snd (sections w ! j)) \<and>
                 \<not> rejecting d (snd (sections w ! j))))) \<and>
   ((\<exists>err. getSectionId d w e = Inl err) \<longleftrightarrow>
      (\<exists>i<length (sections w). rejecting d (snd (sections w ! i)) \<and>
          (\<forall>j<i. \<not> attributable d e (snd (sections w ! j)) \<and>
                 \<not> rejecting d (snd (sections w ! j))))) \<and>
   (\<forall>c k w'. prototype_intact w \<and> SN_add c w = (Inr k, w') \<longrightarrow>
      obj_keys (sections w') =
        (case array_index k of
           None \<Rightarrow> obj_keys (sections w) @ [k]
         | Some n \<Rightarrow> takeWhile (index_below n) (obj_keys (sections w)) @
                     k # dropWhile (index_below n) (obj_keys (sections w)))) \<and>
   (\<forall>k dir. activeElement w = Some e \<and> getSectionId d w e = Inr (Some k) \<and> k \<noteq> [] \<longrightarrow>
      SN_move d dir None w =
        (if prevented d e WillMove (moveDetail dir k)
         then (Inr False, w \<lparr> dispatched := dispatched w @ [(e, WillMove, moveDetail dir k)] \<rparr>)
         else focusNext d dir e k
                (w \<lparr> dispatched := dispatched w @ [(e, WillMove, moveDetail dir k)] \<rparr>))) \<and>
   (\<forall>k. getSectionId d w e = Inr (Some k) \<and> k \<noteq> [] \<longrightarrow>
      (\<exists>sec. obj_get (sections w) k = Some sec \<and>
         focusChanged d e None w =
           (Inr (), w \<lparr> sections := obj_put k (sec \<lparr> sc_lastFocusedElement := Some e \<rparr>)
                                      (sections w),
                        lastSectionId := k \<rparr>))) \<and>
   (\<forall>sid sec. sid \<noteq> [] \<and> obj_get (sections w) sid = Some sec \<longrightarrow>
      focusChanged d e (Some sid) w =
        (Inr (), w \<lparr> sections := obj_put sid (sec \<lparr> sc_lastFocusedElement := Some e \<rparr>)
                                   (sections w),
                     lastSectionId := sid \<rparr>)) \<and>
   (\<forall>dir cur sid sec k target.
      obj_get (sections w) sid = Some sec \<and>
      getSectionId d (record_previous sid cur e dir sec w) e = Inr (Some k) \<and>
      (k = sid \<or> no_leaveFor sec dir) \<and>
      move_target d (record_previous sid cur e dir sec w) sid k e = Inr target \<longrightarrow>
      focusNext_found d dir cur sid e w =
        focusElement d (Some target) (Some k) (Some dir) (record_previous sid cur e dir sec w))"
proof (intro conjI allI impI)
  show "getSectionId d w e = Inr None \<longleftrightarrow>
      (\<forall>kv\<in>set (sections w). \<not> attributable d e (snd kv) \<and> \<not> rejecting d (snd kv))"
    by (rule getSectionId_None_iff)
next
  fix k
  show "getSectionId d w e = Inr (Some k) \<longleftrightarrow>
      (\<exists>i<length (sections w). fst (sections w ! i) = k \<and>
          attributable d e (snd (sections w ! i)) \<and>
          (\<forall>j<i. \<not> attributable d e (snd (sections w ! j)) \<and>
                 \<not> rejecting d (snd (sections w ! j))))"
    by (rule getSectionId_Some_iff)
next
  show "(\<exists>err. getSectionId d w e = Inl err) \<longleftrightarrow>
      (\<exists>i<length (sections w). rejecting d (snd (sections w ! i)) \<and>
          (\<forall>j<i. \<not> attributable d e (snd (sections w ! j)) \<and>
                 \<not> rejecting d (snd (sections w ! j))))"
    by (rule getSectionId_throws_iff)
next
  fix c k w'
  assume "prototype_intact w \<and> SN_add c w = (Inr k, w')"
  then have a1: "prototype_intact w" and a2: "SN_add c w = (Inr k, w')" by simp_all
  show "obj_keys (sections w') =
        (case array_index k of
           None \<Rightarrow> obj_keys (sections w) @ [k]
         | Some n \<Rightarrow> takeWhile (index_below n) (obj_keys (sections w)) @
                     k # dropWhile (index_below n) (obj_keys (sections w)))"
    by (rule SN_add_keys [OF a1 a2])
next
  fix k dir
  assume a: "activeElement w = Some e \<and> getSectionId d w e = Inr (Some k) \<and> k \<noteq> []"
  then have a1: "activeElement w = Some e" and a2: "getSectionId d w e = Inr (Some k)"
    and a3: "k \<noteq> []" by simp_all
  show "SN_move d dir None w =
        (if prevented d e WillMove (moveDetail dir k)
         then (Inr False, w \<lparr> dispatched := dispatched w @ [(e, WillMove, moveDetail dir k)] \<rparr>)
         else focusNext d dir e k
                (w \<lparr> dispatched := dispatched w @ [(e, WillMove, moveDetail dir k)] \<rparr>))"
    by (rule SN_move_focused [OF a1 a2 a3])
next
  fix k
  assume a: "getSectionId d w e = Inr (Some k) \<and> k \<noteq> []"
  then have a1: "getSectionId d w e = Inr (Some k)" and a2: "k \<noteq> []" by simp_all
  from getSectionId_own [OF a1] obtain sec where own: "obj_get (sections w) k = Some sec" ..
  have "focusChanged d e None w =
           (Inr (), w \<lparr> sections := obj_put k (sec \<lparr> sc_lastFocusedElement := Some e \<rparr>)
                                      (sections w),
                        lastSectionId := k \<rparr>)"
    by (rule focusChanged_attributed [OF a1 a2 own])
  with own show "\<exists>sec. obj_get (sections w) k = Some sec \<and>
         focusChanged d e None w =
           (Inr (), w \<lparr> sections := obj_put k (sec \<lparr> sc_lastFocusedElement := Some e \<rparr>)
                                      (sections w),
                        lastSectionId := k \<rparr>)"
    by (intro exI [of _ sec] conjI)
next
  fix sid sec
  assume a: "sid \<noteq> [] \<and> obj_get (sections w) sid = Some sec"
  then have a1: "sid \<noteq> []" and a2: "obj_get (sections w) sid = Some sec" by simp_all
  show "focusChanged d e (Some sid) w =
        (Inr (), w \<lparr> sections := obj_put sid (sec \<lparr> sc_lastFocusedElement := Some e \<rparr>)
                                   (sections w),
                     lastSectionId := sid \<rparr>)"
    by (rule focusChanged_own [OF a1 a2])
next
  fix dir cur sid sec k target
  assume a: "obj_get (sections w) sid = Some sec \<and>
      getSectionId d (record_previous sid cur e dir sec w) e = Inr (Some k) \<and>
      (k = sid \<or> no_leaveFor sec dir) \<and>
      move_target d (record_previous sid cur e dir sec w) sid k e = Inr target"
  then have a1: "obj_get (sections w) sid = Some sec"
    and a2: "getSectionId d (record_previous sid cur e dir sec w) e = Inr (Some k)"
    and a3: "k = sid \<or> no_leaveFor sec dir"
    and a4: "move_target d (record_previous sid cur e dir sec w) sid k e = Inr target"
    by simp_all
  show "focusNext_found d dir cur sid e w =
        focusElement d (Some target) (Some k) (Some dir) (record_previous sid cur e dir sec w)"
    by (rule focusNext_found_direct [OF a1 a2 a3 a4])
qed

theorem getSectionId_first_in_enumeration_order_witness:
  "obj_keys (sections w_overlap) = [''a'', ''b''] \<and>
   attributable two_page 10 (snd (sections w_overlap ! 0)) \<and>
   attributable two_page 10 (snd (sections w_overlap ! 1)) \<and>
   getSectionId two_page w_overlap 10 = Inr (Some ''a'') \<and>
   getSectionId two_page w_overlap 30 = Inr None \<and>
   rejecting two_page (snd (sections w_rejecting ! 0)) \<and>
   (\<exists>err. getSectionId two_page w_rejecting 10 = Inl err) \<and>
   prototype_intact initial_world \<and>
   fst (SN_add (section_cfg ''a'' ''.x'') initial_world) = Inr ''a'' \<and>
   obj_keys (sections (snd (SN_add (section_cfg ''a'' ''.x'') initial_world))) = [''a''] \<and>
   activeElement w_focused = Some 10 \<and>
   getSectionId two_page w_focused 10 = Inr (Some ''a'') \<and>
   SN_move two_page Right None w_focused =
     focusNext two_page Right 10 ''a''
       (w_focused \<lparr> dispatched := dispatched w_focused @ [(10, WillMove, moveDetail Right ''a'')] \<rparr>) \<and>
   lastSectionId (snd (focusChanged two_page 10 None w_overlap)) = ''a'' \<and>
   lastSectionId (snd (focusChanged two_page 10 (Some ''b'') w_overlap)) = ''b'' \<and>
   (\<exists>sec. obj_get (sections w_focused) ''a'' = Some sec \<and>
      getSectionId two_page (record_previous ''a'' 10 20 Right sec w_focused) 20 =
        Inr (Some ''b'') \<and>
      no_leaveFor sec Right \<and>
      move_target two_page (record_previous ''a'' 10 20 Right sec w_focused) ''a'' ''b'' 20 =
        Inr 20 \<and>
      focusNext_found two_page Right 10 ''a'' 20 w_focused =
        focusElement two_page (Some 20) (Some ''b'') (Some Right)
          (record_previous ''a'' 10 20 Right sec w_focused))"
proof -
  note A = getSectionId_first_in_enumeration_order [of two_page w_overlap 10]
  note B = getSectionId_first_in_enumeration_order [of two_page w_overlap 30]
  note C = getSectionId_first_in_enumeration_order [of two_page w_rejecting 10]
  note D = getSectionId_first_in_enumeration_order [of two_page initial_world 10]
  note E = getSectionId_first_in_enumeration_order [of two_page w_focused 10]
  note F = getSectionId_first_in_enumeration_order [of two_page w_focused 20]
  have k: "obj_keys (sections w_overlap) = [''a'', ''b'']" by code_simp
  have l: "0 < length (sections w_overlap)" by code_simp
  have f: "fst (sections w_overlap ! 0) = ''a''" by code_simp
  have a0: "attributable two_page 10 (snd (sections w_overlap ! 0))" by code_simp
  have a1: "attributable two_page 10 (snd (sections w_overlap ! 1))" by code_simp
  have "\<exists>i<length (sections w_overlap). fst (sections w_overlap ! i) = ''a'' \<and>
          attributable two_page 10 (snd (sections w_overlap ! i)) \<and>
          (\<forall>j<i. \<not> attributable two_page 10 (snd (sections w_overlap ! j)) \<and>
                 \<not> rejecting two_page (snd (sections w_overlap ! j)))"
    using l f a0 by (intro exI [of _ 0]) simp
  then have g: "getSectionId two_page w_overlap 10 = Inr (Some ''a'')"
    by (rule A [THEN conjunct2, THEN conjunct1, THEN spec, THEN iffD2])
  have "\<forall>kv\<in>set (sections w_overlap).
          \<not> attributable two_page 30 (snd kv) \<and> \<not> rejecting two_page (snd kv)"
    by code_simp
  then have n: "getSectionId two_page w_overlap 30 = Inr None"
    by (rule B [THEN conjunct1, THEN iffD2])
  have lr: "0 < length (sections w_rejecting)" by code_simp
  have r0: "rejecting two_page (snd (sections w_rejecting ! 0))" by code_simp
  have "\<exists>i<length (sections w_rejecting). rejecting two_page (snd (sections w_rejecting ! i)) \<and>
          (\<forall>j<i. \<not> attributable two_page 10 (snd (sections w_rejecting ! j)) \<and>
                 \<not> rejecting two_page (snd (sections w_rejecting ! j)))"
    using lr r0 by (intro exI [of _ 0]) simp
  then have t: "\<exists>err. getSectionId two_page w_rejecting 10 = Inl err"
    by (rule C [THEN conjunct2, THEN conjunct2, THEN conjunct1, THEN iffD2])
  have pi: "prototype_intact initial_world" by (rule prototype_intact_initial)
  have ad: "fst (SN_add (section_cfg ''a'' ''.x'') initial_world) = Inr ''a''" by code_simp
  have ad': "SN_add (section_cfg ''a'' ''.x'') initial_world =
               (Inr ''a'', snd (SN_add (section_cfg ''a'' ''.x'') initial_world))"
    using ad by (cases "SN_add (section_cfg ''a'' ''.x'') initial_world") simp
  have k0: "obj_keys (sections initial_world) = []" by code_simp
  have ai: "array_index ''a'' = None" by code_simp
  have "obj_keys (sections (snd (SN_add (section_cfg ''a'' ''.x'') initial_world))) =
        (case array_index ''a'' of
           None \<Rightarrow> obj_keys (sections initial_world) @ [''a'']
         | Some n \<Rightarrow> takeWhile (index_below n) (obj_keys (sections initial_world)) @
                     ''a'' # dropWhile (index_below n) (obj_keys (sections initial_world)))"
    by (rule D [THEN conjunct2, THEN conjunct2, THEN conjunct2, THEN conjunct1,
                THEN spec, THEN spec, THEN spec, THEN mp, OF conjI [OF pi ad']])
  then have ks: "obj_keys (sections (snd (SN_add (section_cfg ''a'' ''.x'') initial_world))) =
                   [''a'']"
    unfolding ai k0 by simp
  have act: "activeElement w_focused = Some 10" by code_simp
  have org: "getSectionId two_page w_focused 10 = Inr (Some ''a'')" by code_simp
  have ne: "''a'' \<noteq> []" by simp
  have mv: "\<not> prevented two_page 10 WillMove (moveDetail Right ''a'')" by code_simp
  have "SN_move two_page Right None w_focused =
        (if prevented two_page 10 WillMove (moveDetail Right ''a'')
         then (Inr False, w_focused \<lparr> dispatched := dispatched w_focused @
                                         [(10, WillMove, moveDetail Right ''a'')] \<rparr>)
         else focusNext two_page Right 10 ''a''
                (w_focused \<lparr> dispatched := dispatched w_focused @
                               [(10, WillMove, moveDetail Right ''a'')] \<rparr>))"
    by (rule E [THEN conjunct2, THEN conjunct2, THEN conjunct2, THEN conjunct2, THEN conjunct1,
                THEN spec, THEN spec, THEN mp, OF conjI [OF act conjI [OF org ne]]])
  then have m: "SN_move two_page Right None w_focused =
     focusNext two_page Right 10 ''a''
       (w_focused \<lparr> dispatched := dispatched w_focused @ [(10, WillMove, moveDetail Right ''a'')] \<rparr>)"
    using mv by simp
  have "\<exists>sec. obj_get (sections w_overlap) ''a'' = Some sec \<and>
         focusChanged two_page 10 None w_overlap =
           (Inr (), w_overlap \<lparr> sections := obj_put ''a'' (sec \<lparr> sc_lastFocusedElement := Some 10 \<rparr>)
                                      (sections w_overlap),
                        lastSectionId := ''a'' \<rparr>)"
    by (rule A [THEN conjunct2, THEN conjunct2, THEN conjunct2, THEN conjunct2, THEN conjunct2,
                THEN conjunct1, THEN spec, THEN mp, OF conjI [OF g ne]])
  then obtain sa where "focusChanged two_page 10 None w_overlap =
           (Inr (), w_overlap \<lparr> sections := obj_put ''a'' (sa \<lparr> sc_lastFocusedElement := Some 10 \<rparr>)
                                      (sections w_overlap),
                        lastSectionId := ''a'' \<rparr>)"
    by (elim exE conjE)
  then have b1: "lastSectionId (snd (focusChanged two_page 10 None w_overlap)) = ''a''"
    by simp
  have "case obj_get (sections w_overlap) ''b'' of None \<Rightarrow> False | Some sec \<Rightarrow> True"
    by code_simp
  then obtain sb where sb: "obj_get (sections w_overlap) ''b'' = Some sb"
    by (cases "obj_get (sections w_overlap) ''b''") simp_all
  have nb: "''b'' \<noteq> []" by simp
  have "focusChanged two_page 10 (Some ''b'') w_overlap =
        (Inr (), w_overlap \<lparr> sections := obj_put ''b'' (sb \<lparr> sc_lastFocusedElement := Some 10 \<rparr>)
                                   (sections w_overlap),
                     lastSectionId := ''b'' \<rparr>)"
    by (rule A [THEN conjunct2, THEN conjunct2, THEN conjunct2, THEN conjunct2, THEN conjunct2,
                THEN conjunct2, THEN conjunct1, THEN spec, THEN spec, THEN mp,
                OF conjI [OF nb sb]])
  then have b2: "lastSectionId (snd (focusChanged two_page 10 (Some ''b'') w_overlap)) = ''b''"
    by simp
  have "case obj_get (sections w_focused) ''a'' of
          None \<Rightarrow> False
        | Some sec \<Rightarrow>
            getSectionId two_page (record_previous ''a'' 10 20 Right sec w_focused) 20 =
              Inr (Some ''b'') \<and>
            no_leaveFor sec Right \<and>
            move_target two_page (record_previous ''a'' 10 20 Right sec w_focused)
              ''a'' ''b'' 20 = Inr 20"
    by code_simp
  then obtain sec where own: "obj_get (sections w_focused) ''a'' = Some sec"
    and nsid: "getSectionId two_page (record_previous ''a'' 10 20 Right sec w_focused) 20 =
                 Inr (Some ''b'')"
    and nl: "no_leaveFor sec Right"
    and tgt: "move_target two_page (record_previous ''a'' 10 20 Right sec w_focused)
                ''a'' ''b'' 20 = Inr 20"
    by (cases "obj_get (sections w_focused) ''a''") simp_all
  have direct: "''b'' = ''a'' \<or> no_leaveFor sec Right" using nl by simp
  have x: "focusNext_found two_page Right 10 ''a'' 20 w_focused =
        focusElement two_page (Some 20) (Some ''b'') (Some Right)
          (record_previous ''a'' 10 20 Right sec w_focused)"
    by (rule F [THEN conjunct2, THEN conjunct2, THEN conjunct2, THEN conjunct2, THEN conjunct2,
                THEN conjunct2, THEN conjunct2, THEN spec, THEN spec, THEN spec, THEN spec,
                THEN spec, THEN spec, THEN mp,
                OF conjI [OF own conjI [OF nsid conjI [OF direct tgt]]]])
  have last: "\<exists>sec. obj_get (sections w_focused) ''a'' = Some sec \<and>
      getSectionId two_page (record_previous ''a'' 10 20 Right sec w_focused) 20 =
        Inr (Some ''b'') \<and>
      no_leaveFor sec Right \<and>
      move_target two_page (record_previous ''a'' 10 20 Right sec w_focused) ''a'' ''b'' 20 =
        Inr 20 \<and>
      focusNext_found two_page Right 10 ''a'' 20 w_focused =
        focusElement two_page (Some 20) (Some ''b'') (Some Right)
          (record_previous ''a'' 10 20 Right sec w_focused)"
    using own nsid nl tgt x by (intro exI [of _ sec] conjI)
  from k a0 a1 g n r0 t pi ad ks act org m b1 b2 last show ?thesis by (intro conjI)
qed


end
